(* ===== verification/Prelude.thy ===== *)
theory Prelude
  imports Complex_Main "HOL-Library.AList" "HOL-Library.Multiset" "HOL-Library.Stream"
    "HOL-Library.List_Lexorder" "HOL-Library.Char_ord"
begin

text \<open>
  Shared vocabulary of the development: the JavaScript semantics the component
  theories rely on (reading an array slot, which yields \<open>undefined\<close> out of range,
  and the \<open>TypeError\<close> raised when a property of \<open>undefined\<close> is read), the
  collections of facts the component proofs unfold, and generic lemmas on lists,
  multisets and association lists.
\<close>

named_theorems handler_defs
  "definitions of the handlers of the VocabularyCards class, unfolded by the component proofs"

named_theorems inv_simps
  "characteristic equations of the session invariant's conjuncts"

subsection \<open>JavaScript values the model needs\<close>

text \<open>
  The only exception the session code can raise is reading a property of
  \<open>undefined\<close>: \<open>this.filteredVocabulary[this.currentIndex].id\<close> when the cursor
  is outside the deck. It is a value of \<open>js_error\<close>; a handler returns
  \<open>js_error + session\<close>, and \<open>Inl\<close> means the event handler threw before it
  changed any field.
\<close>

datatype js_error = Type_error

type_synonym 'a js_result = "js_error + 'a"

text \<open>\<open>xs[i]\<close> of a JavaScript array: \<open>undefined\<close> (here \<open>None\<close>) out of range.\<close>

definition nth_opt :: "'a list \<Rightarrow> nat \<Rightarrow> 'a option" where
  "nth_opt xs i = (if i < length xs then Some (xs ! i) else None)"

lemma nth_opt_Some_iff [simp]: "nth_opt xs i = Some x \<longleftrightarrow> i < length xs \<and> xs ! i = x"
  by (auto simp: nth_opt_def)

lemma nth_opt_None_iff [simp]: "nth_opt xs i = None \<longleftrightarrow> length xs \<le> i"
  by (simp add: nth_opt_def)

lemma nth_opt_in_range [simp]: "i < length xs \<Longrightarrow> nth_opt xs i = Some (xs ! i)"
  by (simp add: nth_opt_def)

lemma nth_opt_Nil [simp]: "nth_opt [] i = None"
  by (simp add: nth_opt_def)

lemma nth_opt_Cons_0 [simp]: "nth_opt (x # xs) 0 = Some x"
  by (simp add: nth_opt_def)

lemma nth_opt_Cons_Suc [simp]: "nth_opt (x # xs) (Suc i) = nth_opt xs i"
  by (simp add: nth_opt_def)

lemma nth_opt_numeral [simp]:
  "nth_opt (x # xs) (numeral n) = nth_opt xs (pred_numeral n)"
  by (simp add: numeral_eq_Suc)

lemma bool_option_neither [simp]:
  "((c::bool option) \<noteq> Some True \<and> c \<noteq> Some False) \<longleftrightarrow> c = None"
  by (cases c) auto

lemma bool_option_neither' [simp]:
  "(c::bool option) \<noteq> Some True \<Longrightarrow> c \<noteq> Some False \<Longrightarrow> c = None"
  by (cases c) auto

subsection \<open>Lists and multisets\<close>

text \<open>The JavaScript destructuring swap \<open>[a[i], a[j]] = [a[j], a[i]]\<close>: the right
  side is read first, then \<open>a[i]\<close> and \<open>a[j]\<close> are written in this order.\<close>

definition swap_at :: "nat \<Rightarrow> nat \<Rightarrow> 'a list \<Rightarrow> 'a list" where
  "swap_at i j xs = xs[i := xs ! j, j := xs ! i]"

lemma length_swap_at [simp]: "length (swap_at i j xs) = length xs"
  by (simp add: swap_at_def)

lemma mset_swap_at [simp]:
  "i < length xs \<Longrightarrow> j < length xs \<Longrightarrow> mset (swap_at i j xs) = mset xs"
  using mset_swap [of j xs i] by (cases "i = j") (simp_all add: swap_at_def list_update_swap)

lemma filter_mset_eq:
  "mset xs = mset ys \<Longrightarrow> mset (filter P xs) = mset (filter P ys)"
  by (metis mset_filter)

lemma length_mset_eq: "mset xs = mset ys \<Longrightarrow> length xs = length ys"
  by (metis size_mset)

lemma set_mset_eq: "mset xs = mset ys \<Longrightarrow> set xs = set ys"
  by (metis set_mset_mset)

lemma filter_True_on_set: "(\<And>x. x \<in> set xs \<Longrightarrow> P x) \<Longrightarrow> filter P xs = xs"
  by (simp add: filter_id_conv)

lemma find_append:
  "find P (xs @ ys) = (case find P xs of None \<Rightarrow> find P ys | Some x \<Rightarrow> Some x)"
  by (induction xs) auto

lemma find_SomeD: "find P xs = Some x \<Longrightarrow> x \<in> set xs \<and> P x"
  by (induction xs) (auto split: if_splits)

lemma length_filter_disj:
  "(\<And>x. \<not> (P x \<and> Q x)) \<Longrightarrow>
   length (filter P xs) + length (filter Q xs) = length (filter (\<lambda>x. P x \<or> Q x) xs)"
  by (induction xs) auto

lemma sum_length_filter_eq:
  "distinct cs \<Longrightarrow>
   (\<Sum>c\<leftarrow>cs. length (filter (\<lambda>x. f x = c) xs)) = length (filter (\<lambda>x. f x \<in> set cs) xs)"
proof (induction cs)
  case Nil
  then show ?case by simp
next
  case (Cons c cs)
  then have "length (filter (\<lambda>x. f x = c) xs) + length (filter (\<lambda>x. f x \<in> set cs) xs) =
             length (filter (\<lambda>x. f x \<in> set (c # cs)) xs)"
    by (subst length_filter_disj) auto
  with Cons show ?case by simp
qed

lemma sum_list_filter_zero:
  "(\<And>x. x \<in> set xs \<Longrightarrow> \<not> P x \<Longrightarrow> g x = 0) \<Longrightarrow>
   (\<Sum>x\<leftarrow>filter P xs. (g x :: nat)) = (\<Sum>x\<leftarrow>xs. g x)"
  by (induction xs) auto

lemma sum_list_filter_pos:
  "(\<Sum>x\<leftarrow>filter (\<lambda>x. 0 < g x) xs. (g x :: nat)) = (\<Sum>x\<leftarrow>xs. g x)"
  by (induction xs) auto

text \<open>Counting the elements of a list by a four-way classification.\<close>

lemma length_filter_four:
  assumes "\<And>x. (P x \<or> Q x \<or> R x \<or> S x)"
    and "\<And>x. \<not> (P x \<and> Q x)" "\<And>x. \<not> (P x \<and> R x)" "\<And>x. \<not> (P x \<and> S x)"
    and "\<And>x. \<not> (Q x \<and> R x)" "\<And>x. \<not> (Q x \<and> S x)" "\<And>x. \<not> (R x \<and> S x)"
  shows "length (filter P xs) + length (filter Q xs) + length (filter R xs)
           + length (filter S xs) = length xs"
  using assms by (induction xs) auto

subsection \<open>Association lists as JavaScript \<open>Map\<close>s\<close>

text \<open>
  A JavaScript \<open>Map\<close> keeps its keys in insertion order; \<open>set\<close> on a present
  key overwrites in place. This is \<open>AList.update\<close>; \<open>get\<close> is \<open>map_of\<close>,
  \<open>clear\<close> is \<open>[]\<close>.
\<close>

lemma map_of_update_same [simp]: "map_of (AList.update k v al) k = Some v"
  by (simp add: update_conv')

lemma map_of_update_other [simp]:
  "k' \<noteq> k \<Longrightarrow> map_of (AList.update k v al) k' = map_of al k'"
  by (simp add: update_conv')

lemma keys_update: "fst ` set (AList.update k v al) = insert k (fst ` set al)"
  using dom_update [of k v al] by auto

lemma list_all_values_update:
  "P v \<Longrightarrow> list_all P (map snd al) \<Longrightarrow> list_all P (map snd (AList.update k v al))"
  by (induction al) auto

lemma values_update: "snd ` set (AList.update k v al) \<subseteq> insert v (snd ` set al)"
  by (induction al) auto

end
