(* ===== verification/Vocabulary.thy ===== *)
theory Vocabulary
  imports Prelude
begin

text \<open>
  The data of \<open>src/script.js\<close>: a vocabulary word as loaded from
  \<open>vocabulary.json\<close>, the per-word statistic kept in \<open>this.wordStats\<close>
  (\<open>{correct: true|false|null, skipped: bool}\<close>), the three places where the code
  classifies such a statistic (the card's status marker, the "still to guess" test of
  navigation, the statistics counters), the four-way outcome the specification uses
  instead, and the sorted category list derived at load time.
\<close>

section \<open>Words and word statistics\<close>

text \<open>A word; the JSON field \<open>id\<close> is \<open>word_id\<close> (\<open>id\<close> is HOL's identity),
  \<open>spanish\<close> may be \<open>null\<close>.\<close>

record word =
  word_id :: string
  category :: string
  romaji :: string
  hiragana :: string
  english :: string
  spanish :: "string option"

text \<open>The value stored in \<open>wordStats\<close>: \<open>correct\<close> is \<open>true\<close>, \<open>false\<close> or
  \<open>null\<close> (\<open>None\<close>).\<close>

record word_stat =
  correct :: "bool option"
  skipped :: bool

text \<open>The two values the code ever stores: \<open>markWord\<close> (line 713) and
  \<open>markAsSkippedIfUnanswered\<close> (line 778).\<close>

definition answered_stat :: "bool \<Rightarrow> word_stat" where
  "answered_stat b = \<lparr>correct = Some b, skipped = False\<rparr>"

definition skipped_stat :: word_stat where
  "skipped_stat = \<lparr>correct = None, skipped = True\<rparr>"

text \<open>The specification's outcome of a word (section 3 of the spec).\<close>

datatype outcome = Unanswered | Correct | Incorrect | Skipped

text \<open>The card status marker of \<open>updateCardStatus\<close>.\<close>

datatype status = To_guess | Status_correct | Status_incorrect | Status_skipped

section \<open>The three classifications of the code\<close>

text \<open>\<open>!stat || (stat.correct === null && !stat.skipped)\<close>: the test of
  \<open>markAsSkippedIfUnanswered\<close>, repeated in \<open>goToNextUnansweredCard\<close> and
  \<open>updateNavigationButtons\<close>. The argument is \<open>this.wordStats.get(id)\<close>.\<close>

definition is_to_guess :: "word_stat option \<Rightarrow> bool" where
  "is_to_guess st =
     (case st of None \<Rightarrow> True | Some x \<Rightarrow> correct x = None \<and> \<not> skipped x)"

text \<open>The status marker chain of \<open>updateCardStatus\<close>.\<close>

definition status_of_stat :: "word_stat option \<Rightarrow> status" where
  "status_of_stat st =
     (case st of
        None \<Rightarrow> To_guess
      | Some x \<Rightarrow>
          if correct x = Some True then Status_correct
          else if correct x = Some False then Status_incorrect
          else if skipped x then Status_skipped
          else To_guess)"

text \<open>The counter chain of \<open>updateStats\<close> and \<open>downloadStatsCSV\<close>: which counter a
  word's statistic increments.\<close>

definition stat_outcome :: "word_stat option \<Rightarrow> outcome" where
  "stat_outcome st =
     (case st of
        None \<Rightarrow> Unanswered
      | Some x \<Rightarrow>
          if correct x = Some True then Correct
          else if correct x = Some False then Incorrect
          else if skipped x = True then Skipped
          else Unanswered)"

text \<open>The representation the specification asks for: each outcome is one stored
  value (or no entry), and a stored value is one of the two shapes the code writes.\<close>

fun stat_of_outcome :: "outcome \<Rightarrow> word_stat option" where
  "stat_of_outcome Unanswered = None"
| "stat_of_outcome Correct = Some (answered_stat True)"
| "stat_of_outcome Incorrect = Some (answered_stat False)"
| "stat_of_outcome Skipped = Some skipped_stat"

definition valid_stat :: "word_stat \<Rightarrow> bool" where
  "valid_stat x = ((correct x \<noteq> None \<and> \<not> skipped x) \<or> (correct x = None \<and> skipped x))"

fun status_of_outcome :: "outcome \<Rightarrow> status" where
  "status_of_outcome Unanswered = To_guess"
| "status_of_outcome Correct = Status_correct"
| "status_of_outcome Incorrect = Status_incorrect"
| "status_of_outcome Skipped = Status_skipped"

section \<open>The category list\<close>

text \<open>\<open>[...new Set(xs)]\<close>: the distinct elements in order of first occurrence.\<close>

fun unique_first :: "'a list \<Rightarrow> 'a list" where
  "unique_first [] = []"
| "unique_first (x # xs) = x # unique_first (filter (\<lambda>y. y \<noteq> x) xs)"

text \<open>\<open>this.availableCategories\<close> (line 189): the distinct categories, sorted by
  \<open>Array.prototype.sort\<close>, which compares strings code unit by code unit with a
  proper prefix first; that is the lexicographic order of \<open>List_Lexorder\<close> on
  \<open>string\<close>.\<close>

definition categories_of :: "word list \<Rightarrow> string list" where
  "categories_of ws = sort (unique_first (map category ws))"

section \<open>Lemmas\<close>

lemma valid_stat_written [simp]: "valid_stat (answered_stat b)" "valid_stat skipped_stat"
  by (simp_all add: valid_stat_def answered_stat_def skipped_stat_def)

lemma is_to_guess_written [simp]:
  "\<not> is_to_guess (Some (answered_stat b))" "\<not> is_to_guess (Some skipped_stat)"
  "is_to_guess None"
  by (simp_all add: is_to_guess_def answered_stat_def skipped_stat_def)

lemma stat_outcome_written [simp]:
  "stat_outcome (Some (answered_stat b)) = (if b then Correct else Incorrect)"
  "stat_outcome (Some skipped_stat) = Skipped" "stat_outcome None = Unanswered"
  by (simp_all add: stat_outcome_def answered_stat_def skipped_stat_def)

lemma set_unique_first [simp]: "set (unique_first xs) = set xs"
  by (induction xs rule: unique_first.induct) auto

lemma distinct_unique_first: "distinct (unique_first xs)"
  by (induction xs rule: unique_first.induct) auto

text \<open>C17: the navigation test and the statistics agree: a statistic is "to guess"
  exactly when the counters count it as unanswered, for every stored value, also the
  combinations the code never writes.\<close>

theorem to_guess_iff_unanswered: "is_to_guess st \<longleftrightarrow> stat_outcome st = Unanswered"
  by (auto simp: is_to_guess_def stat_outcome_def split: option.splits)

lemma status_of_stat_outcome: "status_of_stat st = status_of_outcome (stat_outcome st)"
  by (auto simp: status_of_stat_def stat_outcome_def split: option.splits)

text \<open>C18: the specification's four-valued outcome and the code's pair of flags
  represent each other: every outcome is stored as a value that reads back as that
  outcome, and every value the code stores is the representation of its outcome.\<close>

theorem outcome_roundtrip:
  "stat_outcome (stat_of_outcome oc) = oc \<and>
   (valid_stat x \<longrightarrow> stat_of_outcome (stat_outcome (Some x)) = Some x)"
proof
  show "stat_outcome (stat_of_outcome oc) = oc"
    by (cases oc) simp_all
  show "valid_stat x \<longrightarrow> stat_of_outcome (stat_outcome (Some x)) = Some x"
    by (cases x) (auto simp: valid_stat_def stat_outcome_def answered_stat_def skipped_stat_def)
qed

theorem outcome_roundtrip_witness:
  "stat_outcome (stat_of_outcome Skipped) = Skipped \<and>
   valid_stat skipped_stat \<and> stat_of_outcome (stat_outcome (Some skipped_stat)) = Some skipped_stat"
  using outcome_roundtrip [of Skipped skipped_stat] by simp

text \<open>C19: the category list is the sorted list of the distinct categories of the
  vocabulary.\<close>

theorem categories_of_sorted_set:
  "categories_of ws = sorted_list_of_set (category ` set ws)"
proof (rule sorted_distinct_set_unique)
  show "sorted (categories_of ws)" and "distinct (categories_of ws)"
    by (simp_all add: categories_of_def distinct_unique_first)
  show "sorted (sorted_list_of_set (category ` set ws))"
    and "distinct (sorted_list_of_set (category ` set ws))"
    by simp_all
  show "set (categories_of ws) = set (sorted_list_of_set (category ` set ws))"
    by (simp add: categories_of_def)
qed

lemma set_categories_of [simp]: "set (categories_of ws) = category ` set ws"
  by (simp add: categories_of_def)

lemma categories_of_Nil_iff [simp]: "categories_of ws = [] \<longleftrightarrow> ws = []"
  by (metis set_categories_of image_is_empty set_empty)

end
