(* ===== verification/Deck.thy ===== *)
theory Deck
  imports Vocabulary
begin

text \<open>
  The state of a \<open>VocabularyCards\<close> object and the handlers that derive the deck
  (\<open>this.filteredVocabulary\<close>) from the category selection: the constructor,
  \<open>loadVocabulary\<close>, \<open>updateFilteredVocabulary\<close>, the state effect of
  \<open>displayCard\<close>, \<open>onCategoryChange\<close>, \<open>selectAllCategories\<close>,
  \<open>selectNoCategories\<close> and \<open>resetStats\<close>; and the session invariant that every
  handler of the class keeps.
\<close>

section \<open>The session state\<close>

text \<open>\<open>this.currentLanguage\<close> is \<open>'en'\<close> or \<open>'es'\<close>; \<open>this.cardDirection\<close> is
  \<open>'jp-to-target'\<close> or \<open>'target-to-jp'\<close>: the only values the code assigns.\<close>

datatype language = En | Es

datatype direction = Jp_to_target | Target_to_jp

text \<open>The fields of the object that the handlers read or write (the DOM element
  references and the constant translation table are left out). \<open>wordStats\<close> is a
  JavaScript \<open>Map\<close>, an association list here; \<open>selectedCategories\<close> is a \<open>Set\<close>.\<close>

record session =
  vocabulary :: "word list"
  filtered_vocabulary :: "word list"
  current_index :: nat
  is_flipped :: bool
  current_language :: language
  selected_categories :: "string set"
  available_categories :: "string list"
  card_direction :: direction
  word_stats :: "(string \<times> word_stat) list"

text \<open>The constructor's field initialisation (lines 2--13).\<close>

definition new_session :: session where
  "new_session =
     \<lparr>vocabulary = [], filtered_vocabulary = [], current_index = 0, is_flipped = False,
      current_language = En, selected_categories = {}, available_categories = [],
      card_direction = Jp_to_target, word_stats = []\<rparr>"

section \<open>Deck derivation\<close>

text \<open>\<open>updateFilteredVocabulary\<close> (lines 683--696). The clamp
  \<open>Math.max(0, length - 1)\<close> is the truncated \<open>nat\<close> subtraction.\<close>

definition update_filtered_vocabulary :: "session \<Rightarrow> session" where
  "update_filtered_vocabulary s =
     (let f = (if selected_categories s = {} then []
               else filter (\<lambda>w. category w \<in> selected_categories s) (vocabulary s))
      in s\<lparr>filtered_vocabulary := f,
           current_index := (if length f \<le> current_index s then length f - 1
                             else current_index s)\<rparr>)"

text \<open>The state effect of \<open>displayCard\<close> (lines 251--302): on an empty deck it
  returns early; otherwise it reads \<open>filteredVocabulary[currentIndex]\<close>, whose
  properties it reads at once (a \<open>TypeError\<close> when the cursor is outside the deck),
  and resets \<open>isFlipped\<close>. The rest of it writes the DOM.\<close>

definition display_card :: "session \<Rightarrow> session js_result" where
  "display_card s =
     (if filtered_vocabulary s = [] then Inr s
      else case nth_opt (filtered_vocabulary s) (current_index s) of
             None \<Rightarrow> Inl Type_error
           | Some w \<Rightarrow> Inr (s\<lparr>is_flipped := False\<rparr>))"

text \<open>\<open>onCategoryChange(category, isSelected)\<close> (lines 626--642).\<close>

definition on_category_change :: "string \<Rightarrow> bool \<Rightarrow> session \<Rightarrow> session js_result" where
  "on_category_change c b s =
     (let s1 = s\<lparr>selected_categories :=
                   (if b then insert c (selected_categories s)
                    else selected_categories s - {c})\<rparr>;
          s2 = s1\<lparr>word_stats := []\<rparr>;
          s3 = update_filtered_vocabulary s2;
          s4 = s3\<lparr>current_index := 0, is_flipped := False\<rparr>
      in display_card s4)"

text \<open>\<open>selectAllCategories\<close> (lines 644--657).\<close>

definition select_all_categories :: "session \<Rightarrow> session js_result" where
  "select_all_categories s =
     (let s1 = s\<lparr>selected_categories := set (available_categories s)\<rparr>;
          s2 = s1\<lparr>word_stats := []\<rparr>;
          s3 = update_filtered_vocabulary s2;
          s4 = s3\<lparr>current_index := 0, is_flipped := False\<rparr>
      in display_card s4)"

text \<open>\<open>selectNoCategories\<close> (lines 659--672).\<close>

definition select_no_categories :: "session \<Rightarrow> session js_result" where
  "select_no_categories s =
     (let s1 = s\<lparr>selected_categories := {}\<rparr>;
          s2 = s1\<lparr>word_stats := []\<rparr>;
          s3 = update_filtered_vocabulary s2;
          s4 = s3\<lparr>current_index := 0, is_flipped := False\<rparr>
      in display_card s4)"

text \<open>\<open>resetStats\<close> (lines 954--994).\<close>

definition reset_stats :: "session \<Rightarrow> session js_result" where
  "reset_stats s =
     (let s1 = s\<lparr>word_stats := []\<rparr>;
          s2 = s1\<lparr>selected_categories := set (available_categories s1)\<rparr>;
          s3 = update_filtered_vocabulary s2;
          s4 = s3\<lparr>current_index := 0, is_flipped := False\<rparr>
      in display_card s4)"

text \<open>\<open>loadVocabulary\<close> after a successful fetch (lines 177--203), applied to the
  parsed word list.\<close>

definition load_vocabulary :: "word list \<Rightarrow> session \<Rightarrow> session" where
  "load_vocabulary ws s =
     (let s1 = s\<lparr>vocabulary := ws, available_categories := categories_of ws\<rparr>;
          s2 = s1\<lparr>selected_categories := set (available_categories s1)\<rparr>
      in update_filtered_vocabulary s2)"

declare update_filtered_vocabulary_def [handler_defs] display_card_def [handler_defs]
  on_category_change_def [handler_defs] select_all_categories_def [handler_defs]
  select_no_categories_def [handler_defs] reset_stats_def [handler_defs]
  load_vocabulary_def [handler_defs]

section \<open>The session invariant\<close>

text \<open>
  What every reachable session satisfies: the category list is the one derived from the
  vocabulary; the deck holds exactly the words of the selected categories (in some
  order: the shuffle permutes it); the cursor is inside the deck, or 0 on an empty deck;
  every stored statistic is one of the two shapes the code writes; and statistics exist
  only for words of the deck.
\<close>

definition deck_of :: "session \<Rightarrow> word list" where
  "deck_of s = filter (\<lambda>w. category w \<in> selected_categories s) (vocabulary s)"

definition wf_session :: "session \<Rightarrow> bool" where
  "wf_session s \<longleftrightarrow>
     available_categories s = categories_of (vocabulary s) \<and>
     mset (filtered_vocabulary s) = mset (deck_of s) \<and>
     current_index s < max 1 (length (filtered_vocabulary s)) \<and>
     list_all valid_stat (map snd (word_stats s)) \<and>
     set (map fst (word_stats s)) \<subseteq> set (map word_id (filtered_vocabulary s))"

section \<open>Deck derivation: lemmas\<close>

text \<open>The early branch for an empty selection computes what the filter computes.\<close>

lemma filtered_update_filtered [simp]:
  "filtered_vocabulary (update_filtered_vocabulary s) = deck_of s"
  by (simp add: update_filtered_vocabulary_def deck_of_def Let_def)

lemma index_update_filtered:
  "current_index (update_filtered_vocabulary s) < max 1 (length (deck_of s))"
  by (auto simp: update_filtered_vocabulary_def deck_of_def Let_def max_def)

lemma update_filtered_frame [simp]:
  "vocabulary (update_filtered_vocabulary s) = vocabulary s"
  "selected_categories (update_filtered_vocabulary s) = selected_categories s"
  "available_categories (update_filtered_vocabulary s) = available_categories s"
  "word_stats (update_filtered_vocabulary s) = word_stats s"
  "is_flipped (update_filtered_vocabulary s) = is_flipped s"
  "current_language (update_filtered_vocabulary s) = current_language s"
  "card_direction (update_filtered_vocabulary s) = card_direction s"
  by (simp_all add: update_filtered_vocabulary_def Let_def)

lemma deck_of_simps [simp]:
  "deck_of (s\<lparr>current_index := i\<rparr>) = deck_of s"
  "deck_of (s\<lparr>is_flipped := b\<rparr>) = deck_of s"
  "deck_of (s\<lparr>word_stats := st\<rparr>) = deck_of s"
  "deck_of (s\<lparr>filtered_vocabulary := f\<rparr>) = deck_of s"
  "deck_of (update_filtered_vocabulary s) = deck_of s"
  by (simp_all add: deck_of_def)

text \<open>The display never throws while the cursor is inside the deck (or the deck is
  empty); it only resets the flip state.\<close>

lemma display_card_in_bounds:
  "current_index s < max 1 (length (filtered_vocabulary s)) \<Longrightarrow>
   display_card s = Inr (if filtered_vocabulary s = [] then s else s\<lparr>is_flipped := False\<rparr>)"
  by (cases "filtered_vocabulary s") (auto simp: display_card_def nth_opt_def)

lemma display_card_in_range:
  "current_index s < length (filtered_vocabulary s) \<Longrightarrow>
   display_card s = Inr (s\<lparr>is_flipped := False\<rparr>)"
  by (auto simp: display_card_def)

lemma display_card_at_0:
  "display_card (s\<lparr>current_index := 0, is_flipped := False\<rparr>) =
   Inr (s\<lparr>current_index := 0, is_flipped := False\<rparr>)"
  by (simp add: display_card_in_bounds)

lemma wf_session_flip [inv_simps]: "wf_session (s\<lparr>is_flipped := b\<rparr>) = wf_session s"
  by (simp add: wf_session_def deck_of_def)

lemma wf_session_display_fields [inv_simps]:
  "wf_session (s\<lparr>current_language := l\<rparr>) = wf_session s"
  "wf_session (s\<lparr>card_direction := d\<rparr>) = wf_session s"
  by (simp_all add: wf_session_def deck_of_def)

lemma display_card_Inr_iff:
  "display_card s = Inr s' \<longleftrightarrow>
   (filtered_vocabulary s = [] \<and> s' = s) \<or>
   (current_index s < length (filtered_vocabulary s) \<and> s' = s\<lparr>is_flipped := False\<rparr>)"
  by (cases "filtered_vocabulary s") (auto simp: display_card_def nth_opt_def)

lemma display_card_wf:
  "display_card s = Inr s' \<Longrightarrow> wf_session s \<Longrightarrow> wf_session s'"
  by (auto simp: display_card_Inr_iff inv_simps split: if_splits)

text \<open>A session rebuilt from the selection (statistics cleared, deck recomputed,
  cursor 0) satisfies the invariant as soon as its category list is the derived one.\<close>

lemma wf_rebuilt:
  assumes "available_categories t = categories_of (vocabulary t)" and "word_stats t = []"
  shows "wf_session ((update_filtered_vocabulary t)\<lparr>current_index := 0, is_flipped := False\<rparr>)"
  using assms by (simp add: wf_session_def)

lemma deck_all_selected:
  "set (categories_of ws) \<subseteq> S \<Longrightarrow> filter (\<lambda>w. category w \<in> S) ws = ws"
  by (rule filter_True_on_set) auto

lemmas rebuild_simps = display_card_at_0 Let_def

section \<open>The category handlers\<close>

text \<open>Closed forms: each handler recomputes the deck from its new selection, clears
  the statistics, puts the cursor on the first card and never throws.\<close>

lemma on_category_change_eq:
  "on_category_change c b s =
   Inr ((update_filtered_vocabulary
          (s\<lparr>selected_categories := (if b then insert c (selected_categories s)
                                     else selected_categories s - {c}),
             word_stats := []\<rparr>))\<lparr>current_index := 0, is_flipped := False\<rparr>)"
  by (simp add: on_category_change_def rebuild_simps)

lemma select_all_categories_eq:
  "select_all_categories s =
   Inr ((update_filtered_vocabulary
          (s\<lparr>selected_categories := set (available_categories s), word_stats := []\<rparr>))
        \<lparr>current_index := 0, is_flipped := False\<rparr>)"
  by (simp add: select_all_categories_def rebuild_simps)

lemma select_no_categories_eq:
  "select_no_categories s =
   Inr ((update_filtered_vocabulary (s\<lparr>selected_categories := {}, word_stats := []\<rparr>))
        \<lparr>current_index := 0, is_flipped := False\<rparr>)"
  by (simp add: select_no_categories_def rebuild_simps)

lemma reset_stats_eq:
  "reset_stats s =
   Inr ((update_filtered_vocabulary
          (s\<lparr>word_stats := [], selected_categories := set (available_categories s)\<rparr>))
        \<lparr>current_index := 0, is_flipped := False\<rparr>)"
  by (simp add: reset_stats_def rebuild_simps)

lemma on_category_change_wf:
  "wf_session s \<Longrightarrow> on_category_change c b s = Inr s' \<Longrightarrow> wf_session s'"
  by (auto simp: on_category_change_eq wf_session_def intro!: wf_rebuilt)

lemma select_all_categories_wf:
  "wf_session s \<Longrightarrow> select_all_categories s = Inr s' \<Longrightarrow> wf_session s'"
  by (auto simp: select_all_categories_eq wf_session_def intro!: wf_rebuilt)

lemma select_no_categories_wf:
  "wf_session s \<Longrightarrow> select_no_categories s = Inr s' \<Longrightarrow> wf_session s'"
  by (auto simp: select_no_categories_eq wf_session_def intro!: wf_rebuilt)

lemma reset_stats_wf:
  "wf_session s \<Longrightarrow> reset_stats s = Inr s' \<Longrightarrow> wf_session s'"
  by (auto simp: reset_stats_eq wf_session_def intro!: wf_rebuilt)

lemma load_vocabulary_eq:
  "load_vocabulary ws new_session =
   new_session\<lparr>vocabulary := ws, filtered_vocabulary := ws,
               selected_categories := category ` set ws, available_categories := categories_of ws\<rparr>"
  by (simp add: load_vocabulary_def new_session_def update_filtered_vocabulary_def Let_def
      filter_True_on_set)

lemma load_vocabulary_wf: "wf_session (load_vocabulary ws new_session)"
  by (simp add: load_vocabulary_def new_session_def wf_session_def index_update_filtered
      [simplified])

text \<open>C2: toggling a category checkbox adds or removes that category, recomputes the
  deck as exactly the words of the selected categories in their original order, clears
  every statistic (also those of words outside the new selection), puts the cursor on
  the first card and never throws.\<close>

theorem on_category_change_result:
  "\<exists>s'. on_category_change c b s = Inr s' \<and>
     selected_categories s' =
       (if b then insert c (selected_categories s) else selected_categories s - {c}) \<and>
     filtered_vocabulary s' =
       filter (\<lambda>w. category w \<in> selected_categories s') (vocabulary s) \<and>
     word_stats s' = [] \<and> current_index s' = 0 \<and> \<not> is_flipped s' \<and>
     vocabulary s' = vocabulary s"
  by (simp add: on_category_change_eq deck_of_def)

text \<open>C11: "None" empties the selection and the deck, clears the statistics and
  leaves the cursor at 0 with no card to show; it is not an error.\<close>

theorem select_no_categories_result:
  "\<exists>s'. select_no_categories s = Inr s' \<and> selected_categories s' = {} \<and>
     filtered_vocabulary s' = [] \<and> word_stats s' = [] \<and> current_index s' = 0"
  by (simp add: select_no_categories_eq deck_of_def)

text \<open>C10: "Reset" (and likewise "All") selects every category, rebuilds the deck as
  the whole vocabulary in its original order, clears the statistics and puts the cursor
  on the first card, provided the category list is the one derived at load time.\<close>

theorem reset_stats_result:
  assumes "available_categories s = categories_of (vocabulary s)"
  shows "\<exists>s'. reset_stats s = Inr s' \<and> filtered_vocabulary s' = vocabulary s \<and>
     selected_categories s' = category ` set (vocabulary s) \<and>
     word_stats s' = [] \<and> current_index s' = 0"
  using assms by (simp add: reset_stats_eq deck_of_def deck_all_selected)

lemma select_all_categories_deck:
  "available_categories s = categories_of (vocabulary s) \<Longrightarrow>
   select_all_categories s = Inr s' \<Longrightarrow> filtered_vocabulary s' = vocabulary s"
  by (auto simp: select_all_categories_eq deck_of_def deck_all_selected)

end
