(* ===== verification/Navigation.thy ===== *)
theory Navigation
  imports Deck
begin

text \<open>
  Outcome tracking and navigation: \<open>previousCard\<close>, \<open>nextCard\<close>,
  \<open>markAsSkippedIfUnanswered\<close>, \<open>markWord\<close> and \<open>goToNextUnansweredCard\<close>, whose
  two \<open>while\<close> loops are one scan function with a termination measure. The timer
  with which \<open>markWord\<close> schedules the auto-advance is modelled in \<open>Events\<close>;
  here \<open>mark_and_advance\<close> is the mark followed at once by its callback, the engine's
  logical step of the specification.
\<close>

section \<open>Handlers\<close>

text \<open>\<open>previousCard\<close> (lines 371--379): never marks anything.\<close>

definition previous_card :: "session \<Rightarrow> session js_result" where
  "previous_card s =
     (if 0 < current_index s
      then display_card (s\<lparr>current_index := current_index s - 1\<rparr>)
      else Inr s)"

text \<open>\<open>markAsSkippedIfUnanswered\<close> (lines 770--783).\<close>

definition mark_as_skipped_if_unanswered :: "session \<Rightarrow> session js_result" where
  "mark_as_skipped_if_unanswered s =
     (if filtered_vocabulary s = [] then Inr s
      else case nth_opt (filtered_vocabulary s) (current_index s) of
             None \<Rightarrow> Inl Type_error
           | Some w \<Rightarrow>
               if is_to_guess (map_of (word_stats s) (word_id w))
               then Inr (s\<lparr>word_stats := AList.update (word_id w) skipped_stat (word_stats s)\<rparr>)
               else Inr s)"

text \<open>\<open>nextCard\<close> (lines 381--391). The guard
  \<open>currentIndex < filteredVocabulary.length - 1\<close> is evaluated on JavaScript numbers,
  where \<open>0 - 1 = -1\<close>; it is \<open>currentIndex + 1 < length\<close>.\<close>

definition next_card :: "session \<Rightarrow> session js_result" where
  "next_card s =
     (if Suc (current_index s) < length (filtered_vocabulary s)
      then (case mark_as_skipped_if_unanswered s of
              Inl e \<Rightarrow> Inl e
            | Inr s1 \<Rightarrow> display_card (s1\<lparr>current_index := Suc (current_index s1)\<rparr>))
      else Inr s)"

text \<open>\<open>markWord(isCorrect)\<close> (lines 709--722): the statistic update; the timer it
  schedules last is \<open>Events.pending\<close>.\<close>

definition mark_word :: "bool \<Rightarrow> session \<Rightarrow> session js_result" where
  "mark_word b s =
     (if filtered_vocabulary s = [] then Inr s
      else case nth_opt (filtered_vocabulary s) (current_index s) of
             None \<Rightarrow> Inl Type_error
           | Some w \<Rightarrow>
               Inr (s\<lparr>word_stats := AList.update (word_id w) (answered_stat b) (word_stats s)\<rparr>))"

text \<open>The two loops of \<open>goToNextUnansweredCard\<close> (lines 731--764): from index
  \<open>i\<close> up to (excluding) \<open>hi\<close>, the first index whose word is still to guess.
  Reading \<open>filteredVocabulary[i].id\<close> beyond the deck throws.\<close>

function (domintros) scan_unanswered ::
    "word list \<Rightarrow> (string \<times> word_stat) list \<Rightarrow> nat \<Rightarrow> nat \<Rightarrow> nat option js_result" where
  "scan_unanswered f st hi i =
     (if i < hi then
        (case nth_opt f i of
           None \<Rightarrow> Inl Type_error
         | Some w \<Rightarrow> if is_to_guess (map_of st (word_id w)) then Inr (Some i)
                     else scan_unanswered f st hi (Suc i))
      else Inr None)"
  by pat_completeness auto
termination
  by (relation "measure (\<lambda>(f, st, hi, i). hi - i)") auto

declare scan_unanswered.simps [simp del]

text \<open>\<open>goToNextUnansweredCard\<close> (lines 729--768): forward from the card after the
  cursor, then from the first card up to the cursor, else \<open>nextCard\<close>.\<close>

definition go_to_next_unanswered_card :: "session \<Rightarrow> session js_result" where
  "go_to_next_unanswered_card s =
     (let f = filtered_vocabulary s; st = word_stats s in
      case scan_unanswered f st (length f) (Suc (current_index s)) of
        Inl e \<Rightarrow> Inl e
      | Inr (Some j) \<Rightarrow> display_card (s\<lparr>current_index := j\<rparr>)
      | Inr None \<Rightarrow>
          (case scan_unanswered f st (current_index s) 0 of
             Inl e \<Rightarrow> Inl e
           | Inr (Some j) \<Rightarrow> display_card (s\<lparr>current_index := j\<rparr>)
           | Inr None \<Rightarrow> next_card s))"

text \<open>The specification's \<open>markCurrent\<close>: \<open>markWord\<close> and then, with nothing in
  between, the callback of its timer (lines 724--726).\<close>

definition mark_and_advance :: "bool \<Rightarrow> session \<Rightarrow> session js_result" where
  "mark_and_advance b s =
     (if filtered_vocabulary s = [] then Inr s
      else case mark_word b s of
             Inl e \<Rightarrow> Inl e
           | Inr s1 \<Rightarrow> go_to_next_unanswered_card s1)"

declare previous_card_def [handler_defs] mark_as_skipped_if_unanswered_def [handler_defs]
  next_card_def [handler_defs] mark_word_def [handler_defs]
  go_to_next_unanswered_card_def [handler_defs] mark_and_advance_def [handler_defs]

section \<open>The reference search\<close>

text \<open>What the scan loops compute, as a search over a list of indices: the cards
  after the cursor, then the cards before it.\<close>

definition unanswered_at :: "word list \<Rightarrow> (string \<times> word_stat) list \<Rightarrow> nat \<Rightarrow> bool" where
  "unanswered_at f st i = is_to_guess (map_of st (word_id (f ! i)))"

definition next_unanswered_index :: "word list \<Rightarrow> (string \<times> word_stat) list \<Rightarrow> nat \<Rightarrow> nat option" where
  "next_unanswered_index f st i =
     find (unanswered_at f st) ([Suc i..<length f] @ [0..<i])"

section \<open>The scan loops\<close>

text \<open>Within the deck the loops never throw, and they compute the reference search.\<close>

lemma scan_unanswered_find:
  "hi \<le> length f \<Longrightarrow>
   scan_unanswered f st hi i = Inr (find (unanswered_at f st) [i..<hi])"
proof (induction f st hi i rule: scan_unanswered.induct)
  case (1 f st hi i)
  show ?case
  proof (cases "i < hi")
    case True
    with "1.prems" have "nth_opt f i = Some (f ! i)" by simp
    with True "1.IH" "1.prems" show ?thesis
      by (simp add: scan_unanswered.simps [of f st hi i] upt_conv_Cons unanswered_at_def)
  next
    case False
    then show ?thesis by (simp add: scan_unanswered.simps [of f st hi i])
  qed
qed

lemma next_unanswered_index_None_iff:
  assumes "i < length f"
  shows "next_unanswered_index f st i = None \<longleftrightarrow>
         (\<forall>k < length f. k \<noteq> i \<longrightarrow> \<not> unanswered_at f st k)"
proof -
  have "set ([Suc i..<length f] @ [0..<i]) = {k. k < length f \<and> k \<noteq> i}"
    using assms by auto
  then show ?thesis
    by (auto simp: next_unanswered_index_def find_None_iff)
qed

lemma next_unanswered_index_Some:
  "i < max 1 (length f) \<Longrightarrow> next_unanswered_index f st i = Some j \<Longrightarrow>
   j < length f \<and> j \<noteq> i \<and> unanswered_at f st j"
  by (cases "f = []") (auto simp: next_unanswered_index_def dest!: find_SomeD)

section \<open>Closed forms under the cursor bound\<close>

lemma mark_as_skipped_eq:
  "current_index s < length (filtered_vocabulary s) \<Longrightarrow>
   mark_as_skipped_if_unanswered s =
   Inr (let w = filtered_vocabulary s ! current_index s in
        if is_to_guess (map_of (word_stats s) (word_id w))
        then s\<lparr>word_stats := AList.update (word_id w) skipped_stat (word_stats s)\<rparr>
        else s)"
  by (auto simp: mark_as_skipped_if_unanswered_def Let_def)

lemma mark_word_eq:
  "current_index s < length (filtered_vocabulary s) \<Longrightarrow>
   mark_word b s =
   Inr (s\<lparr>word_stats := AList.update (word_id (filtered_vocabulary s ! current_index s))
                          (answered_stat b) (word_stats s)\<rparr>)"
  by (auto simp: mark_word_def)

lemma next_card_eq:
  "Suc (current_index s) < length (filtered_vocabulary s) \<Longrightarrow>
   next_card s =
   Inr (let w = filtered_vocabulary s ! current_index s;
            st = (if is_to_guess (map_of (word_stats s) (word_id w))
                  then AList.update (word_id w) skipped_stat (word_stats s) else word_stats s)
        in s\<lparr>word_stats := st, current_index := Suc (current_index s), is_flipped := False\<rparr>)"
proof -
  assume len: "Suc (current_index s) < length (filtered_vocabulary s)"
  then have i: "current_index s < length (filtered_vocabulary s)"
    and ne: "filtered_vocabulary s \<noteq> []" by auto
  show ?thesis
    by (simp add: next_card_def mark_as_skipped_eq [OF i] len Let_def display_card_in_range)
qed

lemma next_card_last: "\<not> Suc (current_index s) < length (filtered_vocabulary s) \<Longrightarrow> next_card s = Inr s"
  by (simp add: next_card_def)

lemma go_to_next_unanswered_eq:
  assumes "current_index s < max 1 (length (filtered_vocabulary s))"
  shows "go_to_next_unanswered_card s =
    (case next_unanswered_index (filtered_vocabulary s) (word_stats s) (current_index s) of
       Some j \<Rightarrow> Inr (s\<lparr>current_index := j, is_flipped := False\<rparr>)
     | None \<Rightarrow> next_card s)"
proof -
  let ?f = "filtered_vocabulary s" and ?st = "word_stats s" and ?i = "current_index s"
  have le: "?i \<le> length ?f"
    using assms by (cases ?f) auto
  have j: "display_card (s\<lparr>current_index := j\<rparr>) = Inr (s\<lparr>current_index := j, is_flipped := False\<rparr>)"
    if "find (unanswered_at ?f ?st) ([Suc ?i..<length ?f] @ [0..<?i]) = Some j" for j
  proof -
    from find_SomeD [OF that] le have "j < length ?f" by auto
    then show ?thesis by (simp add: display_card_in_range)
  qed
  show ?thesis
    using le j
    by (auto simp: go_to_next_unanswered_card_def scan_unanswered_find next_unanswered_index_def
        find_append split: option.splits)
qed

section \<open>Invariant preservation\<close>

lemma wf_session_index:
  "i < max 1 (length (filtered_vocabulary s)) \<Longrightarrow> wf_session s \<Longrightarrow>
   wf_session (s\<lparr>current_index := i\<rparr>)"
  by (simp add: wf_session_def)

lemma wf_session_stats_update:
  assumes "wf_session s" and "k \<in> set (map word_id (filtered_vocabulary s))" and "valid_stat v"
  shows "wf_session (s\<lparr>word_stats := AList.update k v (word_stats s)\<rparr>)"
proof -
  have "list_all valid_stat (map snd (AList.update k v (word_stats s)))"
    using assms by (simp add: wf_session_def list_all_values_update del: list.pred_map)
  moreover have "fst ` set (AList.update k v (word_stats s)) \<subseteq> word_id ` set (filtered_vocabulary s)"
    using assms by (auto simp: wf_session_def keys_update)
  ultimately show ?thesis
    using assms by (simp add: wf_session_def)
qed

lemma wf_index_le:
  "wf_session s \<Longrightarrow> i \<le> current_index s \<Longrightarrow> wf_session (s\<lparr>current_index := i\<rparr>)"
  by (auto simp: wf_session_def max_def)

lemma wf_index_bound:
  "wf_session s \<Longrightarrow> filtered_vocabulary s \<noteq> [] \<Longrightarrow> current_index s < length (filtered_vocabulary s)"
  by (simp add: wf_session_def max_def split: if_splits)

lemma wf_current_word:
  "wf_session s \<Longrightarrow> current_index s < length (filtered_vocabulary s) \<Longrightarrow>
   word_id (filtered_vocabulary s ! current_index s) \<in> set (map word_id (filtered_vocabulary s))"
  by simp

lemma previous_card_wf:
  assumes "wf_session s" and "previous_card s = Inr s'"
  shows "wf_session s'"
proof (cases "0 < current_index s")
  case True
  from assms(1) have "wf_session (s\<lparr>current_index := current_index s - 1\<rparr>)"
    by (rule wf_index_le) simp
  with True assms(2) show ?thesis
    by (simp add: previous_card_def display_card_wf)
next
  case False
  with assms show ?thesis by (simp add: previous_card_def)
qed

lemma mark_as_skipped_wf:
  "wf_session s \<Longrightarrow> mark_as_skipped_if_unanswered s = Inr s' \<Longrightarrow> wf_session s'"
  by (cases "filtered_vocabulary s = []")
    (auto simp: mark_as_skipped_if_unanswered_def mark_as_skipped_eq wf_index_bound Let_def
      intro: wf_session_stats_update split: if_splits)

lemma mark_word_wf:
  "wf_session s \<Longrightarrow> mark_word b s = Inr s' \<Longrightarrow> wf_session s'"
  by (cases "filtered_vocabulary s = []")
    (auto simp: mark_word_def mark_word_eq wf_index_bound intro: wf_session_stats_update)

lemma mark_as_skipped_frame:
  "mark_as_skipped_if_unanswered s = Inr s1 \<Longrightarrow>
   filtered_vocabulary s1 = filtered_vocabulary s \<and> current_index s1 = current_index s"
  by (auto simp: mark_as_skipped_if_unanswered_def split: option.splits if_splits)

lemma next_card_wf:
  assumes "wf_session s" and "next_card s = Inr s'"
  shows "wf_session s'"
proof (cases "Suc (current_index s) < length (filtered_vocabulary s)")
  case True
  then obtain s1 where s1: "mark_as_skipped_if_unanswered s = Inr s1"
    and s': "display_card (s1\<lparr>current_index := Suc (current_index s1)\<rparr>) = Inr s'"
    using assms(2) by (auto simp: next_card_def split: sum.splits)
  from assms(1) s1 have "wf_session s1" by (rule mark_as_skipped_wf)
  moreover from s1 True have "Suc (current_index s1) < length (filtered_vocabulary s1)"
    by (simp add: mark_as_skipped_frame)
  ultimately have "wf_session (s1\<lparr>current_index := Suc (current_index s1)\<rparr>)"
    by (simp add: wf_session_index)
  with s' show ?thesis by (rule display_card_wf)
next
  case False
  with assms show ?thesis by (simp add: next_card_last)
qed

lemma go_to_next_unanswered_wf:
  assumes "wf_session s" and "go_to_next_unanswered_card s = Inr s'"
  shows "wf_session s'"
proof -
  from assms(1) have i: "current_index s < max 1 (length (filtered_vocabulary s))"
    by (simp add: wf_session_def)
  show ?thesis
  proof (cases "next_unanswered_index (filtered_vocabulary s) (word_stats s) (current_index s)")
    case None
    with assms i show ?thesis by (simp add: go_to_next_unanswered_eq next_card_wf)
  next
    case (Some j)
    with i have "j < length (filtered_vocabulary s)"
      by (blast dest: next_unanswered_index_Some)
    with assms(1) have "wf_session (s\<lparr>current_index := j, is_flipped := False\<rparr>)"
      by (simp add: wf_session_index inv_simps)
    with Some assms i show ?thesis by (simp add: go_to_next_unanswered_eq)
  qed
qed

lemma mark_and_advance_wf:
  "wf_session s \<Longrightarrow> mark_and_advance b s = Inr s' \<Longrightarrow> wf_session s'"
  by (auto simp: mark_and_advance_def split: if_splits sum.splits
      intro: go_to_next_unanswered_wf mark_word_wf)

section \<open>Properties of the navigation handlers\<close>

text \<open>C3: marking the current card records \<open>Correct\<close> or \<open>Incorrect\<close> for its word,
  whatever was recorded before (a \<open>Skipped\<close> included), changes no other word's
  statistic, and neither moves the cursor nor changes the deck.\<close>

theorem mark_word_overwrites:
  assumes "current_index s < length (filtered_vocabulary s)"
  shows "\<exists>s'. mark_word b s = Inr s' \<and>
    stat_outcome (map_of (word_stats s') (word_id (filtered_vocabulary s ! current_index s))) =
      (if b then Correct else Incorrect) \<and>
    (\<forall>k. k \<noteq> word_id (filtered_vocabulary s ! current_index s) \<longrightarrow>
         map_of (word_stats s') k = map_of (word_stats s) k) \<and>
    current_index s' = current_index s \<and> filtered_vocabulary s' = filtered_vocabulary s"
  using assms by (simp add: mark_word_eq)

text \<open>C4: the automatic skip is idempotent and never downgrades: applied twice it
  changes nothing the first application did not, and a word already counted as
  correct, incorrect or skipped keeps its statistic.\<close>

theorem skip_idempotent_no_downgrade:
  assumes "mark_as_skipped_if_unanswered s = Inr s'"
  shows "mark_as_skipped_if_unanswered s' = Inr s' \<and>
    (\<forall>k. \<not> is_to_guess (map_of (word_stats s) k) \<longrightarrow>
         map_of (word_stats s') k = map_of (word_stats s) k)"
  using assms
  by (auto simp: mark_as_skipped_if_unanswered_def update_conv' split: if_splits option.splits)

text \<open>C5: moving forward from a card that is not the last one marks that card
  \<open>Skipped\<close> exactly when it is still to guess, keeps every other statistic and
  advances the cursor by one; on the last card it does nothing.\<close>

theorem next_card_skips:
  "\<exists>s'. next_card s = Inr s' \<and>
    (Suc (current_index s) < length (filtered_vocabulary s) \<longrightarrow>
       (let k = word_id (filtered_vocabulary s ! current_index s) in
        current_index s' = Suc (current_index s) \<and>
        map_of (word_stats s') k =
          (if is_to_guess (map_of (word_stats s) k) then Some skipped_stat
           else map_of (word_stats s) k) \<and>
        (\<forall>k'. k' \<noteq> k \<longrightarrow> map_of (word_stats s') k' = map_of (word_stats s) k'))) \<and>
    (\<not> Suc (current_index s) < length (filtered_vocabulary s) \<longrightarrow> s' = s)"
proof (cases "Suc (current_index s) < length (filtered_vocabulary s)")
  case True
  then show ?thesis by (simp add: next_card_eq Let_def)
next
  case False
  then show ?thesis by (simp add: next_card_last)
qed

text \<open>C9: moving back never marks anything: in a well-formed session it never
  throws, leaves every statistic as it was and moves the cursor back by one, except on
  the first card, where it does nothing.\<close>

theorem previous_card_no_skip:
  assumes "wf_session s"
  shows "\<exists>s'. previous_card s = Inr s' \<and> word_stats s' = word_stats s \<and>
    current_index s' = current_index s - 1 \<and> filtered_vocabulary s' = filtered_vocabulary s"
proof (cases "0 < current_index s")
  case True
  with assms have "current_index s - 1 < length (filtered_vocabulary s)"
    by (auto simp: wf_session_def max_def split: if_splits)
  with True show ?thesis by (simp add: previous_card_def display_card_in_range)
next
  case False
  then show ?thesis by (simp add: previous_card_def)
qed

text \<open>C6: in a well-formed session the two scan loops of the auto-advance compute
  the reference search: the first card still to guess after the cursor, else the first
  one before it; with none, the handler is \<open>nextCard\<close>. It never throws.\<close>

theorem go_to_next_unanswered_refines:
  assumes "wf_session s"
  shows "go_to_next_unanswered_card s =
    (case next_unanswered_index (filtered_vocabulary s) (word_stats s) (current_index s) of
       Some j \<Rightarrow> Inr (s\<lparr>current_index := j, is_flipped := False\<rparr>)
     | None \<Rightarrow> next_card s)"
  using assms by (simp add: wf_session_def go_to_next_unanswered_eq)

text \<open>C7: the auto-advance either lands on a card still to guess other than the
  current one, or no other card of the deck is still to guess.\<close>

theorem auto_advance_target:
  assumes "wf_session s" and "filtered_vocabulary s \<noteq> []"
    and "go_to_next_unanswered_card s = Inr s'"
  shows "(current_index s' \<noteq> current_index s \<and>
          unanswered_at (filtered_vocabulary s) (word_stats s) (current_index s')) \<or>
         (\<forall>k < length (filtered_vocabulary s). k \<noteq> current_index s \<longrightarrow>
            \<not> unanswered_at (filtered_vocabulary s) (word_stats s) k)"
proof -
  let ?f = "filtered_vocabulary s" and ?st = "word_stats s" and ?i = "current_index s"
  from assms(1,2) have i: "?i < length ?f" by (rule wf_index_bound)
  then have i1: "?i < max 1 (length ?f)" by simp
  show ?thesis
  proof (cases "next_unanswered_index ?f ?st ?i")
    case None
    with i show ?thesis by (simp add: next_unanswered_index_None_iff)
  next
    case (Some j)
    with assms(3) i1 have "current_index s' = j"
      by (auto simp: go_to_next_unanswered_eq)
    moreover from next_unanswered_index_Some [OF i1 Some]
    have "j \<noteq> ?i \<and> unanswered_at ?f ?st j" by simp
    ultimately show ?thesis by simp
  qed
qed

end
