(* ===== verification/Shuffle.thy ===== *)
theory Shuffle
  imports Deck
begin

text \<open>
  \<open>shuffleCards\<close>: reset to all categories, clear the statistics, rebuild the deck and
  permute it in place with the Fisher--Yates loop. The random source is explicit: the
  values \<open>Math.random()\<close> returns, in call order, are a stream of rationals, and the
  handler returns the part of the stream it did not consume.
\<close>

section \<open>Definitions\<close>

text \<open>\<open>Math.floor(Math.random() * (i + 1))\<close> (line 411) for a draw \<open>r\<close>. The
  floating-point product is taken exactly.\<close>

definition random_index :: "rat \<Rightarrow> nat \<Rightarrow> nat" where
  "random_index r i = nat \<lfloor>r * of_nat (Suc i)\<rfloor>"

text \<open>The loop \<open>for (let i = n - 1; i > 0; i--)\<close> (lines 410--413), with \<open>i\<close>
  as the recursion argument: each iteration draws once and swaps \<open>a[i]\<close> with
  \<open>a[j]\<close>.\<close>

fun fisher_yates :: "nat \<Rightarrow> rat stream \<Rightarrow> 'a list \<Rightarrow> 'a list \<times> rat stream" where
  "fisher_yates 0 rs xs = (xs, rs)"
| "fisher_yates (Suc i) rs xs =
     fisher_yates i (stl rs) (swap_at (Suc i) (random_index (shd rs) (Suc i)) xs)"

text \<open>\<open>shuffleCards\<close> (lines 391--421). For an empty deck \<open>n - 1\<close> is \<open>-1\<close> in
  JavaScript and the loop does not run; the truncated \<open>0 - 1 = 0\<close> runs it zero
  times too.\<close>

definition shuffle_cards :: "rat stream \<Rightarrow> session \<Rightarrow> (session \<times> rat stream) js_result" where
  "shuffle_cards rs s =
     (let s1 = s\<lparr>word_stats := []\<rparr>;
          s2 = s1\<lparr>selected_categories := set (available_categories s1)\<rparr>;
          s3 = update_filtered_vocabulary s2;
          (f, rs') = fisher_yates (length (filtered_vocabulary s3) - 1) rs
                       (filtered_vocabulary s3);
          s4 = s3\<lparr>filtered_vocabulary := f, current_index := 0, is_flipped := False\<rparr>
      in case display_card s4 of Inl e \<Rightarrow> Inl e | Inr s5 \<Rightarrow> Inr (s5, rs'))"

declare shuffle_cards_def [handler_defs]

text \<open>A stream of values \<open>Math.random()\<close> can return.\<close>

definition random_draws :: "rat stream \<Rightarrow> bool" where
  "random_draws rs \<longleftrightarrow> sset rs \<subseteq> {0..<1}"

section \<open>Lemmas\<close>

lemma random_index_le:
  assumes "0 \<le> r" and "r < 1"
  shows "random_index r i \<le> i"
proof -
  have "r * of_nat (Suc i) < of_nat (Suc i)"
    using assms by (simp add: mult_less_cancel_right1)
  then have "\<lfloor>r * of_nat (Suc i)\<rfloor> < int (Suc i)"
    by (simp add: floor_less_iff)
  then show ?thesis by (simp add: random_index_def nat_less_iff)
qed

lemma random_draws_stl: "random_draws rs \<Longrightarrow> random_draws (stl rs)"
  by (auto simp: random_draws_def dest: stl_sset)

lemma random_draws_shd: "random_draws rs \<Longrightarrow> 0 \<le> shd rs \<and> shd rs < 1"
  using shd_sset [of rs] by (auto simp: random_draws_def)

lemma fisher_yates_length [simp]: "length (fst (fisher_yates i rs xs)) = length xs"
  by (induction i rs xs rule: fisher_yates.induct) simp_all

text \<open>The loop consumes exactly one draw per iteration.\<close>

lemma fisher_yates_draws: "snd (fisher_yates i rs xs) = sdrop i rs"
  by (induction i rs xs rule: fisher_yates.induct) simp_all

lemma fisher_yates_mset:
  "random_draws rs \<Longrightarrow> i < length xs \<Longrightarrow> mset (fst (fisher_yates i rs xs)) = mset xs"
proof (induction i rs xs rule: fisher_yates.induct)
  case (1 rs xs)
  then show ?case by simp
next
  case (2 i rs xs)
  let ?j = "random_index (shd rs) (Suc i)"
  from random_draws_shd [OF "2.prems"(1)] have "?j \<le> Suc i"
    by (simp add: random_index_le)
  with "2.prems"(2) have "mset (swap_at (Suc i) ?j xs) = mset xs"
    by simp
  moreover from "2.IH" [OF random_draws_stl [OF "2.prems"(1)]] "2.prems"(2)
  have "mset (fst (fisher_yates i (stl rs) (swap_at (Suc i) ?j xs))) = mset (swap_at (Suc i) ?j xs)"
    by simp
  ultimately show ?case by simp
qed

lemma fisher_yates_deck_mset:
  "random_draws rs \<Longrightarrow> mset (fst (fisher_yates (length xs - 1) rs xs)) = mset xs"
  by (cases xs) (simp_all add: fisher_yates_mset)

lemma shuffle_cards_eq:
  "shuffle_cards rs s =
   (let t = update_filtered_vocabulary
              (s\<lparr>word_stats := [], selected_categories := set (available_categories s)\<rparr>);
        r = fisher_yates (length (filtered_vocabulary t) - 1) rs (filtered_vocabulary t)
    in Inr (t\<lparr>filtered_vocabulary := fst r, current_index := 0, is_flipped := False\<rparr>, snd r))"
proof -
  have "display_card (t\<lparr>filtered_vocabulary := f, current_index := 0, is_flipped := False\<rparr>) =
        Inr (t\<lparr>filtered_vocabulary := f, current_index := 0, is_flipped := False\<rparr>)" for t f
    by (cases f) (simp_all add: display_card_def)
  then show ?thesis
    by (simp add: shuffle_cards_def Let_def split: prod.splits)
qed

lemma shuffle_cards_wf:
  assumes "wf_session s" and "random_draws rs" and "shuffle_cards rs s = Inr (s', rs')"
  shows "wf_session s'"
proof -
  let ?t = "update_filtered_vocabulary
              (s\<lparr>word_stats := [], selected_categories := set (available_categories s)\<rparr>)"
  let ?f = "fst (fisher_yates (length (deck_of ?t) - 1) rs (deck_of ?t))"
  from assms(3) have s': "s' = ?t\<lparr>filtered_vocabulary := ?f, current_index := 0, is_flipped := False\<rparr>"
    by (simp add: shuffle_cards_eq Let_def)
  have "mset ?f = mset (deck_of ?t)"
    using assms(2) by (rule fisher_yates_deck_mset)
  with assms(1) show ?thesis
    by (simp add: s' wf_session_def)
qed

text \<open>C8: the shuffle selects every category, clears every statistic and puts the
  cursor on the first card; the new deck is a permutation of the whole vocabulary, and
  exactly one draw of the random source is consumed per loop iteration.\<close>

theorem shuffle_cards_result:
  assumes "available_categories s = categories_of (vocabulary s)" and "random_draws rs"
  shows "\<exists>s' rs'. shuffle_cards rs s = Inr (s', rs') \<and>
    mset (filtered_vocabulary s') = mset (vocabulary s) \<and>
    selected_categories s' = category ` set (vocabulary s) \<and>
    word_stats s' = [] \<and> current_index s' = 0 \<and>
    rs' = sdrop (length (vocabulary s) - 1) rs"
proof -
  have deck: "deck_of (s\<lparr>word_stats := [], selected_categories := category ` set (vocabulary s)\<rparr>)
              = vocabulary s"
    by (simp add: deck_of_def filter_True_on_set)
  show ?thesis
    using assms(1) fisher_yates_deck_mset [OF assms(2), of "vocabulary s"]
    by (simp add: shuffle_cards_eq Let_def deck fisher_yates_draws)
qed

end
