(* ===== verification/Stats.thy ===== *)
theory Stats
  imports Deck
begin

text \<open>
  Statistics aggregation: the per-category counters computed by \<open>updateStats\<close> (the
  table shown beside the cards) and by \<open>downloadStatsCSV\<close> (the exported file),
  and the grand total of the export. Only the values are modelled; the HTML and the CSV
  text are presentation.
\<close>

section \<open>Definitions\<close>

text \<open>The object \<open>{total, correct, incorrect, skipped, unanswered}\<close> built per
  category (the fields are prefixed: \<open>correct\<close> and \<open>skipped\<close> name the fields of
  a word statistic).\<close>

record category_stat =
  total :: nat
  n_correct :: nat
  n_incorrect :: nat
  n_skipped :: nat
  n_unanswered :: nat

definition zero_stat :: category_stat where
  "zero_stat = \<lparr>total = 0, n_correct = 0, n_incorrect = 0, n_skipped = 0, n_unanswered = 0\<rparr>"

text \<open>One iteration of \<open>filteredWordsInCategory.forEach\<close> (lines 814--829): the
  if-chain on the word's statistic is \<open>stat_outcome\<close>.\<close>

definition tally :: "(string \<times> word_stat) list \<Rightarrow> category_stat \<Rightarrow> word \<Rightarrow> category_stat" where
  "tally st acc w =
     (case stat_outcome (map_of st (word_id w)) of
        Correct \<Rightarrow> acc\<lparr>n_correct := Suc (n_correct acc)\<rparr>
      | Incorrect \<Rightarrow> acc\<lparr>n_incorrect := Suc (n_incorrect acc)\<rparr>
      | Skipped \<Rightarrow> acc\<lparr>n_skipped := Suc (n_skipped acc)\<rparr>
      | Unanswered \<Rightarrow> acc\<lparr>n_unanswered := Suc (n_unanswered acc)\<rparr>)"

text \<open>The counters of one selected category (lines 803--837): the words of the
  category, filtered again by the selection, counted by outcome.\<close>

definition category_stats :: "session \<Rightarrow> string \<Rightarrow> category_stat" where
  "category_stats s c =
     (let ws = filter (\<lambda>w. category w = c) (vocabulary s);
          fs = filter (\<lambda>w. category w \<in> selected_categories s) ws;
          cnt = foldl (tally (word_stats s)) zero_stat fs
      in cnt\<lparr>total := length fs\<rparr>)"

text \<open>The rows of the table of \<open>updateStats\<close> (lines 800--866): an entry for every
  available category that is selected, in the order of \<open>availableCategories\<close>; a row
  is drawn only for a category with words.\<close>

definition update_stats_rows :: "session \<Rightarrow> (string \<times> category_stat) list" where
  "update_stats_rows s =
     filter (\<lambda>(c, x). 0 < total x)
       (map (\<lambda>c. (c, category_stats s c))
          (filter (\<lambda>c. c \<in> selected_categories s) (available_categories s)))"

text \<open>The rows of the export (lines 998--1043): the entry is created only when the
  category has words.\<close>

definition csv_category_stats :: "session \<Rightarrow> (string \<times> category_stat) list" where
  "csv_category_stats s =
     concat (map (\<lambda>c. if c \<in> selected_categories s
                       then (let x = category_stats s c in if 0 < total x then [(c, x)] else [])
                       else [])
                 (available_categories s))"

text \<open>The reduction to the grand total (lines 1054--1060).\<close>

definition add_stat :: "category_stat \<Rightarrow> category_stat \<Rightarrow> category_stat" where
  "add_stat acc x =
     \<lparr>total = total acc + total x, n_correct = n_correct acc + n_correct x,
      n_incorrect = n_incorrect acc + n_incorrect x, n_skipped = n_skipped acc + n_skipped x,
      n_unanswered = n_unanswered acc + n_unanswered x\<rparr>"

definition stats_totals :: "(string \<times> category_stat) list \<Rightarrow> category_stat" where
  "stats_totals rows = foldl add_stat zero_stat (map snd rows)"

text \<open>The number of words of a list whose statistic has a given outcome.\<close>

definition count_outcome :: "(string \<times> word_stat) list \<Rightarrow> outcome \<Rightarrow> word list \<Rightarrow> nat" where
  "count_outcome st oc ws = length (filter (\<lambda>w. stat_outcome (map_of st (word_id w)) = oc) ws)"

text \<open>The consistency of a counter object: the total is the sum of the four counters.\<close>

definition stat_consistent :: "category_stat \<Rightarrow> bool" where
  "stat_consistent x \<longleftrightarrow> total x = n_correct x + n_incorrect x + n_skipped x + n_unanswered x"

section \<open>Counting\<close>

lemma foldl_tally:
  "foldl (tally st) acc ws =
   acc\<lparr>n_correct := n_correct acc + count_outcome st Correct ws,
       n_incorrect := n_incorrect acc + count_outcome st Incorrect ws,
       n_skipped := n_skipped acc + count_outcome st Skipped ws,
       n_unanswered := n_unanswered acc + count_outcome st Unanswered ws\<rparr>"
proof (induction ws arbitrary: acc)
  case Nil
  then show ?case by (simp add: count_outcome_def)
next
  case (Cons w ws)
  show ?case
    by (cases "stat_outcome (map_of st (word_id w))")
      (simp_all add: Cons.IH tally_def [of st acc w] count_outcome_def)
qed

lemma count_outcome_sum:
  "count_outcome st Correct ws + count_outcome st Incorrect ws + count_outcome st Skipped ws
   + count_outcome st Unanswered ws = length ws"
proof (induction ws)
  case Nil
  then show ?case by (simp add: count_outcome_def)
next
  case (Cons w ws)
  then show ?case
    by (cases "stat_outcome (map_of st (word_id w))") (simp_all add: count_outcome_def)
qed

lemma category_stats_eq:
  "category_stats s c =
   (let fs = filter (\<lambda>w. category w = c) (deck_of s) in
    \<lparr>total = length fs, n_correct = count_outcome (word_stats s) Correct fs,
     n_incorrect = count_outcome (word_stats s) Incorrect fs,
     n_skipped = count_outcome (word_stats s) Skipped fs,
     n_unanswered = count_outcome (word_stats s) Unanswered fs\<rparr>)"
proof -
  have "filter (\<lambda>w. category w \<in> selected_categories s) (filter (\<lambda>w. category w = c) (vocabulary s))
        = filter (\<lambda>w. category w = c) (deck_of s)"
    by (simp add: deck_of_def filter_filter conj_commute)
  then show ?thesis
    by (simp add: category_stats_def foldl_tally zero_stat_def)
qed

lemma foldl_add_stat:
  "foldl add_stat acc xs =
   \<lparr>total = total acc + (\<Sum>x\<leftarrow>xs. total x), n_correct = n_correct acc + (\<Sum>x\<leftarrow>xs. n_correct x),
    n_incorrect = n_incorrect acc + (\<Sum>x\<leftarrow>xs. n_incorrect x),
    n_skipped = n_skipped acc + (\<Sum>x\<leftarrow>xs. n_skipped x),
    n_unanswered = n_unanswered acc + (\<Sum>x\<leftarrow>xs. n_unanswered x)\<rparr>"
  by (induction xs arbitrary: acc) (simp_all add: add_stat_def)

lemma csv_rows_eq_filter:
  "concat (map (\<lambda>c. if P c then (let x = g c in if 0 < total x then [(c, x)] else []) else []) cs)
   = filter (\<lambda>(c, x). 0 < total x) (map (\<lambda>c. (c, g c)) (filter P cs))"
  by (induction cs) (auto simp: Let_def)

lemma count_outcome_filter:
  "count_outcome st oc (filter P ws) = length (filter P (filter (\<lambda>w. stat_outcome (map_of st (word_id w)) = oc) ws))"
  by (simp add: count_outcome_def filter_filter conj_commute)

lemma rows_sum_field:
  assumes "\<And>c. total (category_stats s c) = 0 \<Longrightarrow> g (category_stats s c) = 0"
  shows "(\<Sum>r\<leftarrow>update_stats_rows s. g (snd r)) =
         (\<Sum>c\<leftarrow>filter (\<lambda>c. c \<in> selected_categories s) (available_categories s).
            g (category_stats s c))"
proof -
  have "(\<Sum>r\<leftarrow>filter (\<lambda>(c, x). 0 < total x) (map (\<lambda>c. (c, category_stats s c)) cs). g (snd r))
        = (\<Sum>c\<leftarrow>cs. g (category_stats s c))" for cs
    by (induction cs) (auto simp: assms)
  then show ?thesis by (simp add: update_stats_rows_def)
qed

lemma zero_total_counters:
  "total (category_stats s c) = 0 \<Longrightarrow>
   n_correct (category_stats s c) = 0 \<and> n_incorrect (category_stats s c) = 0 \<and>
   n_skipped (category_stats s c) = 0 \<and> n_unanswered (category_stats s c) = 0"
  by (simp add: category_stats_eq Let_def count_outcome_def)

lemma sum_categories:
  assumes "distinct cs" and "\<And>w. w \<in> set ws \<Longrightarrow> category w \<in> set cs"
  shows "(\<Sum>c\<leftarrow>cs. length (filter (\<lambda>w. category w = c) (filter P ws))) = length (filter P ws)"
proof -
  have "(\<Sum>c\<leftarrow>cs. length (filter (\<lambda>w. category w = c) (filter P ws))) =
        length (filter (\<lambda>w. category w \<in> set cs) (filter P ws))"
    using assms(1) by (rule sum_length_filter_eq)
  also have "\<dots> = length (filter P ws)"
    using assms(2) by (simp add: filter_filter cong: filter_cong)
  finally show ?thesis .
qed

lemma sum_categories_count:
  assumes "distinct cs" and "\<And>w. w \<in> set ws \<Longrightarrow> category w \<in> set cs"
  shows "(\<Sum>c\<leftarrow>cs. count_outcome st oc (filter (\<lambda>w. category w = c) ws)) = count_outcome st oc ws"
proof -
  have "count_outcome st oc (filter (\<lambda>w. category w = c) ws) =
        length (filter (\<lambda>w. category w = c)
                  (filter (\<lambda>w. stat_outcome (map_of st (word_id w)) = oc) ws))" for c
    by (simp add: count_outcome_def filter_filter conj_commute)
  then show ?thesis
    using sum_categories [OF assms] by (simp add: count_outcome_def)
qed

lemma sum_categories_length:
  assumes "distinct cs" and "\<And>w. w \<in> set ws \<Longrightarrow> category w \<in> set cs"
  shows "(\<Sum>c\<leftarrow>cs. length (filter (\<lambda>w. category w = c) ws)) = length ws"
  using sum_categories [OF assms, where P = "\<lambda>_. True"] by simp

lemma count_outcome_mset:
  "mset xs = mset ys \<Longrightarrow> count_outcome st oc xs = count_outcome st oc ys"
  unfolding count_outcome_def by (metis filter_mset_eq length_mset_eq)

section \<open>Properties of the statistics\<close>

text \<open>C13: for every category, the total of the statistics object equals the sum of
  its correct, incorrect, skipped and unanswered counters, and each counter counts the
  words of the category in the current selection with that outcome.\<close>

theorem category_stats_consistent:
  "stat_consistent (category_stats s c) \<and>
   n_correct (category_stats s c) =
     count_outcome (word_stats s) Correct (filter (\<lambda>w. category w = c) (deck_of s)) \<and>
   n_incorrect (category_stats s c) =
     count_outcome (word_stats s) Incorrect (filter (\<lambda>w. category w = c) (deck_of s)) \<and>
   n_skipped (category_stats s c) =
     count_outcome (word_stats s) Skipped (filter (\<lambda>w. category w = c) (deck_of s)) \<and>
   n_unanswered (category_stats s c) =
     count_outcome (word_stats s) Unanswered (filter (\<lambda>w. category w = c) (deck_of s)) \<and>
   total (category_stats s c) = length (filter (\<lambda>w. category w = c) (deck_of s))"
  by (simp add: category_stats_eq Let_def stat_consistent_def count_outcome_sum)

text \<open>C16: the table beside the cards and the exported file list the same categories,
  in the same order, with the same counters; neither has a row for a category without
  words, so no percentage is ever computed with a zero total.\<close>

theorem table_eq_export:
  "csv_category_stats s = update_stats_rows s \<and>
   list_all (\<lambda>r. 0 < total (snd r)) (csv_category_stats s)"
  by (auto simp: csv_category_stats_def update_stats_rows_def csv_rows_eq_filter list_all_iff)

text \<open>C15: the grand total of the export sums the category rows field by field, and
  it is consistent whenever the rows are.\<close>

theorem stats_totals_sum:
  "total (stats_totals rows) = (\<Sum>r\<leftarrow>rows. total (snd r)) \<and>
   n_correct (stats_totals rows) = (\<Sum>r\<leftarrow>rows. n_correct (snd r)) \<and>
   n_incorrect (stats_totals rows) = (\<Sum>r\<leftarrow>rows. n_incorrect (snd r)) \<and>
   n_skipped (stats_totals rows) = (\<Sum>r\<leftarrow>rows. n_skipped (snd r)) \<and>
   n_unanswered (stats_totals rows) = (\<Sum>r\<leftarrow>rows. n_unanswered (snd r)) \<and>
   (list_all (stat_consistent \<circ> snd) rows \<longrightarrow> stat_consistent (stats_totals rows))"
proof -
  have "list_all (stat_consistent \<circ> snd) rows \<Longrightarrow>
        (\<Sum>r\<leftarrow>rows. total (snd r)) =
        (\<Sum>r\<leftarrow>rows. n_correct (snd r)) + (\<Sum>r\<leftarrow>rows. n_incorrect (snd r)) +
        (\<Sum>r\<leftarrow>rows. n_skipped (snd r)) + (\<Sum>r\<leftarrow>rows. n_unanswered (snd r))"
    by (induction rows) (auto simp: stat_consistent_def)
  then show ?thesis
    by (simp add: stats_totals_def foldl_add_stat zero_stat_def comp_def stat_consistent_def)
qed

theorem stats_totals_sum_witness:
  "total (stats_totals [(''colors'', \<lparr>total = 3, n_correct = 1, n_incorrect = 1, n_skipped = 0, n_unanswered = 1\<rparr>)]) = 3 \<and>
   list_all (stat_consistent \<circ> snd) [(''colors'', \<lparr>total = 3, n_correct = 1, n_incorrect = 1, n_skipped = 0, n_unanswered = 1\<rparr>)] \<and>
   stat_consistent (stats_totals [(''colors'', \<lparr>total = 3, n_correct = 1, n_incorrect = 1, n_skipped = 0, n_unanswered = 1\<rparr>)])"
  using stats_totals_sum [of "[(''colors'', \<lparr>total = 3, n_correct = 1, n_incorrect = 1, n_skipped = 0, n_unanswered = 1\<rparr>)]"]
  by (simp add: stat_consistent_def)

end
