(* ===== verification/Engine.thy ===== *)
theory Engine
  imports Navigation Shuffle Stats
begin

text \<open>
  The commands the page forwards to the object (\<open>setupEventListeners\<close>, the category
  checkboxes and the All/None buttons of \<open>setupCategoryUI\<close>) and one step function
  over them, with the auto-advance of \<open>markWord\<close> taken at once as the specification
  asks. The random source of the shuffle is threaded through the steps. Also the three
  display-state handlers \<open>flipCard\<close>, \<open>toggleLanguage\<close> and
  \<open>toggleFlipDirection\<close>.
\<close>

section \<open>Display-state handlers\<close>

text \<open>\<open>flipCard\<close> (lines 362--369).\<close>

definition flip_card :: "session \<Rightarrow> session js_result" where
  "flip_card s = Inr (s\<lparr>is_flipped := \<not> is_flipped s\<rparr>)"

text \<open>The three texts \<open>displayCard\<close> writes for a word (lines 263--280): the
  translation in the current language, the English one when that is \<open>null\<close> or empty
  (\<open>translation || currentWord.english\<close>), placed by the card direction.\<close>

definition card_face :: "language \<Rightarrow> direction \<Rightarrow> word \<Rightarrow> string \<times> string \<times> string" where
  "card_face lang dir w =
     (let translation = (if lang = Es then spanish w else Some (english w));
          text = (case translation of
                    None \<Rightarrow> english w
                  | Some t \<Rightarrow> if t = [] then english w else t)
      in if dir = Jp_to_target then (romaji w, hiragana w, text)
         else (text, [], romaji w @ [CHR 0x0A] @ hiragana w))"

text \<open>\<open>toggleLanguage\<close> (lines 491--499). \<open>updateLanguage\<close> re-renders the status
  marker, which reads the current word exactly as \<open>displayCard\<close> does (and throws on
  the same condition); the state change is the language and the flip reset of
  \<open>displayCard\<close>.\<close>

definition toggle_language :: "session \<Rightarrow> session js_result" where
  "toggle_language s =
     display_card (s\<lparr>current_language := (if current_language s = En then Es else En)\<rparr>)"

text \<open>\<open>toggleFlipDirection\<close> (lines 501--508).\<close>

definition toggle_flip_direction :: "session \<Rightarrow> session js_result" where
  "toggle_flip_direction s =
     display_card (s\<lparr>card_direction := (if card_direction s = Jp_to_target then Target_to_jp
                                        else Jp_to_target),
                     is_flipped := False\<rparr>)"

declare flip_card_def [handler_defs] toggle_language_def [handler_defs]
  toggle_flip_direction_def [handler_defs]

section \<open>Commands\<close>

text \<open>The user intents the page forwards: the buttons of lines 206--224, a category
  checkbox (\<open>onCategoryChange\<close>), the All and None buttons, and the download button,
  which changes no state.\<close>

datatype command =
    Previous | Next | Flip | Shuffle | Toggle_language
  | Mark bool | Reset | Toggle_direction | Download
  | Category string bool | Select_all | Select_none

text \<open>The keyboard handler (lines 226--248): a key that is not bound does nothing.\<close>

definition key_command :: "string \<Rightarrow> command option" where
  "key_command k =
     (if k = ''ArrowLeft'' then Some Previous
      else if k = ''ArrowRight'' then Some Next
      else if k = '' '' \<or> k = ''Enter'' then Some Flip
      else if k = ''s'' \<or> k = ''S'' then Some Shuffle
      else None)"

type_synonym engine = "session \<times> rat stream"

definition on_session :: "session js_result \<Rightarrow> rat stream \<Rightarrow> engine js_result" where
  "on_session r rs = (case r of Inl e \<Rightarrow> Inl e | Inr s \<Rightarrow> Inr (s, rs))"

text \<open>One command, dispatched to its handler.\<close>

fun handle_command :: "command \<Rightarrow> engine \<Rightarrow> engine js_result" where
  "handle_command Previous (s, rs) = on_session (previous_card s) rs"
| "handle_command Next (s, rs) = on_session (next_card s) rs"
| "handle_command Flip (s, rs) = on_session (flip_card s) rs"
| "handle_command Shuffle (s, rs) = shuffle_cards rs s"
| "handle_command Toggle_language (s, rs) = on_session (toggle_language s) rs"
| "handle_command (Mark b) (s, rs) = on_session (mark_and_advance b s) rs"
| "handle_command Reset (s, rs) = on_session (reset_stats s) rs"
| "handle_command Toggle_direction (s, rs) = on_session (toggle_flip_direction s) rs"
| "handle_command Download (s, rs) = Inr (s, rs)"
| "handle_command (Category c b) (s, rs) = on_session (on_category_change c b s) rs"
| "handle_command Select_all (s, rs) = on_session (select_all_categories s) rs"
| "handle_command Select_none (s, rs) = on_session (select_no_categories s) rs"

text \<open>A sequence of commands, each run to completion before the next; an exception
  ends the sequence.\<close>

fun run_commands :: "command list \<Rightarrow> engine \<Rightarrow> engine js_result" where
  "run_commands [] e = Inr e"
| "run_commands (c # cs) e =
     (case handle_command c e of Inl err \<Rightarrow> Inl err | Inr e' \<Rightarrow> run_commands cs e')"

section \<open>Every handler keeps the invariant and never throws\<close>

lemma next_card_Inr: "\<exists>s'. next_card s = Inr s'"
  by (cases "Suc (current_index s) < length (filtered_vocabulary s)")
    (simp_all add: next_card_eq next_card_last)

lemma go_to_next_unanswered_Inr:
  "current_index s < max 1 (length (filtered_vocabulary s)) \<Longrightarrow>
   \<exists>s'. go_to_next_unanswered_card s = Inr s'"
  by (simp add: go_to_next_unanswered_eq next_card_Inr split: option.splits)

lemma previous_card_ok: "wf_session s \<Longrightarrow> \<exists>s'. previous_card s = Inr s' \<and> wf_session s'"
proof -
  assume wf: "wf_session s"
  have "\<exists>s'. previous_card s = Inr s'"
  proof (cases "0 < current_index s")
    case True
    with wf have "current_index s - 1 < length (filtered_vocabulary s)"
      by (auto simp: wf_session_def max_def split: if_splits)
    with True show ?thesis by (simp add: previous_card_def display_card_in_range)
  qed (simp add: previous_card_def)
  with wf show ?thesis by (blast intro: previous_card_wf)
qed

lemma next_card_ok: "wf_session s \<Longrightarrow> \<exists>s'. next_card s = Inr s' \<and> wf_session s'"
  using next_card_Inr next_card_wf by blast

lemma mark_and_advance_ok:
  assumes wf: "wf_session s"
  shows "\<exists>s'. mark_and_advance b s = Inr s' \<and> wf_session s'"
proof (cases "filtered_vocabulary s = []")
  case True
  with wf show ?thesis by (simp add: mark_and_advance_def)
next
  case False
  with wf have i: "current_index s < length (filtered_vocabulary s)" by (rule wf_index_bound)
  let ?s1 = "s\<lparr>word_stats := AList.update (word_id (filtered_vocabulary s ! current_index s))
                                (answered_stat b) (word_stats s)\<rparr>"
  from i have "current_index ?s1 < max 1 (length (filtered_vocabulary ?s1))" by simp
  then obtain s' where "go_to_next_unanswered_card ?s1 = Inr s'"
    using go_to_next_unanswered_Inr by blast
  then have "mark_and_advance b s = Inr s'"
    using False i by (simp add: mark_and_advance_def mark_word_eq)
  with wf show ?thesis by (blast intro: mark_and_advance_wf)
qed

lemma display_state_ok:
  assumes "wf_session s"
  shows "\<exists>s'. flip_card s = Inr s' \<and> wf_session s'"
    and "\<exists>s'. toggle_language s = Inr s' \<and> wf_session s'"
    and "\<exists>s'. toggle_flip_direction s = Inr s' \<and> wf_session s'"
proof -
  have bound: "current_index s < max 1 (length (filtered_vocabulary s))"
    using assms by (simp add: wf_session_def)
  show "\<exists>s'. flip_card s = Inr s' \<and> wf_session s'"
    using assms by (simp add: flip_card_def inv_simps)
  show "\<exists>s'. toggle_language s = Inr s' \<and> wf_session s'"
    using assms bound by (simp add: toggle_language_def display_card_in_bounds inv_simps)
  show "\<exists>s'. toggle_flip_direction s = Inr s' \<and> wf_session s'"
    using assms bound by (simp add: toggle_flip_direction_def display_card_in_bounds inv_simps)
qed

lemma random_draws_sdrop: "random_draws rs \<Longrightarrow> random_draws (sdrop n rs)"
  by (induction n arbitrary: rs) (simp_all add: random_draws_stl)

lemma shuffle_cards_ok:
  assumes "wf_session s" and "random_draws rs"
  shows "\<exists>s' rs'. shuffle_cards rs s = Inr (s', rs') \<and> wf_session s' \<and> random_draws rs'"
proof -
  obtain s' rs' where eq: "shuffle_cards rs s = Inr (s', rs')"
    by (simp add: shuffle_cards_eq Let_def)
  moreover from assms eq have "wf_session s'" by (rule shuffle_cards_wf)
  moreover from eq have "rs' = sdrop (length (deck_of (update_filtered_vocabulary
      (s\<lparr>word_stats := [], selected_categories := set (available_categories s)\<rparr>))) - 1) rs"
    by (simp add: shuffle_cards_eq Let_def fisher_yates_draws)
  then have "random_draws rs'" using assms(2) by (simp add: random_draws_sdrop)
  ultimately show ?thesis by blast
qed

lemma on_session_okI:
  "\<exists>s'. r = Inr s' \<and> wf_session s' \<Longrightarrow> random_draws rs \<Longrightarrow>
   \<exists>s' rs'. on_session r rs = Inr (s', rs') \<and> wf_session s' \<and> random_draws rs'"
  by (auto simp: on_session_def)

lemma category_handlers_ok:
  assumes "wf_session s"
  shows "\<exists>s'. on_category_change c b s = Inr s' \<and> wf_session s'"
    and "\<exists>s'. select_all_categories s = Inr s' \<and> wf_session s'"
    and "\<exists>s'. select_no_categories s = Inr s' \<and> wf_session s'"
    and "\<exists>s'. reset_stats s = Inr s' \<and> wf_session s'"
  using assms
  by (auto intro: on_category_change_wf select_all_categories_wf select_no_categories_wf
      reset_stats_wf simp: on_category_change_eq select_all_categories_eq
      select_no_categories_eq reset_stats_eq)

lemma handle_command_ok:
  assumes wf: "wf_session s" and rs: "random_draws rs"
  shows "\<exists>s' rs'. handle_command c (s, rs) = Inr (s', rs') \<and> wf_session s' \<and> random_draws rs'"
proof (cases c)
  case Previous
  then show ?thesis by (simp add: on_session_okI [OF previous_card_ok [OF wf] rs])
next
  case Next
  then show ?thesis by (simp add: on_session_okI [OF next_card_ok [OF wf] rs])
next
  case Flip
  then show ?thesis by (simp add: on_session_okI [OF display_state_ok(1) [OF wf] rs])
next
  case Shuffle
  then show ?thesis by (simp add: shuffle_cards_ok [OF wf rs])
next
  case Toggle_language
  then show ?thesis by (simp add: on_session_okI [OF display_state_ok(2) [OF wf] rs])
next
  case (Mark b)
  then show ?thesis by (simp add: on_session_okI [OF mark_and_advance_ok [OF wf] rs])
next
  case Reset
  then show ?thesis by (simp add: on_session_okI [OF category_handlers_ok(4) [OF wf] rs])
next
  case Toggle_direction
  then show ?thesis by (simp add: on_session_okI [OF display_state_ok(3) [OF wf] rs])
next
  case Download
  with wf rs show ?thesis by simp
next
  case (Category c b)
  then show ?thesis by (simp add: on_session_okI [OF category_handlers_ok(1) [OF wf] rs])
next
  case Select_all
  then show ?thesis by (simp add: on_session_okI [OF category_handlers_ok(2) [OF wf] rs])
next
  case Select_none
  then show ?thesis by (simp add: on_session_okI [OF category_handlers_ok(3) [OF wf] rs])
qed

end
