(* ===== verification/Events.thy ===== *)
theory Events
  imports Engine
begin

text \<open>
  The page as an event-driven machine: the asynchronous load of \<open>init\<close>, the user's
  inputs (which reach the object only once \<open>setupEventListeners\<close> has run, that is
  after a successful load), and the timers that \<open>markWord\<close> schedules with
  \<open>setTimeout(() => this.goToNextUnansweredCard(), 500)\<close>. The timers are all the same
  callback on the same object, so the machine keeps their number. The category
  checkboxes are page state too: \<open>onCategoryChange\<close> is called with the box's own
  \<open>checked\<close> flag, so the machine keeps the set of ticked boxes. Reachable states are
  an inductive set; the invariant is proved by rule induction.
\<close>

section \<open>States and events\<close>

datatype phase = Loading | Ready | Load_failed

record app =
  phase :: phase
  sess :: session
  pending :: nat
  draws :: "rat stream"
  checked :: "string set"

text \<open>The object right after \<open>new VocabularyCards()\<close>: \<open>init\<close> is awaiting
  \<open>fetch\<close>.\<close>

definition init_app :: "rat stream \<Rightarrow> app" where
  "init_app rs = \<lparr>phase = Loading, sess = new_session, pending = 0, draws = rs, checked = {}\<rparr>"

text \<open>The outcome of the fetch in \<open>loadVocabulary\<close> (the parsed list, or an HTTP,
  network or parse error), a user input, and the firing of one pending timer.\<close>

datatype event = Fetch_ok "word list" | Fetch_failed | Input command | Timer

text \<open>The ticked checkboxes that \<open>setupCategoryUI\<close> creates (line 577) and
  \<open>updateCategoryCheckboxes\<close> restores (lines 674--681): one box per available
  category, ticked when the category is selected.\<close>

definition sync_checkboxes :: "session \<Rightarrow> string set" where
  "sync_checkboxes s = set (filter (\<lambda>c. c \<in> selected_categories s) (available_categories s))"

text \<open>What a handled command does to the boxes: the select-all and select-none buttons
  call \<open>updateCategoryCheckboxes\<close>; \<open>shuffleCards\<close> and \<open>resetStats\<close> tick
  the box of every available category (lines 397--402 and 960--965); a change event on a
  box has already set it to the value passed to \<open>onCategoryChange\<close>.\<close>

fun checkbox_effect :: "command \<Rightarrow> session \<Rightarrow> string set \<Rightarrow> string set" where
  "checkbox_effect Select_all s' chk = sync_checkboxes s'"
| "checkbox_effect Select_none s' chk = sync_checkboxes s'"
| "checkbox_effect Shuffle s' chk = chk \<union> set (available_categories s')"
| "checkbox_effect Reset s' chk = chk \<union> set (available_categories s')"
| "checkbox_effect (Category c b) s' chk = (if b then insert c chk else chk - {c})"
| "checkbox_effect _ s' chk = chk"

text \<open>A command handled through \<open>handle_command\<close> by the listeners of
  \<open>setupEventListeners\<close> and of the checkboxes. A handler that throws leaves the state
  as it was (under the invariant none throws).\<close>

definition dispatch :: "command \<Rightarrow> app \<Rightarrow> app" where
  "dispatch c a =
     (case handle_command c (sess a, draws a) of
        Inl e \<Rightarrow> a
      | Inr (s', rs') \<Rightarrow> a\<lparr>sess := s', draws := rs', checked := checkbox_effect c s' (checked a)\<rparr>)"

text \<open>\<open>markWord\<close> with its timer (lines 709--727): no timer when the deck is empty
  (early return) or when the handler throws before \<open>setTimeout\<close>.\<close>

definition mark_event :: "bool \<Rightarrow> app \<Rightarrow> app" where
  "mark_event b a =
     (if filtered_vocabulary (sess a) = [] then a
      else case mark_word b (sess a) of
             Inl e \<Rightarrow> a
           | Inr s' \<Rightarrow> a\<lparr>sess := s', pending := Suc (pending a)\<rparr>)"

text \<open>A timer fires: its callback \<open>goToNextUnansweredCard\<close> runs on the current
  state (lines 724--726).\<close>

definition timer_event :: "app \<Rightarrow> app" where
  "timer_event a =
     (if pending a = 0 then a
      else case go_to_next_unanswered_card (sess a) of
             Inl e \<Rightarrow> a\<lparr>pending := pending a - 1\<rparr>
           | Inr s' \<Rightarrow> a\<lparr>sess := s', pending := pending a - 1\<rparr>)"

text \<open>\<open>init\<close> (lines 161--175): on success the vocabulary is loaded (its
  \<open>setupCategoryUI\<close> creates the boxes) and the listeners attached; on failure
  \<open>showError\<close> and no listener is ever attached. A change event exists only for the
  box of an available category, and only when the click flips it.\<close>

fun app_step :: "event \<Rightarrow> app \<Rightarrow> app" where
  "app_step (Fetch_ok ws) a =
     (if phase a = Loading
      then (let s' = load_vocabulary ws (sess a)
            in a\<lparr>phase := Ready, sess := s', checked := sync_checkboxes s'\<rparr>)
      else a)"
| "app_step Fetch_failed a = (if phase a = Loading then a\<lparr>phase := Load_failed\<rparr> else a)"
| "app_step (Input c) a =
     (if phase a \<noteq> Ready then a
      else case c of
             Mark b \<Rightarrow> mark_event b a
           | Category k b \<Rightarrow>
               if k \<in> set (available_categories (sess a)) \<and> b \<noteq> (k \<in> checked a)
               then dispatch c a else a
           | _ \<Rightarrow> dispatch c a)"
| "app_step Timer a = timer_event a"

fun app_run :: "event list \<Rightarrow> app \<Rightarrow> app" where
  "app_run [] a = a"
| "app_run (e # es) a = app_run es (app_step e a)"

inductive reachable_app :: "app \<Rightarrow> bool" where
  start: "random_draws rs \<Longrightarrow> reachable_app (init_app rs)"
| step: "reachable_app a \<Longrightarrow> reachable_app (app_step e a)"

text \<open>The invariant of the machine: a ready page holds a well-formed session and its
  ticked boxes are exactly the selected categories; before the load (or after it failed)
  the object is as constructed, no timer is pending and there is no box; the random
  source only returns values of \<open>[0, 1)\<close>.\<close>

definition app_inv :: "app \<Rightarrow> bool" where
  "app_inv a \<longleftrightarrow>
     random_draws (draws a) \<and>
     (case phase a of
        Ready \<Rightarrow> wf_session (sess a) \<and> checked a = sync_checkboxes (sess a)
      | _ \<Rightarrow> sess a = new_session \<and> pending a = 0 \<and> checked a = {})"

section \<open>The checkboxes follow the selection\<close>

lemma sync_frame [simp]:
  "sync_checkboxes (s\<lparr>current_index := i\<rparr>) = sync_checkboxes s"
  "sync_checkboxes (s\<lparr>is_flipped := f\<rparr>) = sync_checkboxes s"
  "sync_checkboxes (s\<lparr>word_stats := st\<rparr>) = sync_checkboxes s"
  "sync_checkboxes (s\<lparr>current_language := l\<rparr>) = sync_checkboxes s"
  "sync_checkboxes (s\<lparr>card_direction := d\<rparr>) = sync_checkboxes s"
  "sync_checkboxes (s\<lparr>filtered_vocabulary := fv\<rparr>) = sync_checkboxes s"
  "sync_checkboxes (update_filtered_vocabulary s) = sync_checkboxes s"
  by (simp_all add: sync_checkboxes_def)

lemma display_card_sync: "display_card s = Inr s' \<Longrightarrow> sync_checkboxes s' = sync_checkboxes s"
  unfolding display_card_def by (auto split: if_splits option.splits)

lemma mark_as_skipped_sync:
  "mark_as_skipped_if_unanswered s = Inr s' \<Longrightarrow> sync_checkboxes s' = sync_checkboxes s"
  unfolding mark_as_skipped_if_unanswered_def by (auto split: if_splits option.splits)

lemma mark_word_sync: "mark_word b s = Inr s' \<Longrightarrow> sync_checkboxes s' = sync_checkboxes s"
  unfolding mark_word_def by (auto split: if_splits option.splits)

lemma previous_card_sync: "previous_card s = Inr s' \<Longrightarrow> sync_checkboxes s' = sync_checkboxes s"
  unfolding previous_card_def by (auto split: if_splits dest: display_card_sync)

lemma next_card_sync: "next_card s = Inr s' \<Longrightarrow> sync_checkboxes s' = sync_checkboxes s"
proof -
  assume h: "next_card s = Inr s'"
  show ?thesis
  proof (cases "Suc (current_index s) < length (filtered_vocabulary s)")
    case True
    with h obtain s1 where m: "mark_as_skipped_if_unanswered s = Inr s1"
      and d: "display_card (s1\<lparr>current_index := Suc (current_index s1)\<rparr>) = Inr s'"
      by (auto simp: next_card_def split: sum.splits)
    from display_card_sync [OF d] mark_as_skipped_sync [OF m] show ?thesis by simp
  next
    case False
    with h show ?thesis by (simp add: next_card_def)
  qed
qed

lemma go_to_next_unanswered_sync:
  "go_to_next_unanswered_card s = Inr s' \<Longrightarrow> sync_checkboxes s' = sync_checkboxes s"
proof -
  assume h: "go_to_next_unanswered_card s = Inr s'"
  have "display_card (s\<lparr>current_index := j\<rparr>) = Inr s' \<Longrightarrow> ?thesis" for j
    by (drule display_card_sync) simp
  with h next_card_sync show ?thesis
    unfolding go_to_next_unanswered_card_def Let_def
    by (auto split: sum.splits option.splits)
qed

lemma mark_and_advance_sync:
  "mark_and_advance b s = Inr s' \<Longrightarrow> sync_checkboxes s' = sync_checkboxes s"
  unfolding mark_and_advance_def
  by (auto split: if_splits sum.splits dest: go_to_next_unanswered_sync mark_word_sync)

lemma display_handlers_sync:
  "flip_card s = Inr s' \<Longrightarrow> sync_checkboxes s' = sync_checkboxes s"
  "toggle_language s = Inr s' \<Longrightarrow> sync_checkboxes s' = sync_checkboxes s"
  "toggle_flip_direction s = Inr s' \<Longrightarrow> sync_checkboxes s' = sync_checkboxes s"
  by (auto simp: flip_card_def toggle_language_def toggle_flip_direction_def dest: display_card_sync)

lemma sync_insert:
  "k \<in> set (available_categories s) \<Longrightarrow>
   sync_checkboxes (s\<lparr>selected_categories := insert k (selected_categories s)\<rparr>) =
   insert k (sync_checkboxes s)"
  by (auto simp: sync_checkboxes_def)

lemma sync_remove:
  "sync_checkboxes (s\<lparr>selected_categories := selected_categories s - {k}\<rparr>) =
   sync_checkboxes s - {k}"
  by (auto simp: sync_checkboxes_def)

lemma sync_subset: "sync_checkboxes s \<subseteq> set (available_categories s)"
  by (auto simp: sync_checkboxes_def)

lemma sync_selected_update:
  "sync_checkboxes (s\<lparr>selected_categories := X\<rparr>) = set (filter (\<lambda>c. c \<in> X) (available_categories s))"
  by (simp add: sync_checkboxes_def)

lemma filter_in_own_set: "filter (\<lambda>c. c \<in> set xs) xs = xs"
  by (rule filter_True) simp

lemma on_session_Inr: "on_session r rs = Inr (s', rs') \<longleftrightarrow> r = Inr s' \<and> rs' = rs"
  by (auto simp: on_session_def split: sum.splits)

text \<open>Every command the listeners handle leaves the boxes equal to the selection when
  they were equal before (for a checkbox change, on the box of an available category).\<close>

lemma handle_command_sync:
  assumes h: "handle_command c (s, rs) = Inr (s', rs')" and chk: "chk = sync_checkboxes s"
    and av: "\<And>k b. c = Category k b \<Longrightarrow> k \<in> set (available_categories s)"
  shows "checkbox_effect c s' chk = sync_checkboxes s'"
proof (cases c)
  case (Category k b)
  from h Category have s': "s' = (update_filtered_vocabulary
          (s\<lparr>selected_categories := (if b then insert k (selected_categories s)
                                     else selected_categories s - {k}),
             word_stats := []\<rparr>))\<lparr>current_index := 0, is_flipped := False\<rparr>"
    by (simp add: on_session_Inr on_category_change_eq)
  from av [OF Category] show ?thesis
    using Category chk by (cases b) (simp_all add: s' sync_insert sync_remove)
next
  case Shuffle
  from h Shuffle have "sync_checkboxes s' = set (available_categories s)"
    and "available_categories s' = available_categories s"
    by (auto simp: shuffle_cards_eq Let_def sync_selected_update filter_in_own_set)
  with Shuffle chk sync_subset [of s] show ?thesis by auto
next
  case Reset
  from h Reset have "sync_checkboxes s' = set (available_categories s)"
    and "available_categories s' = available_categories s"
    by (auto simp: on_session_Inr reset_stats_eq sync_selected_update filter_in_own_set)
  with Reset chk sync_subset [of s] show ?thesis by auto
next
  case Select_all
  then show ?thesis by simp
next
  case Select_none
  then show ?thesis by simp
next
  case Previous
  with h chk show ?thesis by (auto simp: on_session_Inr dest: previous_card_sync)
next
  case Next
  with h chk show ?thesis by (auto simp: on_session_Inr dest: next_card_sync)
next
  case Flip
  with h chk show ?thesis by (auto simp: on_session_Inr dest: display_handlers_sync(1))
next
  case Toggle_language
  with h chk show ?thesis by (auto simp: on_session_Inr dest: display_handlers_sync(2))
next
  case Toggle_direction
  with h chk show ?thesis by (auto simp: on_session_Inr dest: display_handlers_sync(3))
next
  case (Mark b)
  with h chk show ?thesis by (auto simp: on_session_Inr dest: mark_and_advance_sync)
next
  case Download
  with h chk show ?thesis by simp
qed

section \<open>The invariant\<close>

lemma mark_event_inv:
  "app_inv a \<Longrightarrow> phase a = Ready \<Longrightarrow> app_inv (mark_event b a)"
  by (auto simp: app_inv_def mark_event_def intro: mark_word_wf dest: mark_word_sync
      split: sum.splits)

lemma timer_event_inv: "app_inv a \<Longrightarrow> app_inv (timer_event a)"
  by (cases "phase a")
    (auto simp: app_inv_def timer_event_def intro: go_to_next_unanswered_wf
      dest: go_to_next_unanswered_sync split: sum.splits)

lemma dispatch_inv:
  assumes "app_inv a" and "phase a = Ready"
    and "\<And>k b. c = Category k b \<Longrightarrow> k \<in> set (available_categories (sess a))"
  shows "app_inv (dispatch c a)"
proof -
  from assms(1,2) have wf: "wf_session (sess a)" and rs: "random_draws (draws a)"
    and chk: "checked a = sync_checkboxes (sess a)"
    by (simp_all add: app_inv_def)
  from handle_command_ok [OF wf rs, of c] obtain s' rs' where
    h: "handle_command c (sess a, draws a) = Inr (s', rs')" and "wf_session s'" "random_draws rs'"
    by blast
  moreover have "checkbox_effect c s' (checked a) = sync_checkboxes s'"
    using h chk assms(3) by (rule handle_command_sync)
  ultimately show ?thesis using assms(2) by (simp add: dispatch_def app_inv_def)
qed

lemma input_inv: "app_inv a \<Longrightarrow> app_inv (app_step (Input c) a)"
proof (cases "phase a = Ready")
  case True
  assume inv: "app_inv a"
  show ?thesis
  proof (cases c)
    case (Mark b)
    with inv True show ?thesis by (simp add: mark_event_inv)
  next
    case (Category k b)
    with inv True show ?thesis by (auto intro: dispatch_inv)
  qed (use inv True in \<open>auto intro: dispatch_inv\<close>)
next
  case False
  then show "app_inv a \<Longrightarrow> ?thesis" by simp
qed

lemma app_step_inv: "app_inv a \<Longrightarrow> app_inv (app_step e a)"
proof (cases e)
  case (Fetch_ok ws)
  then show "app_inv a \<Longrightarrow> ?thesis"
    by (cases "phase a") (auto simp: app_inv_def load_vocabulary_wf Let_def)
next
  case Fetch_failed
  then show "app_inv a \<Longrightarrow> ?thesis"
    by (cases "phase a") (auto simp: app_inv_def)
next
  case (Input c)
  show "app_inv a \<Longrightarrow> ?thesis" unfolding Input by (rule input_inv)
next
  case Timer
  show "app_inv a \<Longrightarrow> ?thesis" unfolding Timer by (simp add: timer_event_inv)
qed

section \<open>Properties of the event machine\<close>

text \<open>C24: in every state the page can reach, a loaded page holds a well-formed
  session and its ticked category boxes are exactly the selected categories (so the
  flag a box passes to \<open>onCategoryChange\<close> is the negation of the selection), and
  before a successful load every input is ignored: the object is as constructed, no
  timer is pending and no box exists.\<close>

theorem reachable_app_inv: "reachable_app a \<Longrightarrow> app_inv a"
proof (induction rule: reachable_app.induct)
  case (start rs)
  then show ?case by (simp add: app_inv_def init_app_def)
next
  case (step a e)
  from step.IH show ?case by (rule app_step_inv)
qed

theorem reachable_app_inv_witness:
  "reachable_app (app_step (Input Next) (init_app (sconst 0))) \<and>
   app_inv (app_step (Input Next) (init_app (sconst 0)))"
proof -
  have r: "reachable_app (app_step (Input Next) (init_app (sconst 0)))"
    by (intro reachable_app.step reachable_app.start) (simp add: random_draws_def)
  show ?thesis using reachable_app_inv [OF r] r by blast
qed

text \<open>C25: when nothing happens between a mark and the firing of its timer, the page
  does what the engine's immediate \<open>mark_and_advance\<close> does: the timed
  implementation refines the specification's logical step.\<close>

theorem mark_then_timer_refines:
  assumes "phase a = Ready" and "pending a = 0" and "wf_session (sess a)"
  shows "\<exists>s'. mark_and_advance b (sess a) = Inr s' \<and>
           app_step Timer (app_step (Input (Mark b)) a) = a\<lparr>sess := s'\<rparr>"
proof (cases "filtered_vocabulary (sess a) = []")
  case True
  with assms show ?thesis
    by (simp add: mark_and_advance_def mark_event_def timer_event_def)
next
  case False
  let ?s = "sess a"
  from assms(3) False have i: "current_index ?s < length (filtered_vocabulary ?s)"
    by (rule wf_index_bound)
  let ?s1 = "?s\<lparr>word_stats := AList.update (word_id (filtered_vocabulary ?s ! current_index ?s))
                                  (answered_stat b) (word_stats ?s)\<rparr>"
  from i have "current_index ?s1 < max 1 (length (filtered_vocabulary ?s1))" by simp
  then obtain s' where go: "go_to_next_unanswered_card ?s1 = Inr s'"
    using go_to_next_unanswered_Inr by blast
  have "mark_and_advance b ?s = Inr s'"
    using False i go by (simp add: mark_and_advance_def mark_word_eq)
  moreover have "app_step Timer (app_step (Input (Mark b)) a) = a\<lparr>sess := s'\<rparr>"
    using assms False i go by (simp add: mark_event_def timer_event_def mark_word_eq)
  ultimately show ?thesis by blast
qed

end
