(* ===== verification/Progress.thy ===== *)
theory Progress
  imports Events
begin

text \<open>
  How the marking loop of the page makes progress through the deck, across the
  navigation handlers, the statistics and the event machine: the number of cards still
  to guess (\<open>unanswered_count\<close>), what one \<open>mark_and_advance\<close> does to it, that
  marking with the auto-advance answers the whole deck, that no navigation command
  loses an answer, what a mark does to the row of the statistics table, and what two
  marks within the 500 ms of the timer do.
\<close>

section \<open>Definitions\<close>

text \<open>The cards of a deck still to guess, by position.\<close>

definition unanswered_count :: "word list \<Rightarrow> (string \<times> word_stat) list \<Rightarrow> nat" where
  "unanswered_count f st = length (filter (unanswered_at f st) [0..<length f])"

text \<open>No card of the deck is still to guess.\<close>

definition deck_done :: "session \<Rightarrow> bool" where
  "deck_done s \<longleftrightarrow>
     (\<forall>k < length (filtered_vocabulary s). \<not> unanswered_at (filtered_vocabulary s) (word_stats s) k)"

text \<open>No answer is lost from \<open>st\<close> to \<open>st'\<close>: a word no longer to guess stays so,
  and a word answered Correct or Incorrect stays answered (possibly re-marked).\<close>

definition keeps_answers :: "(string \<times> word_stat) list \<Rightarrow> (string \<times> word_stat) list \<Rightarrow> bool" where
  "keeps_answers st st' \<longleftrightarrow>
     (\<forall>x. (\<not> is_to_guess (map_of st x) \<longrightarrow> \<not> is_to_guess (map_of st' x)) \<and>
          (stat_outcome (map_of st x) \<in> {Correct, Incorrect} \<longrightarrow>
           stat_outcome (map_of st' x) \<in> {Correct, Incorrect}))"

text \<open>The counter of a row that an outcome increments.\<close>

fun counter :: "outcome \<Rightarrow> category_stat \<Rightarrow> nat" where
  "counter Correct x = n_correct x"
| "counter Incorrect x = n_incorrect x"
| "counter Skipped x = n_skipped x"
| "counter Unanswered x = n_unanswered x"

section \<open>Marking and the cards still to guess\<close>

lemma unanswered_at_mark:
  "unanswered_at f (AList.update (word_id (f ! i)) (answered_stat b) st) k \<longleftrightarrow>
   unanswered_at f st k \<and> word_id (f ! k) \<noteq> word_id (f ! i)"
  by (auto simp: unanswered_at_def update_conv')

lemma unanswered_at_mark_self:
  "\<not> unanswered_at f (AList.update (word_id (f ! i)) (answered_stat b) st) i"
  by (simp add: unanswered_at_mark)

lemma unanswered_count_mark_le:
  "unanswered_count f (AList.update (word_id (f ! i)) (answered_stat b) st) \<le> unanswered_count f st"
proof -
  let ?st' = "AList.update (word_id (f ! i)) (answered_stat b) st"
  have "filter (unanswered_at f ?st') [0..<length f] =
        filter (unanswered_at f ?st') (filter (unanswered_at f st) [0..<length f])"
    by (auto simp: filter_filter unanswered_at_mark intro: filter_cong)
  then show ?thesis
    unfolding unanswered_count_def by (metis length_filter_le)
qed

lemma unanswered_count_mark_less:
  assumes "i < length f" and "unanswered_at f st i"
  shows "unanswered_count f (AList.update (word_id (f ! i)) (answered_stat b) st) < unanswered_count f st"
proof -
  let ?st' = "AList.update (word_id (f ! i)) (answered_stat b) st"
  have "filter (unanswered_at f ?st') [0..<length f] =
        filter (unanswered_at f ?st') (filter (unanswered_at f st) [0..<length f])"
    by (auto simp: filter_filter unanswered_at_mark intro: filter_cong)
  moreover have "length (filter (unanswered_at f ?st') (filter (unanswered_at f st) [0..<length f]))
                 < length (filter (unanswered_at f st) [0..<length f])"
    using assms by (intro length_filter_less [of i]) (simp_all add: unanswered_at_mark_self)
  ultimately show ?thesis by (simp add: unanswered_count_def)
qed

lemma unanswered_count_le_length: "unanswered_count f st \<le> length f"
  using length_filter_le [of "unanswered_at f st" "[0..<length f]"]
  by (simp add: unanswered_count_def)

lemma unanswered_count_0_iff:
  "unanswered_count f st = 0 \<longleftrightarrow> (\<forall>k < length f. \<not> unanswered_at f st k)"
  by (auto simp: unanswered_count_def filter_empty_conv)

text \<open>One \<open>mark_and_advance\<close> from a well-formed session: it records the answer of
  the current card, changes no other statistic and no deck, and leaves the cursor on a
  card still to guess unless no card is left to guess.\<close>

lemma mark_and_advance_progress:
  assumes "wf_session s"
  shows "\<exists>s'. mark_and_advance b s = Inr s' \<and> wf_session s' \<and>
           filtered_vocabulary s' = filtered_vocabulary s \<and>
           (filtered_vocabulary s \<noteq> [] \<longrightarrow>
              word_stats s' = AList.update (word_id (filtered_vocabulary s ! current_index s))
                                (answered_stat b) (word_stats s)) \<and>
           (filtered_vocabulary s = [] \<longrightarrow> word_stats s' = word_stats s) \<and>
           (unanswered_at (filtered_vocabulary s') (word_stats s') (current_index s') \<or> deck_done s')"
proof (cases "filtered_vocabulary s = []")
  case True
  with assms show ?thesis by (simp add: mark_and_advance_def deck_done_def)
next
  case False
  let ?f = "filtered_vocabulary s" and ?i = "current_index s"
  let ?st1 = "AList.update (word_id (?f ! ?i)) (answered_stat b) (word_stats s)"
  let ?s1 = "s\<lparr>word_stats := ?st1\<rparr>"
  from assms False have i: "?i < length ?f" by (rule wf_index_bound)
  have mw: "mark_word b s = Inr ?s1" using i by (simp add: mark_word_eq)
  have wf1: "wf_session ?s1" using mark_word_wf [OF assms mw] .
  have i1: "current_index ?s1 < max 1 (length (filtered_vocabulary ?s1))" using i by simp
  show ?thesis
  proof (cases "next_unanswered_index ?f ?st1 ?i")
    case (Some j)
    from next_unanswered_index_Some [of ?i ?f ?st1 j] i Some
    have j: "j < length ?f" "unanswered_at ?f ?st1 j" by simp_all
    have "mark_and_advance b s = Inr (?s1\<lparr>current_index := j, is_flipped := False\<rparr>)"
      using False mw i1 Some by (simp add: mark_and_advance_def go_to_next_unanswered_eq)
    moreover have "wf_session (?s1\<lparr>current_index := j, is_flipped := False\<rparr>)"
      using wf1 j(1) by (simp add: wf_session_index inv_simps)
    ultimately show ?thesis using False j(2) by simp
  next
    case None
    then have others: "\<forall>k < length ?f. k \<noteq> ?i \<longrightarrow> \<not> unanswered_at ?f ?st1 k"
      using i by (simp add: next_unanswered_index_None_iff)
    then have done1: "\<forall>k < length ?f. \<not> unanswered_at ?f ?st1 k"
      by (metis unanswered_at_mark_self)
    obtain s' where nc: "next_card ?s1 = Inr s'" using next_card_Inr by blast
    have ma: "mark_and_advance b s = Inr s'"
      using False mw i1 None nc by (simp add: mark_and_advance_def go_to_next_unanswered_eq)
    have "filtered_vocabulary s' = ?f \<and> word_stats s' = ?st1"
    proof (cases "Suc ?i < length ?f")
      case True
      have "\<not> is_to_guess (map_of ?st1 (word_id (?f ! ?i)))"
        by (simp add: update_conv')
      with True nc show ?thesis by (auto simp: next_card_eq Let_def)
    next
      case False
      with nc show ?thesis by (auto simp: next_card_last)
    qed
    moreover have "wf_session s'" using next_card_wf [OF wf1 nc] .
    ultimately show ?thesis using ma done1 False by (simp add: deck_done_def)
  qed
qed

lemma unanswered_count_after_mark:
  assumes "wf_session s" and "mark_and_advance b s = Inr s1"
    and "filtered_vocabulary s1 = filtered_vocabulary s"
    and "filtered_vocabulary s \<noteq> [] \<longrightarrow>
           word_stats s1 = AList.update (word_id (filtered_vocabulary s ! current_index s))
                             (answered_stat b) (word_stats s)"
  shows "unanswered_count (filtered_vocabulary s1) (word_stats s1) \<le>
           unanswered_count (filtered_vocabulary s) (word_stats s) \<and>
         (filtered_vocabulary s \<noteq> [] \<longrightarrow>
          unanswered_at (filtered_vocabulary s) (word_stats s) (current_index s) \<longrightarrow>
          unanswered_count (filtered_vocabulary s1) (word_stats s1) <
            unanswered_count (filtered_vocabulary s) (word_stats s))"
proof (cases "filtered_vocabulary s = []")
  case True
  with assms(3) show ?thesis using unanswered_count_le_length [of "[]"] by simp
next
  case False
  with assms(1) have "current_index s < length (filtered_vocabulary s)" by (rule wf_index_bound)
  with False assms(3,4) show ?thesis
    by (simp add: unanswered_count_mark_le unanswered_count_mark_less)
qed

text \<open>From a session whose cursor is on a card still to guess (or with no card left to
  guess), \<open>m\<close> marks answer the whole deck when at most \<open>m\<close> cards are left.\<close>

lemma marks_finish:
  "wf_session s \<Longrightarrow>
   unanswered_at (filtered_vocabulary s) (word_stats s) (current_index s) \<or> deck_done s \<Longrightarrow>
   unanswered_count (filtered_vocabulary s) (word_stats s) \<le> m \<Longrightarrow>
   \<exists>s'. run_commands (replicate m (Mark b)) (s, rs) = Inr (s', rs) \<and> wf_session s' \<and>
        filtered_vocabulary s' = filtered_vocabulary s \<and> deck_done s'"
proof (induction m arbitrary: s)
  case 0
  then show ?case by (simp add: unanswered_count_0_iff deck_done_def)
next
  case (Suc m)
  from mark_and_advance_progress [OF Suc.prems(1), of b] obtain s1 where
    ma: "mark_and_advance b s = Inr s1" and wf1: "wf_session s1"
    and f1: "filtered_vocabulary s1 = filtered_vocabulary s"
    and st1: "filtered_vocabulary s \<noteq> [] \<longrightarrow>
              word_stats s1 = AList.update (word_id (filtered_vocabulary s ! current_index s))
                                (answered_stat b) (word_stats s)"
    and p1: "unanswered_at (filtered_vocabulary s1) (word_stats s1) (current_index s1) \<or> deck_done s1"
    by blast
  note cnt = unanswered_count_after_mark [OF Suc.prems(1) ma f1 st1]
  have "unanswered_count (filtered_vocabulary s1) (word_stats s1) \<le> m"
  proof (cases "deck_done s \<or> filtered_vocabulary s = []")
    case True
    then have "unanswered_count (filtered_vocabulary s) (word_stats s) = 0"
      using unanswered_count_le_length [of "[]"]
      by (auto simp: deck_done_def unanswered_count_0_iff)
    with cnt show ?thesis by simp
  next
    case False
    with Suc.prems(2) cnt Suc.prems(3) show ?thesis by auto
  qed
  from Suc.IH [OF wf1 p1 this] f1 ma show ?case by (simp add: on_session_def)
qed

section \<open>No navigation handler loses an answer\<close>

lemma keeps_answers_refl [simp]: "keeps_answers st st"
  by (simp add: keeps_answers_def)

lemma keeps_answers_trans:
  "keeps_answers st1 st2 \<Longrightarrow> keeps_answers st2 st3 \<Longrightarrow> keeps_answers st1 st3"
  unfolding keeps_answers_def by blast

lemma to_guess_not_answered: "is_to_guess v \<Longrightarrow> stat_outcome v \<notin> {Correct, Incorrect}"
  by (auto simp: is_to_guess_def stat_outcome_def split: option.splits)

lemma keeps_answers_mark: "keeps_answers st (AList.update k (answered_stat b) st)"
  by (simp add: keeps_answers_def update_conv')

lemma keeps_answers_skip:
  "is_to_guess (map_of st k) \<Longrightarrow> keeps_answers st (AList.update k skipped_stat st)"
  by (auto simp: keeps_answers_def update_conv' dest: to_guess_not_answered)

lemma display_card_keeps: "display_card s = Inr s' \<Longrightarrow> word_stats s' = word_stats s"
  by (auto simp: display_card_Inr_iff)

lemma mark_as_skipped_keeps:
  "mark_as_skipped_if_unanswered s = Inr s' \<Longrightarrow> keeps_answers (word_stats s) (word_stats s')"
  by (auto simp: mark_as_skipped_if_unanswered_def keeps_answers_skip
      split: if_splits option.splits)

lemma next_card_keeps:
  "next_card s = Inr s' \<Longrightarrow> keeps_answers (word_stats s) (word_stats s')"
  by (auto simp: next_card_def split: if_splits sum.splits
      dest!: mark_as_skipped_keeps display_card_keeps)

lemma previous_card_keeps:
  "previous_card s = Inr s' \<Longrightarrow> keeps_answers (word_stats s) (word_stats s')"
  by (auto simp: previous_card_def split: if_splits dest!: display_card_keeps)

lemma go_to_next_unanswered_keeps:
  "go_to_next_unanswered_card s = Inr s' \<Longrightarrow> keeps_answers (word_stats s) (word_stats s')"
  by (auto simp: go_to_next_unanswered_card_def Let_def split: sum.splits option.splits
      dest!: display_card_keeps next_card_keeps)

lemma mark_word_keeps:
  "mark_word b s = Inr s' \<Longrightarrow> keeps_answers (word_stats s) (word_stats s')"
  by (auto simp: mark_word_def keeps_answers_mark split: if_splits option.splits)

lemma mark_and_advance_keeps:
  "mark_and_advance b s = Inr s' \<Longrightarrow> keeps_answers (word_stats s) (word_stats s')"
  by (auto simp: mark_and_advance_def split: if_splits sum.splits
      dest!: mark_word_keeps go_to_next_unanswered_keeps intro: keeps_answers_trans)

section \<open>Two marks within the timer's delay\<close>

lemma unanswered_at_distinct_ids:
  assumes "distinct (map word_id f)" and "k < length f" and "i < length f" and "k \<noteq> i"
  shows "word_id (f ! k) \<noteq> word_id (f ! i)"
  using nth_eq_iff_index_eq [of "map word_id f" k i] assms by simp

text \<open>The auto-advance from a card with another card still to guess jumps to such a
  card and changes no statistic.\<close>

lemma go_to_next_unanswered_jump:
  assumes "i < length f" and "k < length f" and "k \<noteq> i" and "unanswered_at f st k"
    and "filtered_vocabulary s = f" and "word_stats s = st" and "current_index s = i"
  shows "\<exists>j. go_to_next_unanswered_card s = Inr (s\<lparr>current_index := j, is_flipped := False\<rparr>) \<and>
             j < length f \<and> j \<noteq> i \<and> unanswered_at f st j"
proof -
  have i1: "current_index s < max 1 (length (filtered_vocabulary s))" using assms by simp
  have "next_unanswered_index f st i \<noteq> None"
    using assms(1-4) by (auto simp: next_unanswered_index_None_iff)
  then obtain j where j: "next_unanswered_index f st i = Some j" by blast
  from next_unanswered_index_Some [of i f st j] assms(1) j
  have jp: "j < length f \<and> j \<noteq> i \<and> unanswered_at f st j" by simp
  have "go_to_next_unanswered_card s = Inr (s\<lparr>current_index := j, is_flipped := False\<rparr>)"
    using j i1 assms(5-7) by (simp add: go_to_next_unanswered_eq)
  with jp show ?thesis by blast
qed

section \<open>A mark and the statistics table\<close>

lemma count_outcome_Cons:
  "count_outcome st oc (w # ws) =
   (if stat_outcome (map_of st (word_id w)) = oc then 1 else 0) + count_outcome st oc ws"
  by (simp add: count_outcome_def)

lemma count_outcome_update:
  "distinct (map word_id ws) \<Longrightarrow>
   count_outcome (AList.update k v st) oc ws +
     (if k \<in> word_id ` set ws \<and> stat_outcome (map_of st k) = oc then 1 else 0) =
   count_outcome st oc ws + (if k \<in> word_id ` set ws \<and> stat_outcome (Some v) = oc then 1 else 0)"
proof (induction ws)
  case Nil
  then show ?case by (simp add: count_outcome_def)
next
  case (Cons w ws)
  then have nw: "word_id w \<notin> word_id ` set ws" and d: "distinct (map word_id ws)" by auto
  show ?case
  proof (cases "k = word_id w")
    case True
    with nw have "count_outcome (AList.update k v st) oc ws = count_outcome st oc ws"
      using Cons.IH [OF d] by simp
    with True show ?thesis by (simp add: count_outcome_Cons update_conv')
  next
    case False
    with Cons.IH [OF d] show ?thesis
      by (simp add: count_outcome_Cons update_conv' split: if_splits)
  qed
qed

lemma counter_category_stats:
  "counter oc (category_stats s c) =
   count_outcome (word_stats s) oc (filter (\<lambda>w. category w = c) (deck_of s))"
  by (cases oc) (simp_all add: category_stats_eq Let_def)

lemma id_in_category:
  assumes "distinct (map word_id (vocabulary s))" and "w \<in> set (deck_of s)"
  shows "word_id w \<in> word_id ` set (filter (\<lambda>v. category v = c) (deck_of s)) \<longleftrightarrow> category w = c"
proof
  assume "word_id w \<in> word_id ` set (filter (\<lambda>v. category v = c) (deck_of s))"
  then obtain v where v: "v \<in> set (deck_of s)" "category v = c" "word_id v = word_id w" by auto
  have "inj_on word_id (set (vocabulary s))" using assms(1) by (simp add: distinct_map)
  moreover have "v \<in> set (vocabulary s)" "w \<in> set (vocabulary s)"
    using v(1) assms(2) by (auto simp: deck_of_def)
  ultimately have "v = w" using v(3) by (auto dest: inj_onD)
  with v(2) show "category w = c" by simp
next
  assume "category w = c"
  with assms(2) show "word_id w \<in> word_id ` set (filter (\<lambda>v. category v = c) (deck_of s))" by auto
qed

section \<open>Properties of the marking loop\<close>

text \<open>C21: marking answers the whole deck. From any well-formed session, pressing
  Correct (or Incorrect) \<open>n + 1\<close> times, each mark followed by its auto-advance,
  leaves no card of the \<open>n\<close>-card deck still to guess and the deck unchanged: the
  auto-advance never strands a card still to guess. The first mark may fall on a card
  already answered; every later one answers a new card.\<close>

theorem marks_complete_deck:
  assumes "wf_session s"
  shows "\<exists>s'. run_commands (replicate (Suc (length (filtered_vocabulary s))) (Mark b)) (s, rs) =
                Inr (s', rs) \<and>
              filtered_vocabulary s' = filtered_vocabulary s \<and> deck_done s'"
proof -
  from mark_and_advance_progress [OF assms, of b] obtain s1 where
    ma: "mark_and_advance b s = Inr s1" and wf1: "wf_session s1"
    and f1: "filtered_vocabulary s1 = filtered_vocabulary s"
    and p1: "unanswered_at (filtered_vocabulary s1) (word_stats s1) (current_index s1) \<or> deck_done s1"
    by blast
  have "unanswered_count (filtered_vocabulary s1) (word_stats s1) \<le> length (filtered_vocabulary s)"
    using unanswered_count_le_length f1 by metis
  from marks_finish [OF wf1 p1 this, of b rs] f1 ma show ?thesis
    by (auto simp: on_session_def)
qed

text \<open>C22: no navigation command loses an answer. Moving back or forward, flipping,
  switching the language or the direction, downloading and marking (with its
  auto-advance) never turn a card that is no longer to guess back into one to guess,
  and never turn a Correct or Incorrect answer into Skipped or to guess; only the
  Shuffle, Reset, All, None buttons and the category boxes clear the statistics.\<close>

theorem navigation_keeps_answers:
  assumes "handle_command c (s, rs) = Inr (s', rs')"
    and "c \<in> {Previous, Next, Flip, Toggle_language, Toggle_direction, Download} \<or>
         (\<exists>b. c = Mark b)"
  shows "keeps_answers (word_stats s) (word_stats s')"
  using assms
  by (auto simp: on_session_def flip_card_def toggle_language_def toggle_flip_direction_def
      split: sum.splits
      dest!: previous_card_keeps next_card_keeps mark_and_advance_keeps display_card_keeps)

text \<open>C23: two marks before the first timer fires do not act as two marks with their
  auto-advance. On a ready page with no timer pending, distinct word ids and two other
  cards still to guess, the clicks Mark \<open>b1\<close>, Mark \<open>b2\<close> followed by the two timers
  record only \<open>b2\<close> for the current card (the first answer is lost); the first timer
  moves the cursor to a card still to guess, and the second moves it on again, leaving
  that card unanswered.\<close>

theorem double_mark_passes_card:
  assumes "phase a = Ready" and "pending a = 0" and "wf_session (sess a)"
    and "distinct (map word_id (filtered_vocabulary (sess a)))"
    and "k1 < length (filtered_vocabulary (sess a))" and "k2 < length (filtered_vocabulary (sess a))"
    and "k1 \<noteq> k2" and "k1 \<noteq> current_index (sess a)" and "k2 \<noteq> current_index (sess a)"
    and "unanswered_at (filtered_vocabulary (sess a)) (word_stats (sess a)) k1"
    and "unanswered_at (filtered_vocabulary (sess a)) (word_stats (sess a)) k2"
  shows "filtered_vocabulary (sess (app_run [Input (Mark b1), Input (Mark b2), Timer, Timer] a)) =
           filtered_vocabulary (sess a) \<and>
         pending (app_run [Input (Mark b1), Input (Mark b2), Timer, Timer] a) = 0 \<and>
         map_of (word_stats (sess (app_run [Input (Mark b1), Input (Mark b2), Timer, Timer] a))) =
           (map_of (word_stats (sess a)))
             (word_id (filtered_vocabulary (sess a) ! current_index (sess a)) \<mapsto> answered_stat b2) \<and>
         current_index (sess (app_run [Input (Mark b1), Input (Mark b2), Timer] a)) \<noteq>
           current_index (sess a) \<and>
         unanswered_at (filtered_vocabulary (sess a))
           (word_stats (sess (app_run [Input (Mark b1), Input (Mark b2), Timer, Timer] a)))
           (current_index (sess (app_run [Input (Mark b1), Input (Mark b2), Timer] a))) \<and>
         current_index (sess (app_run [Input (Mark b1), Input (Mark b2), Timer, Timer] a)) \<noteq>
           current_index (sess (app_run [Input (Mark b1), Input (Mark b2), Timer] a))"
proof -
  define s where "s = sess a"
  define f where "f = filtered_vocabulary s"
  define i where "i = current_index s"
  define st2 where "st2 = AList.update (word_id (f ! i)) (answered_stat b2)
                            (AList.update (word_id (f ! i)) (answered_stat b1) (word_stats s))"
  have fne: "f \<noteq> []" using assms(5) by (auto simp: f_def s_def)
  have i: "i < length f" using wf_index_bound [OF assms(3)] fne by (simp add: f_def i_def s_def)
  have ids: "word_id (f ! k) \<noteq> word_id (f ! i)" if "k < length f" "k \<noteq> i" for k
    using unanswered_at_distinct_ids [OF _ that(1) i that(2)] assms(4) by (simp add: f_def s_def)
  have un2: "unanswered_at f st2 k \<longleftrightarrow> unanswered_at f (word_stats s) k \<and> word_id (f ! k) \<noteq> word_id (f ! i)"
    for k by (auto simp: st2_def unanswered_at_mark)
  have e2: "app_run [Input (Mark b1), Input (Mark b2)] a =
            a\<lparr>sess := s\<lparr>word_stats := st2\<rparr>, pending := Suc (Suc 0)\<rparr>"
    using assms(1,2) fne i
    by (simp add: mark_event_def mark_word_eq st2_def f_def i_def s_def)
  have h: "k1 < length f" "k2 < length f" "k1 \<noteq> i" "k2 \<noteq> i"
    "unanswered_at f (word_stats s) k1" "unanswered_at f (word_stats s) k2"
    using assms(5-11) by (simp_all add: f_def i_def s_def)
  have k1: "unanswered_at f st2 k1" and k2: "unanswered_at f st2 k2"
    using h ids by (simp_all add: un2)
  obtain j where
    j: "go_to_next_unanswered_card (s\<lparr>word_stats := st2\<rparr>) =
          Inr (s\<lparr>word_stats := st2, current_index := j, is_flipped := False\<rparr>)"
    and jl: "j < length f" and ji: "j \<noteq> i" and uj: "unanswered_at f st2 j"
    using go_to_next_unanswered_jump [OF i _ _ k1, of "s\<lparr>word_stats := st2\<rparr>"] assms(5,8)
    by (auto simp: f_def i_def s_def)
  have e3: "app_run [Input (Mark b1), Input (Mark b2), Timer] a =
            a\<lparr>sess := s\<lparr>word_stats := st2, current_index := j, is_flipped := False\<rparr>, pending := Suc 0\<rparr>"
    using e2 j by (simp add: timer_event_def)
  obtain k where k: "k < length f" "k \<noteq> j" "unanswered_at f st2 k"
    using k1 k2 assms(5,6,7) by (cases "k1 = j") (auto simp: f_def s_def)
  obtain j' where
    j': "go_to_next_unanswered_card (s\<lparr>word_stats := st2, current_index := j, is_flipped := False\<rparr>) =
          Inr (s\<lparr>word_stats := st2, current_index := j', is_flipped := False\<rparr>)"
    and jj: "j' \<noteq> j"
    using go_to_next_unanswered_jump [OF jl k(1,2,3),
        of "s\<lparr>word_stats := st2, current_index := j, is_flipped := False\<rparr>"]
    by (auto simp: f_def)
  have e4: "app_run [Input (Mark b1), Input (Mark b2), Timer, Timer] a =
            a\<lparr>sess := s\<lparr>word_stats := st2, current_index := j', is_flipped := False\<rparr>, pending := 0\<rparr>"
    using e3 j' by (simp add: timer_event_def)
  have "map_of st2 = (map_of (word_stats s))(word_id (f ! i) \<mapsto> answered_stat b2)"
    by (simp add: st2_def update_conv')
  then show ?thesis
    using e3 e4 ji jj uj by (simp add: f_def i_def s_def)
qed

text \<open>C14: a mark moves exactly one count in the statistics table that
  \<open>markWord\<close> refreshes. With distinct word ids, marking the current card \<open>w\<close> leaves
  every row's total as it was, and each counter of the row of \<open>w\<close>'s category loses
  one for the card's old outcome and gains one for its new outcome (Correct or
  Incorrect); the counters of every other row are unchanged.\<close>

theorem mark_updates_category_row:
  assumes "wf_session s" and "filtered_vocabulary s \<noteq> []"
    and "distinct (map word_id (vocabulary s))" and "mark_word b s = Inr s'"
  shows "total (category_stats s' c) = total (category_stats s c) \<and>
         counter oc (category_stats s' c) +
           (if c = category (filtered_vocabulary s ! current_index s) \<and>
               stat_outcome (map_of (word_stats s) (word_id (filtered_vocabulary s ! current_index s))) = oc
            then 1 else 0) =
         counter oc (category_stats s c) +
           (if c = category (filtered_vocabulary s ! current_index s) \<and>
               (if b then Correct else Incorrect) = oc then 1 else 0)"
proof -
  let ?f = "filtered_vocabulary s" and ?i = "current_index s"
  let ?w = "?f ! ?i" and ?ws = "filter (\<lambda>v. category v = c) (deck_of s)"
  let ?st' = "AList.update (word_id ?w) (answered_stat b) (word_stats s)"
  have i: "?i < length ?f" using wf_index_bound [OF assms(1,2)] .
  have s': "s' = s\<lparr>word_stats := ?st'\<rparr>"
    using assms(4) i by (simp add: mark_word_eq)
  have "?w \<in> set ?f" using i by simp
  then have wd: "?w \<in> set (deck_of s)"
    using assms(1) by (simp add: wf_session_def flip: set_mset_mset)
  have dws: "distinct (map word_id ?ws)"
    using assms(3) by (simp add: deck_of_def distinct_map_filter)
  have mem: "word_id ?w \<in> word_id ` set ?ws \<longleftrightarrow> c = category ?w"
    using id_in_category [OF assms(3) wd] by auto
  note cu = count_outcome_update [OF dws, of "word_id ?w" "answered_stat b" "word_stats s" oc,
      unfolded mem stat_outcome_written]
  have c': "counter oc (category_stats s' c) = count_outcome ?st' oc ?ws"
    by (simp add: s' counter_category_stats)
  have c0: "counter oc (category_stats s c) = count_outcome (word_stats s) oc ?ws"
    by (rule counter_category_stats)
  have "total (category_stats s' c) = total (category_stats s c)"
    by (simp add: s' category_stats_eq Let_def)
  with cu show ?thesis unfolding c' c0 by simp
qed

end
