(* ===== verification/Translation.thy ===== *)
theory Translation
  imports Deck
begin

text \<open>
  The translation lookup \<open>t(key)\<close> (\<open>src/script.js\<close> lines 17--134 and 487--489): the
  two string tables of the constructor, property access on a JavaScript object literal
  (own properties first, then the members every object inherits from
  \<open>Object.prototype\<close>), the falsy test of \<open>||\<close>, and the string conversion that
  \<open>textContent\<close> and template literals apply to the result. Strings are byte strings:
  the non-ASCII characters of the tables are written as their UTF-8 encodings.
\<close>

section \<open>The tables\<close>

text \<open>UTF-8 encodings of the non-ASCII characters the tables use.\<close>

abbreviation glyph_crossed_flags :: string where "glyph_crossed_flags \<equiv> [CHR 0xF0, CHR 0x9F, CHR 0x8E, CHR 0x8C]"
abbreviation glyph_twisted_arrows :: string where "glyph_twisted_arrows \<equiv> [CHR 0xF0, CHR 0x9F, CHR 0x94, CHR 0x80]"
abbreviation glyph_check_mark :: string where "glyph_check_mark \<equiv> [CHR 0xE2, CHR 0x9C, CHR 0x93]"
abbreviation glyph_ballot_x :: string where "glyph_ballot_x \<equiv> [CHR 0xE2, CHR 0x9C, CHR 0x97]"
abbreviation glyph_left_arrow :: string where "glyph_left_arrow \<equiv> [CHR 0xE2, CHR 0x86, CHR 0x90]"
abbreviation glyph_right_arrow :: string where "glyph_right_arrow \<equiv> [CHR 0xE2, CHR 0x86, CHR 0x92]"
abbreviation glyph_inbox_tray :: string where "glyph_inbox_tray \<equiv> [CHR 0xF0, CHR 0x9F, CHR 0x93, CHR 0xA5]"
abbreviation glyph_counterclockwise :: string where "glyph_counterclockwise \<equiv> [CHR 0xF0, CHR 0x9F, CHR 0x94, CHR 0x84]"
abbreviation glyph_e_acute :: string where "glyph_e_acute \<equiv> [CHR 0xC3, CHR 0xA9]"
abbreviation glyph_i_acute :: string where "glyph_i_acute \<equiv> [CHR 0xC3, CHR 0xAD]"
abbreviation glyph_o_acute :: string where "glyph_o_acute \<equiv> [CHR 0xC3, CHR 0xB3]"
abbreviation glyph_inverted_exclamation :: string where "glyph_inverted_exclamation \<equiv> [CHR 0xC2, CHR 0xA1]"

text \<open>The \<open>en\<close> table (lines 18--75) and the \<open>es\<close> table (lines 76--133), in
  source order.\<close>

definition en_table :: "(string \<times> string) list" where
  "en_table =
    [(''title'', glyph_crossed_flags @ '' Japanese Vocabulary Cards''),
     (''subtitle'', ''Learn Japanese vocabulary with interactive flashcards''),
     (''click-to-flip'', ''Click to flip''),
     (''previous'', glyph_left_arrow @ '' Previous''),
     (''flip-card'', ''Flip Card''),
     (''show-front'', ''Show Front''),
     (''next'', ''Next '' @ glyph_right_arrow),
     (''skip'', ''Skip '' @ glyph_right_arrow),
     (''shuffle'', glyph_twisted_arrows @ '' Shuffle''),
     (''card'', ''Card''),
     (''of'', ''of''),
     (''cards-shuffled'', ''Cards shuffled! '' @ glyph_twisted_arrows),
     (''loading'', ''Loading...''),
     (''categories'', ''Categories''),
     (''select-all'', ''All''),
     (''select-none'', ''None''),
     (''countries'', ''Countries''),
     (''general'', ''General''),
     (''objects'', ''Objects''),
     (''places'', ''Places''),
     (''people'', ''People''),
     (''colors'', ''Colors''),
     (''animals'', ''Animals''),
     (''food'', ''Food''),
     (''drinks'', ''Drinks''),
     (''furniture'', ''Furniture''),
     (''technology'', ''Technology''),
     (''weather'', ''Weather''),
     (''education'', ''Education''),
     (''quantity'', ''Quantity''),
     (''sports'', ''Sports''),
     (''entertainment'', ''Entertainment''),
     (''health'', ''Health''),
     (''clothing'', ''Clothing''),
     (''transportation'', ''Transportation''),
     (''time'', ''Time''),
     (''emotions'', ''Emotions''),
     (''correct'', glyph_check_mark @ '' Correct''),
     (''incorrect'', glyph_ballot_x @ '' Incorrect''),
     (''statistics'', ''Statistics''),
     (''total'', ''Total''),
     (''answered'', ''Answered''),
     (''remaining'', ''Remaining''),
     (''skipped'', ''Skipped''),
     (''progress'', ''Progress''),
     (''to-guess'', ''To Guess''),
     (''status-correct'', ''Correct''),
     (''status-incorrect'', ''Incorrect''),
     (''status-skipped'', ''Skipped''),
     (''download-stats'', glyph_inbox_tray @ '' Download Statistics''),
     (''downloaded'', glyph_check_mark @ '' Downloaded!''),
     (''reset'', glyph_counterclockwise @ '' Reset''),
     (''reset-done'', glyph_check_mark @ '' Reset!'')]"

definition es_table :: "(string \<times> string) list" where
  "es_table =
    [(''title'', glyph_crossed_flags @ '' Vocabulario Japon'' @ glyph_e_acute @ ''s''),
     (''subtitle'', ''Aprende vocabulario japon'' @ glyph_e_acute @ ''s con tarjetas interactivas''),
     (''click-to-flip'', ''Haz clic para voltear''),
     (''previous'', glyph_left_arrow @ '' Previo''),
     (''flip-card'', ''Voltear''),
     (''show-front'', ''Frente''),
     (''next'', ''Siguiente '' @ glyph_right_arrow),
     (''skip'', ''Omitir '' @ glyph_right_arrow),
     (''shuffle'', glyph_twisted_arrows @ '' Mezclar''),
     (''card'', ''Tarjeta''),
     (''of'', ''de''),
     (''cards-shuffled'', glyph_inverted_exclamation @ ''Tarjetas mezcladas! '' @ glyph_twisted_arrows),
     (''loading'', ''Cargando...''),
     (''categories'', ''Categor'' @ glyph_i_acute @ ''as''),
     (''select-all'', ''Todas''),
     (''select-none'', ''Ninguna''),
     (''countries'', ''Pa'' @ glyph_i_acute @ ''ses''),
     (''general'', ''General''),
     (''objects'', ''Objetos''),
     (''places'', ''Lugares''),
     (''people'', ''Personas''),
     (''colors'', ''Colores''),
     (''animals'', ''Animales''),
     (''food'', ''Comida''),
     (''drinks'', ''Bebidas''),
     (''furniture'', ''Muebles''),
     (''technology'', ''Tecnolog'' @ glyph_i_acute @ ''a''),
     (''weather'', ''Clima''),
     (''education'', ''Educaci'' @ glyph_o_acute @ ''n''),
     (''quantity'', ''Cantidad''),
     (''sports'', ''Deportes''),
     (''entertainment'', ''Entretenimiento''),
     (''health'', ''Salud''),
     (''clothing'', ''Ropa''),
     (''transportation'', ''Transporte''),
     (''time'', ''Tiempo''),
     (''emotions'', ''Emociones''),
     (''correct'', glyph_check_mark @ '' Correcto''),
     (''incorrect'', glyph_ballot_x @ '' Incorrecto''),
     (''statistics'', ''Estad'' @ glyph_i_acute @ ''sticas''),
     (''total'', ''Total''),
     (''answered'', ''Respondidas''),
     (''remaining'', ''Restantes''),
     (''skipped'', ''Omitidas''),
     (''progress'', ''Progreso''),
     (''to-guess'', ''Por Adivinar''),
     (''status-correct'', ''Correcto''),
     (''status-incorrect'', ''Incorrecto''),
     (''status-skipped'', ''Omitido''),
     (''download-stats'', glyph_inbox_tray @ '' Descargar Estad'' @ glyph_i_acute @ ''sticas''),
     (''downloaded'', glyph_check_mark @ '' '' @ glyph_inverted_exclamation @ ''Descargado!''),
     (''reset'', glyph_counterclockwise @ '' Reiniciar''),
     (''reset-done'', glyph_check_mark @ '' '' @ glyph_inverted_exclamation @ ''Reiniciado!'')]"

fun translation_tables :: "language \<Rightarrow> (string \<times> string) list" where
  "translation_tables En = en_table"
| "translation_tables Es = es_table"

section \<open>Property access and the fallback chain\<close>

text \<open>The values a property read on the tables can produce: an own string, a member
  inherited from \<open>Object.prototype\<close> (a native function, or the prototype object itself
  for \<open>__proto__\<close>), or \<open>undefined\<close>.\<close>

datatype js_value = Js_str string | Js_fun string | Js_proto | Js_undefined

text \<open>The function-valued members of \<open>Object.prototype\<close>; the value of
  \<open>constructor\<close> is the function named \<open>Object\<close>.\<close>

definition proto_members :: "string list" where
  "proto_members = [''constructor'', ''__defineGetter__'', ''__defineSetter__'', ''hasOwnProperty'',
     ''__lookupGetter__'', ''__lookupSetter__'', ''isPrototypeOf'', ''propertyIsEnumerable'',
     ''toString'', ''valueOf'', ''toLocaleString'']"

definition get_prop :: "(string \<times> string) list \<Rightarrow> string \<Rightarrow> js_value" where
  "get_prop tbl k =
     (case map_of tbl k of
        Some v \<Rightarrow> Js_str v
      | None \<Rightarrow>
          if k = ''__proto__'' then Js_proto
          else if k \<in> set proto_members then Js_fun (if k = ''constructor'' then ''Object'' else k)
          else Js_undefined)"

fun truthy :: "js_value \<Rightarrow> bool" where
  "truthy (Js_str s) = (s \<noteq> [])"
| "truthy (Js_fun n) = True"
| "truthy Js_proto = True"
| "truthy Js_undefined = False"

text \<open>\<open>a || b\<close>.\<close>

definition js_or :: "js_value \<Rightarrow> js_value \<Rightarrow> js_value" where
  "js_or a b = (if truthy a then a else b)"

text \<open>\<open>t(key)\<close> (lines 487--489):
  \<open>this.translations[this.currentLanguage][key] || this.translations['en'][key] || key\<close>.\<close>

definition t_lookup :: "language \<Rightarrow> string \<Rightarrow> js_value" where
  "t_lookup lang key =
     js_or (get_prop (translation_tables lang) key) (js_or (get_prop (translation_tables En) key) (Js_str key))"

text \<open>\<open>String(v)\<close>, as \<open>textContent\<close> and \<open>${...}\<close> apply it.\<close>

fun js_to_string :: "js_value \<Rightarrow> string" where
  "js_to_string (Js_str s) = s"
| "js_to_string (Js_fun n) = ''function '' @ n @ ''() { [native code] }''"
| "js_to_string Js_proto = ''[object Object]''"
| "js_to_string Js_undefined = ''undefined''"

text \<open>The category label of the statistics table and of the CSV export:
  \<open>this.t(category) || category\<close> (lines 871 and 1049).\<close>

definition category_label :: "language \<Rightarrow> string \<Rightarrow> string" where
  "category_label lang c = js_to_string (js_or (t_lookup lang c) (Js_str c))"

text \<open>The text of an own entry, empty when there is none.\<close>

definition own_text :: "(string \<times> string) list \<Rightarrow> string \<Rightarrow> string" where
  "own_text tbl k = (case map_of tbl k of Some v \<Rightarrow> v | None \<Rightarrow> [])"

section \<open>Lemmas\<close>

lemma get_prop_plain:
  "k \<notin> set proto_members \<Longrightarrow> k \<noteq> ''__proto__'' \<Longrightarrow>
   get_prop tbl k = (case map_of tbl k of Some v \<Rightarrow> Js_str v | None \<Rightarrow> Js_undefined)"
  by (simp add: get_prop_def split: option.split)

lemma truthy_get_prop_plain:
  "k \<notin> set proto_members \<Longrightarrow> k \<noteq> ''__proto__'' \<Longrightarrow>
   truthy (get_prop tbl k) \<longleftrightarrow> own_text tbl k \<noteq> []"
  by (simp add: get_prop_plain own_text_def split: option.split)

section \<open>Properties of the lookup\<close>

text \<open>C26: for a key that is not the name of an \<open>Object.prototype\<close> member, \<open>t\<close>
  returns the entry of the current language when it is a non-empty string, otherwise the
  English entry when that is non-empty, otherwise the key itself: an empty entry falls
  through like a missing one.\<close>

theorem t_lookup_fallback:
  assumes "k \<notin> set proto_members" and "k \<noteq> ''__proto__''"
  shows "t_lookup lang k =
    Js_str (if own_text (translation_tables lang) k \<noteq> [] then own_text (translation_tables lang) k
            else if own_text (translation_tables En) k \<noteq> [] then own_text (translation_tables En) k
            else k)"
  using assms
  by (simp add: t_lookup_def js_or_def get_prop_plain truthy_get_prop_plain own_text_def
      split: option.split)

theorem t_lookup_fallback_witness:
  "''colours'' \<notin> set proto_members \<and> ''colours'' \<noteq> ''__proto__'' \<and>
   t_lookup Es ''colours'' = Js_str ''colours''"
proof -
  have h1: "''colours'' \<notin> set proto_members" by (simp add: proto_members_def)
  have h2: "''colours'' \<noteq> ''__proto__''" by simp
  have e: "own_text (translation_tables Es) ''colours'' = [] \<and> own_text (translation_tables En) ''colours'' = []"
    by code_simp
  show ?thesis using t_lookup_fallback [OF h1 h2, of Es] h1 h2 e by simp
qed

text \<open>The two tables define the same keys in the same order, and every key the
  code passes to \<open>t\<close> literally has a non-empty entry in both languages, so for these
  keys \<open>t\<close> returns the current language's own text and never falls back to English or
  to the raw key.\<close>

lemma code_keys_translated:
  "map fst en_table = map fst es_table \<and>
   list_all (\<lambda>k. own_text (translation_tables lang) k \<noteq> [] \<and>
                 t_lookup lang k = Js_str (own_text (translation_tables lang) k))
     [''cards-shuffled'', ''categories'', ''downloaded'', ''flip-card'', ''loading'', ''next'',
      ''progress'', ''remaining'', ''reset-done'', ''select-all'', ''select-none'', ''show-front'',
      ''skip'', ''statistics'', ''status-correct'', ''status-incorrect'', ''status-skipped'',
      ''to-guess'', ''total'']"
  by (induct lang) code_simp+

text \<open>A key that names an inherited member of \<open>Object.prototype\<close> is not
  undefined on the tables: \<open>t('constructor')\<close> is the native function \<open>Object\<close>,
  and a category called \<open>toString\<close> is labelled with the source text of a native
  function in the statistics table and in the CSV export.\<close>

lemma t_lookup_inherited_key:
  "js_to_string (t_lookup lang ''constructor'') = ''function Object() { [native code] }'' \<and>
   category_label lang ''toString'' = ''function toString() { [native code] }''"
  by (induct lang) code_simp+

end
