(* ===== verification/View.thy ===== *)
theory View
  imports Navigation Stats Translation
begin

text \<open>
  What the page shows of the session, as values: the status marker of the current card
  (\<open>updateCardStatus\<close>, lines 304--340), the text and style of the Next/Skip button
  (\<open>updateNavigationButtons\<close>, lines 342--360), the card counter and progress bar
  (\<open>updateProgress\<close>, lines 423--428), the rows of the statistics table with their
  stacked progress bars (\<open>updateStats\<close>, lines 840--952), the captions of the language
  and flip-direction buttons and the texts of \<open>showError\<close>. The DOM writes themselves are
  not modelled; each function returns the texts, classes and widths the handler writes.
\<close>

section \<open>Definitions\<close>

text \<open>\<open>toUpperCase\<close> on ASCII letters. It is exact on ASCII text, and every text it is
  applied to below is ASCII (lemma \<open>status_texts_ascii\<close>).\<close>

definition upper_char :: "char \<Rightarrow> char" where
  "upper_char c = (if CHR ''a'' \<le> c \<and> c \<le> CHR ''z'' then char_of (of_char c - (32::nat)) else c)"

definition to_upper_case :: "string \<Rightarrow> string" where
  "to_upper_case s = map upper_char s"

text \<open>The translation key and the style class the marker shows for each status.\<close>

fun status_marker :: "status \<Rightarrow> string \<times> string" where
  "status_marker To_guess = (''to-guess'', ''to-guess'')"
| "status_marker Status_correct = (''status-correct'', ''correct'')"
| "status_marker Status_incorrect = (''status-incorrect'', ''incorrect'')"
| "status_marker Status_skipped = (''status-skipped'', ''skipped'')"

text \<open>\<open>updateCardStatus\<close>: the marker text and class. On an empty deck the marker reads
  \<open>LOADING\<close>; otherwise the chain of tests of lines 319--336 (\<open>status_of_stat\<close>)
  picks the status of the current word. Reading the current word of a cursor outside the
  deck throws.\<close>

definition card_status :: "session \<Rightarrow> (string \<times> string) js_result" where
  "card_status s =
     (if filtered_vocabulary s = []
      then Inr (to_upper_case (js_to_string (t_lookup (current_language s) ''loading'')), ''to-guess'')
      else case nth_opt (filtered_vocabulary s) (current_index s) of
             None \<Rightarrow> Inl Type_error
           | Some w \<Rightarrow>
               (let (k, cls) = status_marker (status_of_stat (map_of (word_stats s) (word_id w)))
                in Inr (to_upper_case (js_to_string (t_lookup (current_language s) k)), cls)))"

text \<open>\<open>updateNavigationButtons\<close>: on an empty deck the button is left as it is
  (\<open>None\<close>); otherwise it reads \<open>Skip\<close> with class \<open>btn-skip\<close> for a card still to
  guess and \<open>Next\<close> with class \<open>btn-secondary\<close> for an answered one.\<close>

definition next_button :: "session \<Rightarrow> (string \<times> string) option js_result" where
  "next_button s =
     (if filtered_vocabulary s = [] then Inr None
      else case nth_opt (filtered_vocabulary s) (current_index s) of
             None \<Rightarrow> Inl Type_error
           | Some w \<Rightarrow>
               Inr (Some (if is_to_guess (map_of (word_stats s) (word_id w))
                          then (js_to_string (t_lookup (current_language s) ''skip''), ''btn-skip'')
                          else (js_to_string (t_lookup (current_language s) ''next''), ''btn-secondary''))))"

text \<open>\<open>updateProgress\<close>: the card number shown, the deck size shown, and the width
  of the progress bar in percent. With an empty deck the division
  \<open>(currentIndex + 1) / 0\<close> is \<open>Infinity\<close> in JavaScript, written \<open>None\<close> here.
  The arithmetic is exact.\<close>

definition progress_view :: "session \<Rightarrow> nat \<times> nat \<times> rat option" where
  "progress_view s =
     (let n = length (filtered_vocabulary s); c = Suc (current_index s)
      in (c, n, if n = 0 then None else Some (of_nat c / of_nat n * 100)))"

text \<open>\<open>(count / total) * 100\<close>, exactly.\<close>

definition percent :: "nat \<Rightarrow> nat \<Rightarrow> rat" where
  "percent c t = of_nat c / of_nat t * 100"

text \<open>The stacked bar of a table row (lines 907--936): one segment per non-zero
  counter, in the order correct, incorrect, skipped, unanswered, each with its class and
  its width in percent.\<close>

definition progress_segments :: "category_stat \<Rightarrow> (string \<times> rat) list" where
  "progress_segments x =
     (if 0 < total x then
        (if 0 < n_correct x then [(''progress-correct'', percent (n_correct x) (total x))] else []) @
        (if 0 < n_incorrect x then [(''progress-incorrect'', percent (n_incorrect x) (total x))] else []) @
        (if 0 < n_skipped x then [(''progress-skipped'', percent (n_skipped x) (total x))] else []) @
        (if 0 < n_unanswered x then [(''progress-unanswered'', percent (n_unanswered x) (total x))] else [])
      else [])"

text \<open>The statistics table (lines 840--952): no table when no available category is
  selected; otherwise one row per category with words, with its label, its counters and
  its bar.\<close>

definition stats_table ::
  "session \<Rightarrow> (string \<times> category_stat \<times> (string \<times> rat) list) list option" where
  "stats_table s =
     (if filter (\<lambda>c. c \<in> selected_categories s) (available_categories s) = [] then None
      else Some (map (\<lambda>(c, x). (category_label (current_language s) c, x, progress_segments x))
                     (update_stats_rows s)))"

text \<open>The category panel of \<open>setupCategoryUI\<close> and \<open>updateCategoryUI\<close>
  (lines 545--624): the header and the two button captions, and for every available
  category its box (ticked or not) and its label \<open>this.t(category) || category\<close>.
  \<open>setupCategoryUI\<close> ticks the boxes of the selected categories;
  \<open>updateCategoryUI\<close> rewrites the texts and leaves the boxes as they are, so the
  ticked boxes are a parameter.\<close>

definition category_panel ::
  "session \<Rightarrow> string set \<Rightarrow> string \<times> string \<times> string \<times> (string \<times> bool \<times> string) list" where
  "category_panel s ticked =
     (let lang = current_language s
      in (js_to_string (t_lookup lang ''categories''), js_to_string (t_lookup lang ''select-all''),
          js_to_string (t_lookup lang ''select-none''),
          map (\<lambda>c. (c, c \<in> ticked, category_label lang c)) (available_categories s)))"

text \<open>The captions of the two toolbar buttons and the texts of \<open>showError\<close>, with the
  flags as the UTF-8 bytes of their two regional indicator symbols and the katakana of
  \<open>showError\<close> as its UTF-8 bytes.\<close>

abbreviation flag_us :: string where
  "flag_us \<equiv> [CHR 0xF0, CHR 0x9F, CHR 0x87, CHR 0xBA, CHR 0xF0, CHR 0x9F, CHR 0x87, CHR 0xB8]"

abbreviation flag_es :: string where
  "flag_es \<equiv> [CHR 0xF0, CHR 0x9F, CHR 0x87, CHR 0xAA, CHR 0xF0, CHR 0x9F, CHR 0x87, CHR 0xB8]"

abbreviation flag_jp :: string where
  "flag_jp \<equiv> [CHR 0xF0, CHR 0x9F, CHR 0x87, CHR 0xAF, CHR 0xF0, CHR 0x9F, CHR 0x87, CHR 0xB5]"

abbreviation katakana_error :: string where
  "katakana_error \<equiv> [CHR 0xE3, CHR 0x82, CHR 0xA8, CHR 0xE3, CHR 0x83, CHR 0xA9,
                      CHR 0xE3, CHR 0x83, CHR 0xBC]"

text \<open>\<open>updateFlipDirectionButton\<close> (lines 510--517): the flag of the target language
  and the Japanese flag, in the order of the card direction.\<close>

definition flip_direction_caption :: "session \<Rightarrow> string" where
  "flip_direction_caption s =
     (let target_flag = (if current_language s = En then flag_us else flag_es)
      in if card_direction s = Jp_to_target
         then flag_jp @ '' '' @ glyph_right_arrow @ '' '' @ target_flag
         else target_flag @ '' '' @ glyph_right_arrow @ '' '' @ flag_jp)"

text \<open>The caption \<open>updateLanguage\<close> writes to the language button (line 521); the rest
  of \<open>updateLanguage\<close> re-renders the translated texts, the status marker, the table
  and the category panel, modelled above.\<close>

definition language_caption :: "session \<Rightarrow> string" where
  "language_caption s = (if current_language s = En then flag_us @ '' EN'' else flag_es @ '' ES'')"

text \<open>\<open>showError(message)\<close> (lines 479--483): the texts of the romaji, hiragana and
  English fields of the card.\<close>

definition show_error :: "string \<Rightarrow> string \<times> string \<times> string" where
  "show_error message = (''Error'', katakana_error, message)"

section \<open>Lemmas\<close>

lemma is_to_guess_status: "is_to_guess st \<longleftrightarrow> status_of_stat st = To_guess"
  by (simp add: is_to_guess_def status_of_stat_def split: option.split)

lemma card_status_current:
  assumes "wf_session s" and "filtered_vocabulary s \<noteq> []"
  shows "card_status s =
    Inr (to_upper_case (js_to_string (t_lookup (current_language s)
           (fst (status_marker (status_of_stat (map_of (word_stats s)
              (word_id (filtered_vocabulary s ! current_index s)))))))),
         snd (status_marker (status_of_stat (map_of (word_stats s)
              (word_id (filtered_vocabulary s ! current_index s))))))"
  using wf_index_bound [OF assms] assms(2)
  by (simp add: card_status_def split: prod.split)

lemma next_button_current:
  assumes "wf_session s" and "filtered_vocabulary s \<noteq> []"
  shows "next_button s =
    Inr (Some (if is_to_guess (map_of (word_stats s) (word_id (filtered_vocabulary s ! current_index s)))
               then (js_to_string (t_lookup (current_language s) ''skip''), ''btn-skip'')
               else (js_to_string (t_lookup (current_language s) ''next''), ''btn-secondary'')))"
  using wf_index_bound [OF assms] assms(2) by (simp add: next_button_def)

lemma snd_status_marker_to_guess: "snd (status_marker st) = ''to-guess'' \<longleftrightarrow> st = To_guess"
  by (cases st) simp_all

lemma percent_pos: "0 < c \<Longrightarrow> 0 < t \<Longrightarrow> 0 < percent c t"
  by (simp add: percent_def)

lemma percent_le_100: "c \<le> t \<Longrightarrow> 0 < t \<Longrightarrow> percent c t \<le> 100"
  by (simp add: percent_def pos_divide_le_eq)

lemma percent_eq_100: "0 < t \<Longrightarrow> percent c t = 100 \<longleftrightarrow> c = t"
  by (simp add: percent_def divide_eq_eq)

text \<open>The texts the status marker upper-cases are ASCII in both tables.\<close>

lemma status_texts_ascii:
  "list_all (\<lambda>k. list_all (\<lambda>c. of_char c < (128::nat)) (own_text (translation_tables lang) k))
     [''loading'', ''to-guess'', ''status-correct'', ''status-incorrect'', ''status-skipped'']"
  by (induct lang) code_simp+

text \<open>Each caption tells the settings apart: the flip button shows which of the four
  combinations of language and direction is current, the language button which
  language.\<close>

lemma flip_direction_caption_eq_iff:
  "flip_direction_caption s = flip_direction_caption s' \<longleftrightarrow>
   current_language s = current_language s' \<and> card_direction s = card_direction s'"
  by (cases "current_language s"; cases "current_language s'";
      cases "card_direction s"; cases "card_direction s'")
     (simp_all add: flip_direction_caption_def)

lemma language_caption_eq_iff:
  "language_caption s = language_caption s' \<longleftrightarrow> current_language s = current_language s'"
  by (cases "current_language s"; cases "current_language s'") (simp_all add: language_caption_def)

section \<open>Properties of the view\<close>

text \<open>C27: on a well-formed non-empty deck neither view handler throws, and the Next
  button offers to skip exactly when the status marker shows the card as still to guess,
  that is exactly when the current word has no answer recorded.\<close>

theorem next_button_agrees_with_marker:
  assumes "wf_session s" and "filtered_vocabulary s \<noteq> []"
  shows "\<exists>m b. card_status s = Inr m \<and> next_button s = Inr (Some b) \<and>
           (snd b = ''btn-skip'' \<longleftrightarrow> snd m = ''to-guess'') \<and>
           (snd b = ''btn-skip'' \<longleftrightarrow>
              is_to_guess (map_of (word_stats s) (word_id (filtered_vocabulary s ! current_index s))))"
  by (simp add: card_status_current [OF assms] next_button_current [OF assms]
      snd_status_marker_to_guess is_to_guess_status)

text \<open>C28: on the last card of the deck, a card still to guess shows the Skip button,
  but pressing it changes nothing: \<open>nextCard\<close> does nothing at the last position, so
  the card is neither skipped nor left.\<close>

theorem skip_button_at_last_card:
  assumes "wf_session s" and "Suc (current_index s) = length (filtered_vocabulary s)"
    and "is_to_guess (map_of (word_stats s) (word_id (filtered_vocabulary s ! current_index s)))"
  shows "next_button s = Inr (Some (js_to_string (t_lookup (current_language s) ''skip''), ''btn-skip'')) \<and>
         next_card s = Inr s"
proof -
  from assms(2) have ne: "filtered_vocabulary s \<noteq> []" by auto
  show ?thesis
    using next_button_current [OF assms(1) ne] assms(2,3) by (simp add: next_card_def)
qed

text \<open>C29: on a well-formed non-empty deck the counter shows the cursor's position
  from 1, and the progress bar is wider than 0 and at most 100 percent, full exactly at
  the last card.\<close>

theorem progress_bounds:
  assumes "wf_session s" and "filtered_vocabulary s \<noteq> []"
  shows "\<exists>w. progress_view s = (Suc (current_index s), length (filtered_vocabulary s), Some w) \<and>
             0 < w \<and> w \<le> 100 \<and> (w = 100 \<longleftrightarrow> Suc (current_index s) = length (filtered_vocabulary s))"
proof -
  let ?c = "Suc (current_index s)" and ?n = "length (filtered_vocabulary s)"
  from wf_index_bound [OF assms] have le: "?c \<le> ?n" by simp
  from assms(2) have n: "0 < ?n" by simp
  have "progress_view s = (?c, ?n, Some (percent ?c ?n))"
    using n by (simp add: progress_view_def percent_def Let_def)
  moreover have "0 < percent ?c ?n" using n by (simp add: percent_pos)
  moreover have "percent ?c ?n \<le> 100" using le n by (rule percent_le_100)
  moreover have "percent ?c ?n = 100 \<longleftrightarrow> ?c = ?n"
    using n by (rule percent_eq_100)
  ultimately show ?thesis by blast
qed

text \<open>C30: on an empty deck (no category selected) the page does not show a
  no-card state: the counter reads card 1 of 0, the progress width is the division by
  zero \<open>Infinity\<close>, and the marker reads \<open>LOADING\<close>.\<close>

theorem progress_empty_deck:
  assumes "wf_session s" and "filtered_vocabulary s = []"
  shows "progress_view s = (1, 0, None) \<and>
         card_status s = Inr (to_upper_case (js_to_string (t_lookup (current_language s) ''loading'')),
                              ''to-guess'')"
proof -
  from assms have "current_index s = 0" by (simp add: wf_session_def)
  with assms(2) show ?thesis by (simp add: progress_view_def card_status_def)
qed

end
