(* ===== verification/Export.thy ===== *)
theory Export
  imports View
begin

text \<open>
  The text of the exported file (\<open>downloadStatsCSV\<close>, lines 996--1068): the decimal
  string of a count as a template literal prints it, \<open>toFixed(1)\<close> on a percentage,
  one line per category and the \<open>TOTAL\<close> line. The Blob, the link and the file name
  (lines 1070--1100) are not modelled. Percentages are computed exactly (as in
  \<open>View.percent\<close>), and \<open>toFixed\<close> rounds a tie to the larger neighbour, as the
  ECMAScript specification of \<open>Number.prototype.toFixed\<close> prescribes.
\<close>

section \<open>Numbers as text\<close>

definition digit_char :: "nat \<Rightarrow> char" where
  "digit_char d = char_of (48 + d)"

text \<open>\<open>String(n)\<close> for a natural number below \<open>10^21\<close>: its decimal digits.\<close>

function string_of_nat :: "nat \<Rightarrow> string" where
  "string_of_nat n =
     (if n < 10 then [digit_char n] else string_of_nat (n div 10) @ [digit_char (n mod 10)])"
  by pat_completeness auto
termination by (relation "measure id") auto

declare string_of_nat.simps [simp del]

text \<open>\<open>x.toFixed(1)\<close> for \<open>x \<ge> 0\<close>: the integer \<open>n\<close> nearest to \<open>10 x\<close> (the
  larger one on a tie), printed with one decimal.\<close>

definition to_fixed1 :: "rat \<Rightarrow> string" where
  "to_fixed1 x =
     (let n = nat \<lfloor>x * 10 + 1 / 2\<rfloor> in string_of_nat (n div 10) @ ''.'' @ [digit_char (n mod 10)])"

text \<open>The value of a string of decimal digits, the inverse of \<open>string_of_nat\<close>.\<close>

definition digits_value :: "string \<Rightarrow> nat" where
  "digits_value s = foldl (\<lambda>acc c. 10 * acc + (of_char c - 48)) 0 s"

definition is_digit :: "char \<Rightarrow> bool" where
  "is_digit c \<longleftrightarrow> CHR ''0'' \<le> c \<and> c \<le> CHR ''9''"

section \<open>The file\<close>

definition csv_header :: string where
  "csv_header =
     ''Category,Total,Correct,Incorrect,Skipped,Remaining,Correct %,Incorrect %,Skipped %,Remaining %''
     @ [CHR 0x0A]"

text \<open>One line of the file (lines 1050 and 1068): the quoted label, the five counts,
  and the four percentages of the total with one decimal.\<close>

definition csv_line :: "string \<Rightarrow> category_stat \<Rightarrow> string" where
  "csv_line label x =
     [CHR 0x22] @ label @ [CHR 0x22] @ '','' @
     string_of_nat (total x) @ '','' @ string_of_nat (n_correct x) @ '','' @
     string_of_nat (n_incorrect x) @ '','' @ string_of_nat (n_skipped x) @ '','' @
     string_of_nat (n_unanswered x) @ '','' @
     to_fixed1 (percent (n_correct x) (total x)) @ ''%,'' @
     to_fixed1 (percent (n_incorrect x) (total x)) @ ''%,'' @
     to_fixed1 (percent (n_skipped x) (total x)) @ ''%,'' @
     to_fixed1 (percent (n_unanswered x) (total x)) @ ''%'' @ [CHR 0x0A]"

text \<open>\<open>csvContent\<close> (lines 1045--1069): the header, a line per category row of
  \<open>csv_category_stats\<close> labelled with \<open>this.t(category) || category\<close>, and, when
  the grand total is positive, an empty line and the \<open>TOTAL\<close> line.\<close>

definition csv_content :: "session \<Rightarrow> string" where
  "csv_content s =
     (let rows = csv_category_stats s; tot = stats_totals rows
      in csv_header @
         concat (map (\<lambda>(c, x). csv_line (category_label (current_language s) c) x) rows) @
         (if 0 < total tot then [CHR 0x0A] @ csv_line ''TOTAL'' tot else []))"

text \<open>Splitting a line at a separator, as a CSV reader does for unquoted fields.\<close>

fun split_on :: "char \<Rightarrow> string \<Rightarrow> string list" where
  "split_on sep [] = [[]]"
| "split_on sep (c # cs) =
     (if c = sep then [] # split_on sep cs
      else (case split_on sep cs of f # fs \<Rightarrow> (c # f) # fs | [] \<Rightarrow> [[c]]))"

section \<open>Lemmas\<close>

lemma digit_char_of_char: "d < 10 \<Longrightarrow> of_char (digit_char d) = 48 + d"
  by (simp add: digit_char_def)

lemma is_digit_digit_char: "d < 10 \<Longrightarrow> is_digit (digit_char d)"
  by (simp add: is_digit_def digit_char_def less_eq_char_def)

lemma digits_value_snoc: "digits_value (s @ [c]) = 10 * digits_value s + (of_char c - 48)"
  by (simp add: digits_value_def)

lemma string_of_nat_digits: "list_all is_digit (string_of_nat n)"
proof (induction n rule: string_of_nat.induct)
  case (1 n)
  then show ?case
    by (subst string_of_nat.simps) (simp add: is_digit_digit_char)
qed

lemma string_of_nat_value: "digits_value (string_of_nat n) = n"
proof (induction n rule: string_of_nat.induct)
  case (1 n)
  then show ?case
    by (subst string_of_nat.simps)
      (simp add: digits_value_snoc digit_char_of_char, simp add: digits_value_def digit_char_of_char)
qed

lemma string_of_nat_not_Nil [simp]: "string_of_nat n \<noteq> []"
  by (subst string_of_nat.simps) simp

lemma digit_char_zero_iff: "d < 10 \<Longrightarrow> digit_char d = CHR ''0'' \<longleftrightarrow> d = 0"
proof
  assume "d < 10" and "digit_char d = CHR ''0''"
  then have "48 + d = of_char (CHR ''0'')" by (metis digit_char_of_char)
  then show "d = 0" by simp
next
  assume "d = 0"
  have "of_char (digit_char 0) = (of_char (CHR ''0'') :: nat)"
    using digit_char_of_char [of 0] by simp
  with \<open>d = 0\<close> show "digit_char d = CHR ''0''" by (simp only: of_char_eq_iff)
qed

lemma digit_not_sep: "is_digit c \<Longrightarrow> c \<noteq> CHR '','' \<and> c \<noteq> CHR ''.'' \<and> c \<noteq> CHR ''%''"
  by (auto simp: is_digit_def)

lemma split_on_append_sep:
  "sep \<notin> set xs \<Longrightarrow> split_on sep (xs @ sep # ys) = xs # split_on sep ys"
  by (induction xs) (auto split: list.split)

lemma split_on_no_sep: "sep \<notin> set xs \<Longrightarrow> split_on sep xs = [xs]"
  by (induction xs) auto

lemma string_of_nat_hd: "(hd (string_of_nat n) = CHR ''0'') = (n = 0)"
proof (induction n rule: string_of_nat.induct)
  case (1 n)
  show ?case
  proof (cases "n < 10")
    case True
    then show ?thesis
      by (subst string_of_nat.simps) (simp add: digit_char_zero_iff)
  next
    case False
    then have "n div 10 \<noteq> 0" by simp
    with False "1.IH" show ?thesis
      by (subst string_of_nat.simps) simp
  qed
qed

lemma comma_not_in_string_of_nat [simp]: "CHR '','' \<notin> set (string_of_nat n)"
  using string_of_nat_digits [of n] digit_not_sep by (auto simp: list_all_iff)

lemma comma_not_in_to_fixed1 [simp]: "CHR '','' \<notin> set (to_fixed1 x)"
proof -
  have "CHR '','' \<noteq> digit_char (n mod 10)" for n
  proof -
    have "n mod 10 < 10" by simp
    then have "digit_char (n mod 10) \<noteq> CHR '',''"
      using digit_not_sep is_digit_digit_char by blast
    then show ?thesis by (rule not_sym)
  qed
  then show ?thesis by (simp add: to_fixed1_def Let_def)
qed

lemma split_on_not_Nil: "split_on sep xs \<noteq> []"
  by (induction xs) (auto split: list.split)

lemma split_on_Cons_other [simp]:
  "c \<noteq> sep \<Longrightarrow> split_on sep (c # cs) = (c # hd (split_on sep cs)) # tl (split_on sep cs)"
  using split_on_not_Nil [of sep cs] by (auto split: list.split)

lemma split_on_append_other [simp]:
  "sep \<notin> set xs \<Longrightarrow> split_on sep (xs @ ys) = (xs @ hd (split_on sep ys)) # tl (split_on sep ys)"
  using split_on_not_Nil [of sep ys] by (induction xs) auto

lemma split_on_sep_Cons [simp]: "split_on sep (sep # cs) = [] # split_on sep cs"
  by simp

declare split_on.simps(2) [simp del]

lemma to_fixed1_near:
  assumes "0 \<le> (x::rat)"
  shows "\<bar>of_nat (nat \<lfloor>x * 10 + 1 / 2\<rfloor>) / 10 - x\<bar> \<le> 1 / 20"
proof -
  let ?y = "x * 10 + 1 / 2"
  have pos: "0 \<le> \<lfloor>?y\<rfloor>" using assms by simp
  then have n: "(of_nat (nat \<lfloor>?y\<rfloor>) :: rat) = of_int \<lfloor>?y\<rfloor>" by simp
  define m where "m = (of_int \<lfloor>?y\<rfloor> :: rat)"
  have "m \<le> ?y" and "?y < m + 1"
    using floor_correct [of ?y] by (simp_all add: m_def)
  then have "m / 10 - x \<le> 1 / 20" and "- (m / 10 - x) \<le> 1 / 20" by linarith+
  then show ?thesis unfolding n m_def [symmetric] abs_le_iff by blast
qed

section \<open>Properties of the export\<close>

text \<open>Printing a count and reading the digits back gives the count: the text is
  a non-empty string of decimal digits with no leading zero (unless the count is 0).\<close>

lemma string_of_nat_roundtrip:
  "digits_value (string_of_nat n) = n \<and> list_all is_digit (string_of_nat n) \<and>
   (hd (string_of_nat n) = CHR ''0'') = (n = 0)"
  by (simp add: string_of_nat_value string_of_nat_digits string_of_nat_hd)

text \<open>For a non-negative value, \<open>toFixed(1)\<close> prints a digit string, a point and
  one digit, and the decimal it denotes is within 0.05 of the value.\<close>

lemma to_fixed1_bound:
  assumes "0 \<le> x"
  shows "\<exists>q d. d < 10 \<and> to_fixed1 x = string_of_nat q @ ''.'' @ [digit_char d] \<and>
               \<bar>of_nat (10 * q + d) / 10 - x\<bar> \<le> (1 / 20 :: rat)"
proof -
  define n where "n = nat \<lfloor>x * 10 + 1 / 2\<rfloor>"
  have e: "to_fixed1 x = string_of_nat (n div 10) @ ''.'' @ [digit_char (n mod 10)]"
    by (simp add: to_fixed1_def n_def Let_def)
  have dm: "10 * (n div 10) + n mod 10 = n" by simp
  have near0: "\<bar>of_nat n / 10 - x\<bar> \<le> (1 / 20 :: rat)"
    unfolding n_def by (rule to_fixed1_near [OF assms])
  have near: "\<bar>of_nat (10 * (n div 10) + n mod 10) / 10 - x\<bar> \<le> (1 / 20 :: rat)"
    unfolding dm by (rule near0)
  have "n mod 10 < 10" by simp
  with e near show ?thesis by blast
qed

text \<open>C31: a line of the export whose label has no comma splits at its commas into
  exactly the ten columns of the header, in order: the quoted label, the five counts, and
  the four percentages each followed by a percent sign.\<close>

theorem csv_line_fields:
  assumes "CHR '','' \<notin> set label"
  shows "split_on (CHR '','') (csv_line label x) =
    [[CHR 0x22] @ label @ [CHR 0x22], string_of_nat (total x), string_of_nat (n_correct x),
     string_of_nat (n_incorrect x), string_of_nat (n_skipped x), string_of_nat (n_unanswered x),
     to_fixed1 (percent (n_correct x) (total x)) @ ''%'',
     to_fixed1 (percent (n_incorrect x) (total x)) @ ''%'',
     to_fixed1 (percent (n_skipped x) (total x)) @ ''%'',
     to_fixed1 (percent (n_unanswered x) (total x)) @ ''%'' @ [CHR 0x0A]]"
  using assms by (simp add: csv_line_def)

end
