(* ===== verification/Shuffle_Uniform.thy ===== *)
theory Shuffle_Uniform
  imports Shuffle
begin

text \<open>
  Why \<open>shuffleCards\<close> is uniform (the contract of section 4.2 of the specification),
  without a probability space: the loop of lines 410--413 is a function of the sequence
  of indices it draws (\<open>fy_with\<close>), the indices drawn from the random source form a
  choice sequence (\<open>draw_indices\<close>, an element of \<open>choices\<close>), the choice sequences
  are in bijection with the permutations of a deck of distinct cards, and each index of
  an iteration is drawn by an interval of \<open>[0, 1)\<close> of the same length. With an
  unbiased source every choice sequence, hence every permutation, has probability
  \<open>1 / n!\<close>.
\<close>

section \<open>The loop as a function of its choices\<close>

text \<open>The loop with the index \<open>j\<close> of each iteration given: iteration \<open>i\<close> swaps
  \<open>a[i]\<close> with \<open>a[j]\<close>, for \<open>i\<close> from the last index down to 1 (lines 410--413).\<close>

fun fy_with :: "nat \<Rightarrow> nat list \<Rightarrow> 'a list \<Rightarrow> 'a list" where
  "fy_with 0 cs xs = xs"
| "fy_with (Suc i) [] xs = xs"
| "fy_with (Suc i) (j # cs) xs = fy_with i cs (swap_at (Suc i) j xs)"

text \<open>The index sequences the loop can draw from index \<open>i\<close> down: at iteration
  \<open>k\<close> an index in \<open>[0, k]\<close>.\<close>

fun choices :: "nat \<Rightarrow> nat list set" where
  "choices 0 = {[]}"
| "choices (Suc i) = (\<lambda>(j, cs). j # cs) ` ({..Suc i} \<times> choices i)"

text \<open>The indices \<open>Math.floor(Math.random() * (i + 1))\<close> (line 411) the loop draws
  from the random source, in the order it draws them.\<close>

definition draw_indices :: "nat \<Rightarrow> rat stream \<Rightarrow> nat list" where
  "draw_indices i rs = map (\<lambda>k. random_index (rs !! k) (i - k)) [0..<i]"

section \<open>Lemmas\<close>

lemma draw_indices_Suc:
  "draw_indices (Suc i) rs = random_index (shd rs) (Suc i) # draw_indices i (stl rs)"
  by (simp add: draw_indices_def upt_conv_Cons map_Suc_upt [symmetric] del: upt_Suc)

lemma fisher_yates_fy_with: "fst (fisher_yates i rs xs) = fy_with i (draw_indices i rs) xs"
  by (induction i arbitrary: rs xs) (simp_all add: draw_indices_Suc)

lemma draw_indices_choices: "random_draws rs \<Longrightarrow> draw_indices i rs \<in> choices i"
proof (induction i arbitrary: rs)
  case 0
  then show ?case by (simp add: draw_indices_def)
next
  case (Suc i)
  from random_draws_shd [OF Suc.prems] have "random_index (shd rs) (Suc i) \<le> Suc i"
    by (simp add: random_index_le)
  moreover have "draw_indices i (stl rs) \<in> choices i"
    using Suc.IH [OF random_draws_stl [OF Suc.prems]] .
  ultimately show ?case by (auto simp: draw_indices_Suc)
qed

lemma choices_Cons_iff [simp]: "j # cs \<in> choices (Suc i) \<longleftrightarrow> j \<le> Suc i \<and> cs \<in> choices i"
  by auto

lemma Nil_not_choices [simp]: "[] \<notin> choices (Suc i)"
  by auto

lemma choices_SucE:
  assumes "cs \<in> choices (Suc i)"
  obtains j cs' where "cs = j # cs'" and "j \<le> Suc i" and "cs' \<in> choices i"
  using assms by auto

declare choices.simps(2) [simp del]

lemma finite_choices: "finite (choices i)"
  by (induction i) (simp_all add: choices.simps(2))

lemma card_choices: "card (choices i) = fact (Suc i)"
proof (induction i)
  case 0
  then show ?case by simp
next
  case (Suc i)
  have "inj_on (\<lambda>(j, cs). j # cs) ({..Suc i} \<times> choices i)"
    by (auto simp: inj_on_def)
  then have "card (choices (Suc i)) = card ({..Suc i} \<times> choices i)"
    by (simp add: card_image choices.simps(2))
  also have "\<dots> = Suc (Suc i) * fact (Suc i)"
    by (simp add: card_cartesian_product Suc.IH finite_choices)
  finally show ?case by simp
qed

lemma fy_with_length [simp]: "length (fy_with i cs xs) = length xs"
  by (induction i cs xs rule: fy_with.induct) simp_all

lemma fy_with_mset:
  "cs \<in> choices i \<Longrightarrow> i < length xs \<Longrightarrow> mset (fy_with i cs xs) = mset xs"
proof (induction i cs xs rule: fy_with.induct)
  case (3 i j cs xs)
  then show ?case by simp
qed simp_all

text \<open>Iteration \<open>i\<close> and the ones after it never touch a position above \<open>i\<close>.\<close>

lemma fy_with_above:
  "cs \<in> choices i \<Longrightarrow> i < k \<Longrightarrow> fy_with i cs xs ! k = xs ! k"
proof (induction i cs xs rule: fy_with.induct)
  case (3 i j cs xs)
  then have "fy_with i cs (swap_at (Suc i) j xs) ! k = swap_at (Suc i) j xs ! k" by simp
  also have "\<dots> = xs ! k"
    using "3.prems" by (simp add: swap_at_def nth_list_update)
  finally show ?case by simp
qed simp_all

lemma distinct_mset_eq: "mset xs = mset ys \<Longrightarrow> distinct xs \<Longrightarrow> distinct ys"
  using mset_eq_imp_distinct_iff by blast

lemma swap_at_nth_first: "i < length xs \<Longrightarrow> j < length xs \<Longrightarrow> swap_at i j xs ! i = xs ! j"
  by (cases "i = j") (simp_all add: swap_at_def nth_list_update)

text \<open>Different choice sequences give different decks: the card a run leaves at the
  last position it touches is the one its first index chose.\<close>

lemma fy_with_inj:
  "distinct xs \<Longrightarrow> i < length xs \<Longrightarrow> cs \<in> choices i \<Longrightarrow> cs' \<in> choices i \<Longrightarrow>
   fy_with i cs xs = fy_with i cs' xs \<Longrightarrow> cs = cs'"
proof (induction i arbitrary: xs cs cs')
  case 0
  then show ?case by simp
next
  case (Suc i)
  from Suc.prems(3) obtain j c where cs: "cs = j # c" "j \<le> Suc i" "c \<in> choices i"
    by (rule choices_SucE)
  from Suc.prems(4) obtain j' c' where cs': "cs' = j' # c'" "j' \<le> Suc i" "c' \<in> choices i"
    by (rule choices_SucE)
  let ?x = "swap_at (Suc i) j xs" and ?x' = "swap_at (Suc i) j' xs"
  from Suc.prems(5) cs cs' have eq: "fy_with i c ?x = fy_with i c' ?x'" by simp
  have "fy_with i c ?x ! Suc i = xs ! j"
    using fy_with_above [OF cs(3), of "Suc i" ?x] Suc.prems(2) cs(2)
    by (simp add: swap_at_nth_first)
  moreover have "fy_with i c' ?x' ! Suc i = xs ! j'"
    using fy_with_above [OF cs'(3), of "Suc i" ?x'] Suc.prems(2) cs'(2)
    by (simp add: swap_at_nth_first)
  ultimately have "xs ! j = xs ! j'" using eq by simp
  with Suc.prems(1,2) cs(2) cs'(2) have jj: "j = j'"
    by (simp add: nth_eq_iff_index_eq)
  have dx: "distinct ?x"
    using distinct_mset_eq [of xs ?x] Suc.prems(1,2) cs(2) by simp
  have lx: "i < length ?x" using Suc.prems(2) by simp
  have "fy_with i c ?x = fy_with i c' ?x" using eq jj by simp
  then have "c = c'" by (rule Suc.IH [OF dx lx cs(3) cs'(3)])
  with cs cs' jj show ?case by simp
qed

lemma mset_take_eq:
  assumes "mset xs = mset ys" and "drop n xs = drop n ys"
  shows "mset (take n xs) = mset (take n ys)"
proof -
  have "mset (take n xs) + mset (drop n xs) = mset (take n ys) + mset (drop n ys)"
    using assms(1) by (metis append_take_drop_id mset_append)
  with assms(2) show ?thesis by simp
qed

text \<open>Every arrangement of the cards up to position \<open>i\<close> is reached: choose first the
  card that must end at position \<open>i\<close>.\<close>

lemma fy_with_onto:
  "i < length xs \<Longrightarrow> mset ys = mset xs \<Longrightarrow> drop (Suc i) ys = drop (Suc i) xs \<Longrightarrow>
   \<exists>cs \<in> choices i. fy_with i cs xs = ys"
proof (induction i arbitrary: xs ys)
  case 0
  have len: "length ys = length xs" using "0.prems"(2) by (metis size_mset)
  have "mset (take (Suc 0) ys) = mset (take (Suc 0) xs)"
    using "0.prems"(2,3) by (rule mset_take_eq)
  with "0.prems"(1) len have "take (Suc 0) ys = take (Suc 0) xs"
    by (cases xs; cases ys) simp_all
  with "0.prems"(3) have "ys = xs" by (metis append_take_drop_id)
  then show ?case by simp
next
  case (Suc i)
  have len: "length ys = length xs" using Suc.prems(2) by (metis size_mset)
  let ?y = "ys ! Suc i"
  have yl: "Suc i < length ys" using Suc.prems(1) len by simp
  have "?y \<in> set (take (Suc (Suc i)) ys)"
    using nth_mem [of "Suc i" "take (Suc (Suc i)) ys"] yl by simp
  then have "?y \<in> set (take (Suc (Suc i)) xs)"
    using mset_take_eq [OF Suc.prems(2,3)] by (metis set_mset_mset)
  then obtain j where j: "j < length (take (Suc (Suc i)) xs)" "take (Suc (Suc i)) xs ! j = ?y"
    by (auto simp: in_set_conv_nth)
  then have jle: "j \<le> Suc i" and xj: "xs ! j = ?y" by simp_all
  let ?x = "swap_at (Suc i) j xs"
  have jl: "j < length xs" using jle Suc.prems(1) by simp
  have "?x ! Suc i = ?y" using Suc.prems(1) jl xj by (simp add: swap_at_nth_first)
  moreover have "drop (Suc (Suc i)) ?x = drop (Suc (Suc i)) ys"
    using Suc.prems(3) jle by (simp add: swap_at_def drop_update_cancel)
  moreover have "drop (Suc i) ys = ?y # drop (Suc (Suc i)) ys"
    by (rule Cons_nth_drop_Suc [OF yl, symmetric])
  moreover have "drop (Suc i) ?x = ?x ! Suc i # drop (Suc (Suc i)) ?x"
    using Suc.prems(1) by (intro Cons_nth_drop_Suc [symmetric]) simp
  ultimately have "drop (Suc i) ys = drop (Suc i) ?x" by simp
  moreover have "mset ys = mset ?x" using Suc.prems(1,2) jl by simp
  moreover have "i < length ?x" using Suc.prems(1) by simp
  ultimately obtain cs where "cs \<in> choices i" "fy_with i cs ?x = ys"
    using Suc.IH by blast
  with jle show ?case by (intro bexI [of _ "j # cs"]) simp_all
qed

lemma fy_with_bij:
  assumes "distinct xs" and "length xs = Suc i"
  shows "bij_betw (\<lambda>cs. fy_with i cs xs) (choices i) {ys. mset ys = mset xs}"
  unfolding bij_betw_def
proof
  show "inj_on (\<lambda>cs. fy_with i cs xs) (choices i)"
    using fy_with_inj [OF assms(1)] assms(2) by (auto intro: inj_onI)
  show "(\<lambda>cs. fy_with i cs xs) ` choices i = {ys. mset ys = mset xs}"
  proof
    show "(\<lambda>cs. fy_with i cs xs) ` choices i \<subseteq> {ys. mset ys = mset xs}"
      using assms(2) by (auto simp: fy_with_mset)
    show "{ys. mset ys = mset xs} \<subseteq> (\<lambda>cs. fy_with i cs xs) ` choices i"
    proof
      fix ys assume "ys \<in> {ys. mset ys = mset xs}"
      then have m: "mset ys = mset xs" by simp
      then have "length ys = Suc i" using assms(2) by (metis size_mset)
      then have "drop (Suc i) ys = drop (Suc i) xs" using assms(2) by simp
      with m assms(2) obtain cs where "cs \<in> choices i" "fy_with i cs xs = ys"
        using fy_with_onto [of i xs ys] by auto
      then show "ys \<in> (\<lambda>cs. fy_with i cs xs) ` choices i" by blast
    qed
  qed
qed

text \<open>The draws that give index \<open>j\<close> at an iteration with bound \<open>m\<close> form an
  interval of length \<open>1 / (m + 1)\<close>.\<close>

lemma random_index_eq_iff:
  assumes "0 \<le> r"
  shows "random_index r m = j \<longleftrightarrow>
         of_nat j \<le> r * of_nat (Suc m) \<and> r * of_nat (Suc m) < of_nat j + 1"
proof -
  have "0 \<le> \<lfloor>r * of_nat (Suc m)\<rfloor>" using assms by simp
  then have "random_index r m = j \<longleftrightarrow> \<lfloor>r * of_nat (Suc m)\<rfloor> = int j"
    by (auto simp: random_index_def)
  also have "\<dots> \<longleftrightarrow> of_nat j \<le> r * of_nat (Suc m) \<and> r * of_nat (Suc m) < of_nat j + 1"
    by (simp add: floor_eq_iff)
  finally show ?thesis .
qed

lemma random_index_interval:
  assumes "j \<le> m"
  shows "{r. 0 \<le> r \<and> r < 1 \<and> random_index r m = j} =
         {of_nat j / of_nat (Suc m) ..< of_nat (Suc j) / of_nat (Suc m)}"
proof (rule set_eqI)
  fix r :: rat
  let ?M = "of_nat (Suc m) :: rat"
  have M: "0 < ?M" by simp
  have lo: "of_nat j / ?M \<le> r \<longleftrightarrow> of_nat j \<le> r * ?M" using M by (rule pos_divide_le_eq)
  have hi: "r < of_nat (Suc j) / ?M \<longleftrightarrow> r * ?M < of_nat j + 1"
    using M by (simp add: pos_less_divide_eq add.commute)
  have top: "of_nat (Suc j) / ?M \<le> 1" using assms M by (simp add: divide_le_eq_1)
  have bot: "0 \<le> of_nat j / ?M" by simp
  show "r \<in> {r. 0 \<le> r \<and> r < 1 \<and> random_index r m = j} \<longleftrightarrow>
        r \<in> {of_nat j / ?M ..< of_nat (Suc j) / ?M}"
    unfolding mem_Collect_eq atLeastLessThan_iff
  proof
    assume h: "0 \<le> r \<and> r < 1 \<and> random_index r m = j"
    then show "of_nat j / ?M \<le> r \<and> r < of_nat (Suc j) / ?M"
      using random_index_eq_iff [of r m j] lo hi by blast
  next
    assume r: "of_nat j / ?M \<le> r \<and> r < of_nat (Suc j) / ?M"
    then have r0: "0 \<le> r" using bot by (blast intro: order_trans)
    moreover have "r < 1" using r top by (blast intro: less_le_trans)
    ultimately show "0 \<le> r \<and> r < 1 \<and> random_index r m = j"
      using random_index_eq_iff [OF r0, of m j] lo hi r by blast
  qed
qed

section \<open>Uniformity\<close>

text \<open>C20: the shuffle of a deck of \<open>n = i + 1\<close> distinct cards is uniform. The loop
  is the function \<open>fy_with\<close> of the indices it draws; the drawn indices are a choice
  sequence; the choice sequences, \<open>n!\<close> of them, are in bijection with the
  permutations of the deck; and at an iteration with bound \<open>m\<close> each index
  \<open>j \<le> m\<close> is drawn by exactly the values of \<open>Math.random()\<close> in an interval of
  length \<open>1 / (m + 1)\<close>. With an unbiased source each permutation has probability
  \<open>1 / n!\<close>.\<close>

theorem fisher_yates_uniform:
  assumes "distinct xs" and "length xs = Suc i" and "random_draws rs" and "j \<le> m"
  shows "fst (fisher_yates i rs xs) = fy_with i (draw_indices i rs) xs \<and>
         draw_indices i rs \<in> choices i \<and>
         bij_betw (\<lambda>cs. fy_with i cs xs) (choices i) {ys. mset ys = mset xs} \<and>
         card (choices i) = fact (Suc i) \<and>
         {r. 0 \<le> r \<and> r < 1 \<and> random_index r m = j} =
           {of_nat j / of_nat (Suc m) ..< of_nat (Suc j) / of_nat (Suc m)}"
  by (intro conjI fisher_yates_fy_with draw_indices_choices [OF assms(3)]
      fy_with_bij [OF assms(1,2)] card_choices random_index_interval [OF assms(4)])

end
