(* ===== verification/Spec2Isabelle.thy ===== *)
theory Spec2Isabelle
  imports Progress Export Shuffle_Uniform
begin

text \<open>
  \<^bold>\<open>Verification of the vocabulary-card session engine of \<open>src/script.js\<close>.\<close>

  \<^bold>\<open>The program.\<close> One class, \<open>VocabularyCards\<close>, holds the whole state of a
  flash-card page: the word list loaded once from \<open>vocabulary.json\<close>
  (\<open>vocabulary\<close>), the sorted category list derived from it
  (\<open>availableCategories\<close>), the selected categories, the deck derived from them
  (\<open>filteredVocabulary\<close>), a cursor into the deck (\<open>currentIndex\<close>), a map from
  word id to statistic (\<open>wordStats\<close>, a value \<open>{correct, skipped}\<close>), and three
  display flags (flip state, language, card direction). The page's buttons, checkboxes
  and keys call its handlers; each handler updates the fields and re-renders the DOM.
  \<open>markWord\<close> schedules \<open>goToNextUnansweredCard\<close> 500 ms later with
  \<open>setTimeout\<close>; every other handler runs to completion at once. The handlers only
  become reachable after \<open>init\<close> has awaited the fetch of the word list and attached
  the listeners. A constant table of captions in two languages is read by \<open>t(key)\<close>;
  the view (status marker, Next/Skip button, progress bar, statistics table) and the
  exported CSV file are computed from the fields.

  \<^bold>\<open>The model.\<close> A shallow embedding: the object's fields are the record
  \<open>session\<close>, each handler a function from a session to \<open>js_error + session\<close>
  (\<open>Inl Type_error\<close> where the code would read a property of \<open>undefined\<close>), each
  loop a recursive function. DOM writes are not modelled as writes: what a handler
  writes (texts, classes, widths) is the value of a function of the session.
  \<^item> \<open>Prelude\<close>: the JavaScript array read \<open>nth_opt\<close>, the destructuring swap
    \<open>swap_at\<close>, the \<open>Map\<close> operations as association lists (\<open>AList.update\<close>,
    \<open>map_of\<close>), and the list, multiset and sum lemmas the components share.
  \<^item> \<open>Vocabulary\<close>: the records \<open>word\<close> and \<open>word_stat\<close>; the three
    classifications of a statistic the code makes (\<open>is_to_guess\<close> of
    \<open>markAsSkippedIfUnanswered\<close>/\<open>goToNextUnansweredCard\<close>, \<open>status_of_stat\<close>
    of \<open>updateCardStatus\<close>, \<open>stat_outcome\<close> of the statistics counters); the
    specification's four-valued \<open>outcome\<close> and its representation
    \<open>stat_of_outcome\<close>; \<open>categories_of\<close> (line 187).
  \<^item> \<open>Deck\<close>: the record \<open>session\<close>, \<open>new_session\<close> (the constructor),
    \<open>load_vocabulary\<close>, \<open>update_filtered_vocabulary\<close>, \<open>display_card\<close> (its
    state effect), \<open>on_category_change\<close>, \<open>select_all_categories\<close>,
    \<open>select_no_categories\<close>, \<open>reset_stats\<close>; the invariant \<open>wf_session\<close>.
  \<^item> \<open>Navigation\<close>: \<open>previous_card\<close>, \<open>next_card\<close>,
    \<open>mark_as_skipped_if_unanswered\<close>, \<open>mark_word\<close>, the two scan loops of
    \<open>goToNextUnansweredCard\<close> as \<open>scan_unanswered\<close> (a \<open>function\<close> with the
    measure \<open>hi - i\<close>), \<open>go_to_next_unanswered_card\<close>, and
    \<open>mark_and_advance\<close> (the mark followed at once by its timer callback).
  \<^item> \<open>Shuffle\<close>: \<open>random_index\<close> (\<open>Math.floor(Math.random() * (i + 1))\<close>),
    the Fisher--Yates loop \<open>fisher_yates\<close> and \<open>shuffle_cards\<close>. The values of
    \<open>Math.random()\<close> are an explicit stream of rationals in \<open>[0, 1)\<close>
    (\<open>random_draws\<close>), consumed one per iteration; the floating-point product is
    taken exactly.
  \<^item> \<open>Shuffle_Uniform\<close>: the loop as a function \<open>fy_with\<close> of the index sequence it
    draws (\<open>draw_indices\<close>), and the set \<open>choices\<close> of the sequences that one run
    can draw, for the uniformity of the shuffle.
  \<^item> \<open>Stats\<close>: \<open>category_stats\<close> (the counters of one category),
    \<open>update_stats_rows\<close> (the table), \<open>csv_category_stats\<close> (the export's rows),
    \<open>stats_totals\<close> (the export's grand total).
  \<^item> \<open>Engine\<close>: \<open>flip_card\<close>, \<open>toggle_language\<close>,
    \<open>toggle_flip_direction\<close>, \<open>card_face\<close> (the texts of \<open>displayCard\<close>), the
    \<open>command\<close>s the page forwards, \<open>key_command\<close> (the keyboard handler),
    \<open>handle_command\<close> and \<open>run_commands\<close>, with the random source threaded through.
  \<^item> \<open>Events\<close>: the page as an event machine \<open>app_step\<close> over the record
    \<open>app\<close> (phase of \<open>init\<close>, session, number of pending \<open>markWord\<close> timers,
    random source): the fetch outcome, user inputs (ignored until the load succeeded) and
    timer firings are events; \<open>mark_event\<close> and \<open>timer_event\<close> split
    \<open>markWord\<close> at its \<open>setTimeout\<close>; the ticked category boxes are a field
    (\<open>checked\<close>), set by \<open>setupCategoryUI\<close>, \<open>updateCategoryCheckboxes\<close>, the
    tick-all loops of \<open>shuffleCards\<close> and \<open>resetStats\<close> and the box's own change
    event (\<open>sync_checkboxes\<close>, \<open>checkbox_effect\<close>, \<open>dispatch\<close>);
    \<open>reachable_app\<close> is the inductive set of states the page reaches from its
    constructor.
  \<^item> \<open>Translation\<close>: the two caption tables \<open>en_table\<close> and \<open>es_table\<close>
    (lines 17--134; non-ASCII characters as their UTF-8 bytes), property access on an
    object literal with the members it inherits from \<open>Object.prototype\<close>
    (\<open>get_prop\<close>), the falsy test of \<open>||\<close>, \<open>t(key)\<close> as \<open>t_lookup\<close>, and
    \<open>category_label\<close> (\<open>this.t(category) || category\<close>).
  \<^item> \<open>View\<close>: \<open>card_status\<close> (\<open>updateCardStatus\<close>), \<open>next_button\<close>
    (\<open>updateNavigationButtons\<close>), \<open>progress_view\<close> (\<open>updateProgress\<close>),
    \<open>progress_segments\<close> and \<open>stats_table\<close> (the table of \<open>updateStats\<close>),
    \<open>category_panel\<close> (the texts and boxes of \<open>setupCategoryUI\<close>),
    \<open>flip_direction_caption\<close> (\<open>updateFlipDirectionButton\<close>),
    \<open>language_caption\<close> (the button caption of \<open>updateLanguage\<close>) and
    \<open>show_error\<close> (\<open>showError\<close>); flags and katakana as their UTF-8 bytes.
  \<^item> \<open>Export\<close>: \<open>string_of_nat\<close> (a number in a template literal),
    \<open>to_fixed1\<close> (\<open>toFixed(1)\<close>), \<open>csv_line\<close> and \<open>csv_content\<close> (the text
    of \<open>downloadStatsCSV\<close>), with a reader (\<open>digits_value\<close>, \<open>split_on\<close>)
    for the round trips.
  \<^item> \<open>Progress\<close>: how marking moves through the deck, across Navigation, Stats,
    Engine and Events: the number of cards still to guess (\<open>unanswered_count\<close>),
    \<open>deck_done\<close>, the relation \<open>keeps_answers\<close> between two statistics maps, and
    \<open>counter\<close> (the field of a table row an outcome increments).
  \<^item> This theory: the properties that span components and the witnesses of the
    properties with hypotheses, on the fixtures \<open>five_words\<close>, \<open>three_words\<close>,
    \<open>demo_session\<close>, \<open>tw_loaded\<close>, \<open>tw_app\<close> and those derived from them.

  \<^bold>\<open>What is proved.\<close> The session invariant \<open>wf_session\<close> (category list
  derived from the vocabulary; deck a permutation of the words of the selected
  categories; cursor inside the deck, 0 on an empty one; every stored statistic one of
  the two values the code writes and keyed by a word of the deck) holds after loading
  and after every command, and no command throws from it (C1). Each handler's effect
  on every branch: the category handlers rebuild and clear (C2, C10, C11), marking
  overwrites (C3), the automatic skip never downgrades and is idempotent (C4), moving
  forward skips and moving back does not (C5, C9), the scan loops compute a reference
  search over the cards after and then before the cursor (C6, C7), the shuffle permutes
  the whole vocabulary and consumes one draw per iteration (C8).

  Of the statistics: the export's grand total counts exactly the deck's cards (C12);
  each counter of a row counts the category's words with that outcome (C13); a mark
  moves exactly one count, from the card's old outcome to its new one, in its category's
  row and in no other (C14); the grand total sums the rows (C15); the table and the
  export have the same rows (C16). The code's classifications agree with the four-valued
  outcome, which round-trips through the stored values (C17, C18); the category list is
  the sorted set of categories (C19). The shuffle is uniform: on \<open>n\<close> distinct cards
  its \<open>n!\<close> possible index sequences are in bijection with the permutations of the
  deck, and each index of an iteration with bound \<open>i\<close> is drawn by an interval of
  \<open>Math.random()\<close> values of length \<open>1 / (i + 1)\<close>, so an unbiased source gives
  each permutation probability \<open>1 / n!\<close> (C20).

  Of the marking loop: \<open>n + 1\<close> marks with their auto-advance answer every card of an
  \<open>n\<close>-card deck, because the auto-advance never strands a card still to guess
  (C21, by induction on \<open>unanswered_count\<close>); no navigation command loses an answer
  (C22); two marks within the 500 ms lose the first answer and pass over a card still to
  guess (C23, a finding). Of the event machine: every reachable state satisfies its
  invariant (a loaded page holds a well-formed session and its ticked category boxes
  are the selection, inputs before the load are ignored) by rule induction (C24); a
  mark followed by its timer, with nothing in between, refines the logical step
  \<open>mark_and_advance\<close> (C25). Of the captions: the fallback chain of \<open>t\<close> (C26);
  the lemmas \<open>code_keys_translated\<close> and \<open>t_lookup_inherited_key\<close> evaluate the
  constant tables (the latter shows the inherited-key finding). Of the view: the Next
  button says Skip exactly when the marker says To Guess (C27), but does nothing on the
  last card (C28, a finding); the progress bar stays in \<open>(0, 100]\<close> (C29) but reads
  card 1 of 0 and \<open>Infinity\<close> on an empty deck (C30, a finding). Of the export: a CSV
  line has the header's ten columns in order (C31). The toolbar's captions tell the
  language and direction settings apart and follow the two toggles (lemmas
  \<open>toggle_language_captions\<close>, \<open>toggle_flip_direction_captions\<close>).

  \<^bold>\<open>Bounds and fuel.\<close> No fuel is used: every loop of the code is bounded by
  the deck's length and is a \<open>fun\<close> or a \<open>function\<close> with a measure (the scan
  loops by \<open>hi - i\<close>, whose \<open>termination\<close> proof is in \<open>Navigation\<close>; the digit
  printer by the number itself); the random source is infinite, so the shuffle always
  has a draw. The bound \<open>n + 1\<close> of C21 is enough: the first mark may fall on a card
  already answered, and every later mark answers a card still to guess. Counts and
  indices are unbounded naturals; they stay far below \<open>2^53\<close>, where JavaScript
  doubles are exact for integers.

  \<^bold>\<open>Not modelled.\<close> The DOM and CSS writes themselves, the notifications and
  animations (\<open>showNotification\<close>, \<open>addCardTransition\<close>), the checkbox elements
  themselves (their ticks and texts are modelled), and the Blob, link and file name of
  the download: they only write to the page and the program never reads them back; the
  values they write are modelled. The CSS selectors built from category names without
  escaping (lines 400, 619, 963) are not modelled: \<open>checkbox_effect\<close> ticks every
  box, where a category containing a double quote makes \<open>querySelector\<close> throw (a
  finding). The statistics object \<open>categoryStats\<close> is an association list in
  \<open>availableCategories\<close> order; the object semantics that drop a category named
  \<open>__proto__\<close> and order integer-like keys first are not modelled (a finding).
  \<open>toUpperCase\<close> is modelled on ASCII letters only; the texts it is applied to in the
  code are ASCII in both tables. \<open>Math.random\<close> is modelled by its range; its
  distribution enters only through the interval lengths of C20, as no measure theory is
  available in the library theories used. Floating-point rounding is not modelled:
  divisions, the percentages and \<open>toFixed(1)\<close> are taken on the exact rational
  value. The JavaScript doubles can differ in the last place, so the model's bar widths
  add up to exactly 100 where the page's may add up to 99.99999999999999, and a tie such
  as 23 of 80 (28.75 percent) prints as 28.8 in the model and 28.7 in the page (a
  finding). No property of the development depends on such a last-place difference
  except through \<open>to_fixed1\<close>'s text, which C31 treats as an opaque column.
\<close>

section \<open>Fixtures\<close>

text \<open>Words for the witnesses; only the identifier and the category matter to the
  engine.\<close>

definition mk_word :: "string \<Rightarrow> string \<Rightarrow> word" where
  "mk_word i c = \<lparr>word_id = i, category = c, romaji = i, hiragana = i, english = i, spanish = None\<rparr>"

definition five_words :: "word list" where
  "five_words = [mk_word ''red'' ''colors'', mk_word ''dog'' ''animals'', mk_word ''blue'' ''colors'',
                 mk_word ''cat'' ''animals'', mk_word ''green'' ''colors'']"

definition three_words :: "word list" where
  "three_words = [mk_word ''one'' ''quantity'', mk_word ''two'' ''quantity'', mk_word ''three'' ''quantity'']"

definition demo_session :: session where
  "demo_session = load_vocabulary five_words new_session"

text \<open>The page after a successful load of \<open>five_words\<close>, no timer pending.\<close>

definition demo_app :: app where
  "demo_app = \<lparr>phase = Ready, sess = demo_session, pending = 0, draws = sconst 0,
                checked = sync_checkboxes demo_session\<rparr>"

text \<open>The session right after a successful load of \<open>three_words\<close>.\<close>

definition tw_loaded :: session where
  "tw_loaded = load_vocabulary three_words new_session"

text \<open>The page right after that load, no timer pending.\<close>

definition tw_app :: app where
  "tw_app = \<lparr>phase = Ready, sess = tw_loaded, pending = 0, draws = sconst 0,
              checked = sync_checkboxes tw_loaded\<rparr>"

text \<open>The demo session with the cursor on its last card, the demo session with no
  category selected, and a table row of three words.\<close>

definition demo_last :: session where
  "demo_last = demo_session\<lparr>current_index := 4\<rparr>"

definition demo_empty :: session where
  "demo_empty = demo_session\<lparr>selected_categories := {}, filtered_vocabulary := []\<rparr>"

definition row_stat :: category_stat where
  "row_stat = \<lparr>total = 3, n_correct = 1, n_incorrect = 1, n_skipped = 0, n_unanswered = 1\<rparr>"

section \<open>Properties spanning the components\<close>

lemma demo_session_eq:
  "demo_session =
   \<lparr>vocabulary = five_words, filtered_vocabulary = five_words, current_index = 0,
    is_flipped = False, current_language = En, selected_categories = {''colors'', ''animals''},
    available_categories = categories_of five_words, card_direction = Jp_to_target,
    word_stats = []\<rparr>"
  unfolding demo_session_def load_vocabulary_eq
  by (auto simp: new_session_def five_words_def mk_word_def)

lemma demo_words [simp]:
  "five_words = [mk_word ''red'' ''colors'', mk_word ''dog'' ''animals'', mk_word ''blue'' ''colors'',
                 mk_word ''cat'' ''animals'', mk_word ''green'' ''colors'']"
  by (simp add: five_words_def)

lemma demo_session_wf: "wf_session demo_session"
  unfolding demo_session_def by (rule load_vocabulary_wf)

lemma run_commands_ok:
  "wf_session s \<Longrightarrow> random_draws rs \<Longrightarrow>
   \<exists>s' rs'. run_commands cs (s, rs) = Inr (s', rs') \<and> wf_session s' \<and> random_draws rs'"
proof (induction cs arbitrary: s rs)
  case Nil
  then show ?case by simp
next
  case (Cons c cs)
  from handle_command_ok [OF Cons.prems] obtain s1 rs1 where
    step: "handle_command c (s, rs) = Inr (s1, rs1)" and "wf_session s1" and "random_draws rs1"
    by blast
  with Cons.IH show ?case by simp
qed

text \<open>C1: from a well-formed session, with a random source that returns values in
  \<open>[0, 1)\<close>, any sequence of user commands runs without an exception and ends in a
  well-formed session: the deck is a permutation of the words of the selected
  categories, the cursor is inside the deck (0 on an empty deck), every statistic is one
  the code writes and belongs to a word of the deck.\<close>

theorem commands_keep_invariant:
  assumes "wf_session s" and "random_draws rs"
  shows "\<exists>s' rs'. run_commands cs (s, rs) = Inr (s', rs') \<and> wf_session s'"
  using run_commands_ok [OF assms] by blast

theorem commands_keep_invariant_witness:
  "wf_session (load_vocabulary five_words new_session) \<and> random_draws (sconst 0) \<and>
   (\<exists>s' rs'. run_commands [Mark True, Shuffle, Category ''animals'' False, Next]
               (load_vocabulary five_words new_session, sconst 0) = Inr (s', rs') \<and>
             wf_session s')"
proof -
  have d: "random_draws (sconst 0)" by (simp add: random_draws_def)
  show ?thesis
    using commands_keep_invariant [OF load_vocabulary_wf d] load_vocabulary_wf d by blast
qed

text \<open>C12: the grand total of the exported statistics counts exactly the cards of
  the deck: its total is the deck's length and each counter is the number of cards of the
  deck with that outcome.\<close>

theorem export_totals_match_deck:
  assumes "wf_session s"
  shows "stats_totals (csv_category_stats s) =
    \<lparr>total = length (filtered_vocabulary s),
     n_correct = count_outcome (word_stats s) Correct (filtered_vocabulary s),
     n_incorrect = count_outcome (word_stats s) Incorrect (filtered_vocabulary s),
     n_skipped = count_outcome (word_stats s) Skipped (filtered_vocabulary s),
     n_unanswered = count_outcome (word_stats s) Unanswered (filtered_vocabulary s)\<rparr>"
proof -
  let ?cs = "filter (\<lambda>c. c \<in> selected_categories s) (available_categories s)"
  let ?d = "deck_of s" and ?f = "filtered_vocabulary s" and ?st = "word_stats s"
  from assms have dist: "distinct ?cs"
    by (simp add: wf_session_def categories_of_def distinct_unique_first)
  from assms have cover: "\<And>w. w \<in> set ?d \<Longrightarrow> category w \<in> set ?cs"
    by (auto simp: wf_session_def deck_of_def)
  from assms have perm: "mset ?f = mset ?d" by (simp add: wf_session_def)
  have rows: "csv_category_stats s = update_stats_rows s"
    by (simp add: csv_category_stats_def update_stats_rows_def csv_rows_eq_filter)
  have count: "(\<Sum>c\<leftarrow>?cs. count_outcome ?st oc (filter (\<lambda>w. category w = c) ?d)) =
               count_outcome ?st oc ?f" for oc
    using sum_categories_count [OF dist cover] count_outcome_mset [OF perm] by simp
  have len: "(\<Sum>c\<leftarrow>?cs. length (filter (\<lambda>w. category w = c) ?d)) = length ?f"
    using sum_categories_length [OF dist cover] length_mset_eq [OF perm] by simp
  have field: "(\<Sum>r\<leftarrow>update_stats_rows s. g (snd r)) = (\<Sum>c\<leftarrow>?cs. g (category_stats s c))"
    if "g = total \<or> g = n_correct \<or> g = n_incorrect \<or> g = n_skipped \<or> g = n_unanswered" for g
    using that by (intro rows_sum_field) (auto dest: zero_total_counters)
  show ?thesis
    unfolding rows stats_totals_def foldl_add_stat
    by (simp add: field zero_stat_def comp_def category_stats_eq Let_def count len)
qed

theorem export_totals_match_deck_witness:
  "wf_session demo_session \<and>
   stats_totals (csv_category_stats demo_session) =
    \<lparr>total = length (filtered_vocabulary demo_session),
     n_correct = count_outcome (word_stats demo_session) Correct (filtered_vocabulary demo_session),
     n_incorrect = count_outcome (word_stats demo_session) Incorrect (filtered_vocabulary demo_session),
     n_skipped = count_outcome (word_stats demo_session) Skipped (filtered_vocabulary demo_session),
     n_unanswered = count_outcome (word_stats demo_session) Unanswered (filtered_vocabulary demo_session)\<rparr>"
  using export_totals_match_deck [OF demo_session_wf] demo_session_wf by blast

text \<open>The toolbar follows the toggles: \<open>toggleLanguage\<close> ends with
  \<open>updateLanguage\<close> and \<open>updateFlipDirectionButton\<close>, and both captions change;
  \<open>toggleFlipDirection\<close> changes the flip button's caption and keeps the language
  button's.\<close>

lemma toggle_language_captions:
  "toggle_language s = Inr s' \<Longrightarrow>
   language_caption s' \<noteq> language_caption s \<and> flip_direction_caption s' \<noteq> flip_direction_caption s"
  by (cases "current_language s")
     (auto simp: toggle_language_def display_card_Inr_iff language_caption_eq_iff
        flip_direction_caption_eq_iff)

lemma toggle_flip_direction_captions:
  "toggle_flip_direction s = Inr s' \<Longrightarrow>
   language_caption s' = language_caption s \<and> flip_direction_caption s' \<noteq> flip_direction_caption s"
  by (cases "card_direction s")
     (auto simp: toggle_flip_direction_def display_card_Inr_iff language_caption_eq_iff
        flip_direction_caption_eq_iff)

section \<open>Witnesses\<close>

text \<open>Each theorem with a hypothesis, applied where the hypothesis holds.\<close>

theorem reset_stats_result_witness:
  "available_categories demo_session = categories_of (vocabulary demo_session) \<and>
   (\<exists>s'. reset_stats demo_session = Inr s' \<and> filtered_vocabulary s' = vocabulary demo_session \<and>
      selected_categories s' = category ` set (vocabulary demo_session) \<and>
      word_stats s' = [] \<and> current_index s' = 0)"
proof -
  have h: "available_categories demo_session = categories_of (vocabulary demo_session)"
    by (simp add: demo_session_eq)
  show ?thesis using reset_stats_result [OF h] h by blast
qed

theorem mark_word_overwrites_witness:
  "current_index (demo_session\<lparr>word_stats := [(''red'', skipped_stat)]\<rparr>) <
     length (filtered_vocabulary (demo_session\<lparr>word_stats := [(''red'', skipped_stat)]\<rparr>)) \<and>
   (\<exists>s'. mark_word True (demo_session\<lparr>word_stats := [(''red'', skipped_stat)]\<rparr>) = Inr s' \<and>
      stat_outcome (map_of (word_stats s') ''red'') = Correct)"
proof -
  let ?s = "demo_session\<lparr>word_stats := [(''red'', skipped_stat)]\<rparr>"
  have h: "current_index ?s < length (filtered_vocabulary ?s)"
    by (simp add: demo_session_eq)
  have w: "word_id (filtered_vocabulary demo_session ! current_index demo_session) = ''red''"
    by (simp add: demo_session_eq mk_word_def)
  show ?thesis using mark_word_overwrites [OF h, of True] h by (auto simp: w)
qed

theorem skip_idempotent_no_downgrade_witness:
  "mark_as_skipped_if_unanswered demo_session =
     Inr (demo_session\<lparr>word_stats := [(''red'', skipped_stat)]\<rparr>) \<and>
   mark_as_skipped_if_unanswered (demo_session\<lparr>word_stats := [(''red'', skipped_stat)]\<rparr>) =
     Inr (demo_session\<lparr>word_stats := [(''red'', skipped_stat)]\<rparr>)"
proof -
  have h: "mark_as_skipped_if_unanswered demo_session =
           Inr (demo_session\<lparr>word_stats := [(''red'', skipped_stat)]\<rparr>)"
    by (simp add: mark_as_skipped_if_unanswered_def demo_session_eq mk_word_def)
  show ?thesis using skip_idempotent_no_downgrade [OF h] h by blast
qed

theorem next_card_skips_witness:
  "Suc (current_index demo_session) < length (filtered_vocabulary demo_session) \<and>
   (\<exists>s'. next_card demo_session = Inr s' \<and> current_index s' = 1 \<and>
      map_of (word_stats s') ''red'' = Some skipped_stat)"
proof -
  have h: "Suc (current_index demo_session) < length (filtered_vocabulary demo_session)"
    by (simp add: demo_session_eq)
  have w: "word_id (filtered_vocabulary demo_session ! 0) = ''red''"
    and st: "word_stats demo_session = []" and i: "current_index demo_session = 0"
    by (simp_all add: demo_session_eq mk_word_def)
  show ?thesis using next_card_skips [of demo_session] h by (auto simp: Let_def w st i)
qed

theorem previous_card_no_skip_witness:
  "wf_session (demo_session\<lparr>current_index := 2\<rparr>) \<and>
   (\<exists>s'. previous_card (demo_session\<lparr>current_index := 2\<rparr>) = Inr s' \<and>
      word_stats s' = [] \<and> current_index s' = 1)"
proof -
  have h: "wf_session (demo_session\<lparr>current_index := 2\<rparr>)"
    using demo_session_wf by (rule wf_session_index [rotated]) (simp add: demo_session_eq)
  from previous_card_no_skip [OF h] obtain s' where
    "previous_card (demo_session\<lparr>current_index := 2\<rparr>) = Inr s'"
    "word_stats s' = word_stats demo_session" "current_index s' = 1"
    by auto
  moreover have "word_stats demo_session = []" by (simp add: demo_session_eq)
  ultimately show ?thesis using h by auto
qed

theorem go_to_next_unanswered_refines_witness:
  "wf_session demo_session \<and>
   go_to_next_unanswered_card demo_session =
    (case next_unanswered_index (filtered_vocabulary demo_session) (word_stats demo_session)
            (current_index demo_session) of
       Some j \<Rightarrow> Inr (demo_session\<lparr>current_index := j, is_flipped := False\<rparr>)
     | None \<Rightarrow> next_card demo_session)"
  using go_to_next_unanswered_refines [OF demo_session_wf] demo_session_wf by blast

theorem auto_advance_target_witness:
  "wf_session demo_session \<and> filtered_vocabulary demo_session \<noteq> [] \<and>
   go_to_next_unanswered_card demo_session = Inr (demo_session\<lparr>current_index := 1\<rparr>) \<and>
   current_index (demo_session\<lparr>current_index := 1\<rparr>) \<noteq> current_index demo_session \<and>
   unanswered_at (filtered_vocabulary demo_session) (word_stats demo_session) 1"
proof -
  have ne: "filtered_vocabulary demo_session \<noteq> []" by (simp add: demo_session_eq)
  have go: "go_to_next_unanswered_card demo_session = Inr (demo_session\<lparr>current_index := 1\<rparr>)"
    by (simp add: go_to_next_unanswered_eq demo_session_eq next_unanswered_index_def
        unanswered_at_def mk_word_def)
  have "(current_index (demo_session\<lparr>current_index := 1\<rparr>) \<noteq> current_index demo_session \<and>
         unanswered_at (filtered_vocabulary demo_session) (word_stats demo_session)
           (current_index (demo_session\<lparr>current_index := 1\<rparr>))) \<or>
        (\<forall>k < length (filtered_vocabulary demo_session). k \<noteq> current_index demo_session \<longrightarrow>
           \<not> unanswered_at (filtered_vocabulary demo_session) (word_stats demo_session) k)"
    by (rule auto_advance_target [OF demo_session_wf ne go])
  moreover have "\<not> (\<forall>k < length (filtered_vocabulary demo_session). k \<noteq> current_index demo_session \<longrightarrow>
           \<not> unanswered_at (filtered_vocabulary demo_session) (word_stats demo_session) k)"
    by (auto simp: demo_session_eq unanswered_at_def)
  ultimately show ?thesis using demo_session_wf ne go by simp
qed

theorem shuffle_cards_result_witness:
  "available_categories demo_session = categories_of (vocabulary demo_session) \<and>
   random_draws (sconst 0) \<and>
   (\<exists>s' rs'. shuffle_cards (sconst 0) demo_session = Inr (s', rs') \<and>
      mset (filtered_vocabulary s') = mset (vocabulary demo_session) \<and>
      selected_categories s' = category ` set (vocabulary demo_session) \<and>
      word_stats s' = [] \<and> current_index s' = 0 \<and>
      rs' = sdrop (length (vocabulary demo_session) - 1) (sconst 0))"
proof -
  have h: "available_categories demo_session = categories_of (vocabulary demo_session)"
    by (simp add: demo_session_eq)
  have d: "random_draws (sconst 0)" by (simp add: random_draws_def)
  show ?thesis using shuffle_cards_result [OF h d] h d by blast
qed

theorem fisher_yates_uniform_witness:
  "distinct [1, 2, 3 :: nat] \<and> length [1, 2, 3 :: nat] = Suc 2 \<and>
   random_draws (sconst (1 / 2)) \<and> (1 :: nat) \<le> 2 \<and>
   fst (fisher_yates 2 (sconst (1 / 2)) [1, 2, 3 :: nat]) =
     fy_with 2 (draw_indices 2 (sconst (1 / 2))) [1, 2, 3] \<and>
   draw_indices 2 (sconst (1 / 2)) \<in> choices 2 \<and>
   bij_betw (\<lambda>cs. fy_with 2 cs [1, 2, 3 :: nat]) (choices 2)
     {ys. mset ys = mset [1, 2, 3 :: nat]} \<and>
   card (choices 2) = fact (Suc 2) \<and>
   {r. 0 \<le> r \<and> r < 1 \<and> random_index r 2 = 1} =
     {of_nat 1 / of_nat (Suc 2) ..< of_nat (Suc 1) / of_nat (Suc 2)}"
proof -
  have h1: "distinct [1, 2, 3 :: nat]" by simp
  have h2: "length [1, 2, 3 :: nat] = Suc 2" by simp
  have h3: "random_draws (sconst (1 / 2))" by (simp add: random_draws_def)
  have h4: "(1 :: nat) \<le> 2" by simp
  show ?thesis using Shuffle_Uniform.fisher_yates_uniform [OF h1 h2 h3 h4] h1 h2 h3 h4
    by blast
qed

theorem mark_then_timer_refines_witness:
  "phase demo_app = Ready \<and> pending demo_app = 0 \<and> wf_session (sess demo_app) \<and>
   (\<exists>s'. mark_and_advance True (sess demo_app) = Inr s' \<and>
      app_step Timer (app_step (Input (Mark True)) demo_app) = demo_app\<lparr>sess := s'\<rparr>)"
proof -
  have h1: "phase demo_app = Ready" and h2: "pending demo_app = 0"
    by (simp_all add: demo_app_def)
  have h3: "wf_session (sess demo_app)"
    by (simp add: demo_app_def demo_session_wf)
  show ?thesis using Events.mark_then_timer_refines [OF h1 h2 h3, of True] h1 h2 h3 by blast
qed

lemma tw_loaded_fields:
  "filtered_vocabulary tw_loaded = three_words" "current_index tw_loaded = 0"
  "word_stats tw_loaded = []" "is_flipped tw_loaded = False"
  unfolding tw_loaded_def load_vocabulary_eq by (simp_all add: new_session_def)

lemma three_words_ids:
  "length three_words = 3" "map word_id three_words = [''one'', ''two'', ''three'']"
  "three_words \<noteq> []"
  by (simp_all add: three_words_def mk_word_def)

theorem double_mark_passes_card_witness:
  "phase tw_app = Ready \<and> pending tw_app = 0 \<and> wf_session (sess tw_app) \<and>
   distinct (map word_id (filtered_vocabulary (sess tw_app))) \<and>
   1 < length (filtered_vocabulary (sess tw_app)) \<and> 2 < length (filtered_vocabulary (sess tw_app)) \<and>
   (1 :: nat) \<noteq> 2 \<and> 1 \<noteq> current_index (sess tw_app) \<and> 2 \<noteq> current_index (sess tw_app) \<and>
   unanswered_at (filtered_vocabulary (sess tw_app)) (word_stats (sess tw_app)) 1 \<and>
   unanswered_at (filtered_vocabulary (sess tw_app)) (word_stats (sess tw_app)) 2 \<and>
   filtered_vocabulary (sess (app_run [Input (Mark True), Input (Mark False), Timer, Timer] tw_app)) =
     filtered_vocabulary (sess tw_app) \<and>
   pending (app_run [Input (Mark True), Input (Mark False), Timer, Timer] tw_app) = 0 \<and>
   map_of (word_stats (sess (app_run [Input (Mark True), Input (Mark False), Timer, Timer] tw_app))) =
     (map_of (word_stats (sess tw_app)))
       (word_id (filtered_vocabulary (sess tw_app) ! current_index (sess tw_app)) \<mapsto> answered_stat False) \<and>
   current_index (sess (app_run [Input (Mark True), Input (Mark False), Timer] tw_app)) \<noteq>
     current_index (sess tw_app) \<and>
   unanswered_at (filtered_vocabulary (sess tw_app))
     (word_stats (sess (app_run [Input (Mark True), Input (Mark False), Timer, Timer] tw_app)))
     (current_index (sess (app_run [Input (Mark True), Input (Mark False), Timer] tw_app))) \<and>
   current_index (sess (app_run [Input (Mark True), Input (Mark False), Timer, Timer] tw_app)) \<noteq>
     current_index (sess (app_run [Input (Mark True), Input (Mark False), Timer] tw_app))"
proof -
  have h1: "phase tw_app = Ready" and h2: "pending tw_app = 0" by (simp_all add: tw_app_def)
  have h3: "wf_session (sess tw_app)"
    unfolding tw_app_def tw_loaded_def by (simp add: load_vocabulary_wf)
  have h4: "distinct (map word_id (filtered_vocabulary (sess tw_app)))"
    by (simp add: tw_app_def tw_loaded_fields three_words_ids)
  have h5: "1 < length (filtered_vocabulary (sess tw_app))"
    and h6: "2 < length (filtered_vocabulary (sess tw_app))"
    by (simp_all add: tw_app_def tw_loaded_fields three_words_ids)
  have h7: "(1 :: nat) \<noteq> 2" by simp
  have h8: "1 \<noteq> current_index (sess tw_app)" and h9: "2 \<noteq> current_index (sess tw_app)"
    by (simp_all add: tw_app_def tw_loaded_fields)
  have h10: "unanswered_at (filtered_vocabulary (sess tw_app)) (word_stats (sess tw_app)) 1"
    and h11: "unanswered_at (filtered_vocabulary (sess tw_app)) (word_stats (sess tw_app)) 2"
    by (simp_all add: tw_app_def tw_loaded_fields unanswered_at_def)
  show ?thesis
    using Progress.double_mark_passes_card [OF h1 h2 h3 h4 h5 h6 h7 h8 h9 h10 h11, of True False]
      h1 h2 h3 h4 h5 h6 h7 h8 h9 h10 h11
    by blast
qed

theorem marks_complete_deck_witness:
  "wf_session demo_session \<and>
   (\<exists>s'. run_commands (replicate (Suc (length (filtered_vocabulary demo_session))) (Mark True))
           (demo_session, sconst 0) = Inr (s', sconst 0) \<and>
         filtered_vocabulary s' = filtered_vocabulary demo_session \<and> deck_done s')"
  using Progress.marks_complete_deck [OF demo_session_wf, of True "sconst 0"] demo_session_wf
  by blast

lemma demo_next:
  "handle_command Next (demo_session, sconst 0) =
   Inr (demo_session\<lparr>word_stats := [(''red'', skipped_stat)], current_index := Suc 0,
                      is_flipped := False\<rparr>, sconst 0)"
  by (simp add: on_session_def next_card_eq demo_session_eq mk_word_def Let_def)

theorem navigation_keeps_answers_witness:
  "handle_command Next (demo_session, sconst 0) =
     Inr (demo_session\<lparr>word_stats := [(''red'', skipped_stat)], current_index := Suc 0,
                        is_flipped := False\<rparr>, sconst 0) \<and>
   (Next \<in> {Previous, Next, Flip, Toggle_language, Toggle_direction, Download} \<or>
    (\<exists>b. Next = Mark b)) \<and>
   keeps_answers (word_stats demo_session)
     (word_stats (demo_session\<lparr>word_stats := [(''red'', skipped_stat)], current_index := Suc 0,
                                 is_flipped := False\<rparr>))"
proof -
  have h2: "Next \<in> {Previous, Next, Flip, Toggle_language, Toggle_direction, Download} \<or>
            (\<exists>b. Next = Mark b)" by simp
  show ?thesis using Progress.navigation_keeps_answers [OF demo_next h2] demo_next h2 by blast
qed

lemma demo_mark:
  "mark_word True demo_session = Inr (demo_session\<lparr>word_stats := [(''red'', answered_stat True)]\<rparr>)"
  by (simp add: mark_word_eq demo_session_eq mk_word_def)

theorem mark_updates_category_row_witness:
  "wf_session demo_session \<and> filtered_vocabulary demo_session \<noteq> [] \<and>
   distinct (map word_id (vocabulary demo_session)) \<and>
   mark_word True demo_session = Inr (demo_session\<lparr>word_stats := [(''red'', answered_stat True)]\<rparr>) \<and>
   total (category_stats (demo_session\<lparr>word_stats := [(''red'', answered_stat True)]\<rparr>) ''colors'') =
     total (category_stats demo_session ''colors'') \<and>
   counter Correct (category_stats (demo_session\<lparr>word_stats := [(''red'', answered_stat True)]\<rparr>) ''colors'') +
     (if ''colors'' = category (filtered_vocabulary demo_session ! current_index demo_session) \<and>
         stat_outcome (map_of (word_stats demo_session)
           (word_id (filtered_vocabulary demo_session ! current_index demo_session))) = Correct
      then 1 else 0) =
   counter Correct (category_stats demo_session ''colors'') +
     (if ''colors'' = category (filtered_vocabulary demo_session ! current_index demo_session) \<and>
         (if True then Correct else Incorrect) = Correct then 1 else 0)"
proof -
  have h2: "filtered_vocabulary demo_session \<noteq> []" by (simp add: demo_session_eq)
  have h3: "distinct (map word_id (vocabulary demo_session))"
    by (simp add: demo_session_eq mk_word_def)
  show ?thesis
    using Progress.mark_updates_category_row [OF demo_session_wf h2 h3 demo_mark, of "''colors''" Correct]
      demo_session_wf h2 h3 demo_mark
    by blast
qed

section \<open>Witnesses of the view, export, termination and liveness properties\<close>

lemma demo_last_wf: "wf_session demo_last"
  unfolding demo_last_def by (rule wf_session_index [OF _ demo_session_wf]) (simp add: demo_session_eq)

lemma demo_empty_wf: "wf_session demo_empty"
  using demo_session_wf
  by (simp add: demo_empty_def wf_session_def deck_of_def demo_session_eq)

theorem next_button_agrees_with_marker_witness:
  "wf_session demo_session \<and> filtered_vocabulary demo_session \<noteq> [] \<and>
   (\<exists>m b. card_status demo_session = Inr m \<and> next_button demo_session = Inr (Some b) \<and>
      (snd b = ''btn-skip'' \<longleftrightarrow> snd m = ''to-guess'') \<and>
      (snd b = ''btn-skip'' \<longleftrightarrow>
         is_to_guess (map_of (word_stats demo_session)
           (word_id (filtered_vocabulary demo_session ! current_index demo_session)))))"
proof -
  have h: "filtered_vocabulary demo_session \<noteq> []" by (simp add: demo_session_eq)
  show ?thesis
    using View.next_button_agrees_with_marker [OF demo_session_wf h] demo_session_wf h by blast
qed

theorem skip_button_at_last_card_witness:
  "wf_session demo_last \<and> Suc (current_index demo_last) = length (filtered_vocabulary demo_last) \<and>
   is_to_guess (map_of (word_stats demo_last) (word_id (filtered_vocabulary demo_last ! current_index demo_last))) \<and>
   next_button demo_last =
     Inr (Some (js_to_string (t_lookup (current_language demo_last) ''skip''), ''btn-skip'')) \<and>
   next_card demo_last = Inr demo_last"
proof -
  have h2: "Suc (current_index demo_last) = length (filtered_vocabulary demo_last)"
    by (simp add: demo_last_def demo_session_eq)
  have h3: "is_to_guess (map_of (word_stats demo_last)
              (word_id (filtered_vocabulary demo_last ! current_index demo_last)))"
    by (simp add: demo_last_def demo_session_eq is_to_guess_def)
  show ?thesis using View.skip_button_at_last_card [OF demo_last_wf h2 h3] demo_last_wf h2 h3 by blast
qed

theorem progress_bounds_witness:
  "wf_session demo_session \<and> filtered_vocabulary demo_session \<noteq> [] \<and>
   (\<exists>w. progress_view demo_session =
          (Suc (current_index demo_session), length (filtered_vocabulary demo_session), Some w) \<and>
        0 < w \<and> w \<le> 100 \<and>
        (w = 100 \<longleftrightarrow> Suc (current_index demo_session) = length (filtered_vocabulary demo_session)))"
proof -
  have h: "filtered_vocabulary demo_session \<noteq> []" by (simp add: demo_session_eq)
  show ?thesis using View.progress_bounds [OF demo_session_wf h] demo_session_wf h by blast
qed

theorem progress_empty_deck_witness:
  "wf_session demo_empty \<and> filtered_vocabulary demo_empty = [] \<and>
   progress_view demo_empty = (1, 0, None) \<and>
   card_status demo_empty =
     Inr (to_upper_case (js_to_string (t_lookup (current_language demo_empty) ''loading'')), ''to-guess'')"
proof -
  have h: "filtered_vocabulary demo_empty = []" by (simp add: demo_empty_def)
  show ?thesis using View.progress_empty_deck [OF demo_empty_wf h] demo_empty_wf h by blast
qed

theorem csv_line_fields_witness:
  "CHR '','' \<notin> set ''colors'' \<and>
   split_on (CHR '','') (csv_line ''colors'' row_stat) =
    [[CHR 0x22] @ ''colors'' @ [CHR 0x22], string_of_nat (total row_stat),
     string_of_nat (n_correct row_stat), string_of_nat (n_incorrect row_stat),
     string_of_nat (n_skipped row_stat), string_of_nat (n_unanswered row_stat),
     to_fixed1 (percent (n_correct row_stat) (total row_stat)) @ ''%'',
     to_fixed1 (percent (n_incorrect row_stat) (total row_stat)) @ ''%'',
     to_fixed1 (percent (n_skipped row_stat) (total row_stat)) @ ''%'',
     to_fixed1 (percent (n_unanswered row_stat) (total row_stat)) @ ''%'' @ [CHR 0x0A]]"
proof -
  have h: "CHR '','' \<notin> set ''colors''" by simp
  show ?thesis using Export.csv_line_fields [OF h, of row_stat] h by blast
qed


end
